(* ===== verification/Go_Prelude.thy ===== *)
theory Go_Prelude
  imports Main "HOL-Library.AList" "HOL-Library.Log_Nat" "HOL-Library.Multiset"
begin

text \<open>
  The part of the Go language and of its standard library that the service uses, shared by
  all components: 64-bit integers (\<^verbatim>\<open>int\<close>), the one floating-point comparison, run-time
  panics, string searching and slicing, \<^verbatim>\<open>strconv\<close>, line-by-line reading with
  \<^verbatim>\<open>bufio\<close>, and maps.  Strings are byte lists, as Go's are.  A Go map is an association
  list with distinct keys; the order in which a \<^verbatim>\<open>range\<close> statement visits it is never
  taken from the list but from an explicit iteration order (theory \<^verbatim>\<open>Pod_State\<close>).
\<close>

named_theorems go_frame \<open>fields an operation leaves alone\<close>
named_theorems go_wf \<open>operations keep the well-formedness of maps and of the state\<close>
named_theorems go_keys \<open>the key sets of maps after an operation\<close>

section \<open>Integers and the ten per cent test\<close>

text \<open>Go's \<^verbatim>\<open>int\<close> has 64 bits on the target; arithmetic wraps around.\<close>

definition int64 :: "int \<Rightarrow> bool" where
  "int64 n \<longleftrightarrow> - (2 ^ 63) \<le> n \<and> n < 2 ^ 63"

definition wrap64 :: "int \<Rightarrow> int" where
  "wrap64 n = (n + 2 ^ 63) mod 2 ^ 64 - 2 ^ 63"

definition add64 :: "int \<Rightarrow> int \<Rightarrow> int" where
  "add64 a b = wrap64 (a + b)"

definition sub64 :: "int \<Rightarrow> int \<Rightarrow> int" where
  "sub64 a b = wrap64 (a - b)"

text \<open>Go's integer division truncates towards zero; a zero divisor panics.\<close>

definition quot64 :: "int \<Rightarrow> int \<Rightarrow> int" where
  "quot64 a b = wrap64 (sgn a * sgn b * (\<bar>a\<bar> div \<bar>b\<bar>))"

text \<open>
  Rounding to a double keeps 53 significant bits, ties to even.  Every value rounded here
  is an integer (a product with the constant is scaled by \<open>2 ^ 52\<close>), far from the range of
  subnormals and infinities, so integer arithmetic is enough.
\<close>

definition round53 :: "int \<Rightarrow> int" where
  "round53 n =
     (let e = nat (bitlen \<bar>n\<bar> - 53);
          q = \<bar>n\<bar> div 2 ^ e;
          r = \<bar>n\<bar> mod 2 ^ e
      in if e = 0 then n
         else sgn n * ((if 2 * r > 2 ^ e \<or> 2 * r = 2 ^ e \<and> odd q then q + 1 else q) * 2 ^ e))"

text \<open>The double nearest to \<open>1.1\<close> is \<open>4953959590107546 / 2 ^ 52\<close>.\<close>

definition over_110_percent :: "int \<Rightarrow> int \<Rightarrow> bool" where
  "over_110_percent cur ideal \<longleftrightarrow>
     round53 (4953959590107546 * round53 ideal) < 2 ^ 52 * round53 cur"

section \<open>Panics\<close>

datatype go_panic = NilDeref | SliceBounds | IndexRange | DivideByZero | LogPanic string

datatype 'a outcome = Panic go_panic | Ok 'a

section \<open>Strings\<close>

abbreviation newline :: char where
  "newline \<equiv> CHR 0x0A"

text \<open>\<^verbatim>\<open>strings.Index\<close> and \<^verbatim>\<open>strings.LastIndex\<close>; \<open>None\<close> is Go's \<open>-1\<close>.\<close>

fun strings_Index :: "string \<Rightarrow> string \<Rightarrow> nat option" where
  "strings_Index [] sub = (if sub = [] then Some 0 else None)"
| "strings_Index (c # cs) sub =
     (if take (length sub) (c # cs) = sub then Some 0
      else map_option Suc (strings_Index cs sub))"

fun strings_LastIndex :: "string \<Rightarrow> string \<Rightarrow> nat option" where
  "strings_LastIndex [] sub = (if sub = [] then Some 0 else None)"
| "strings_LastIndex (c # cs) sub =
     (case strings_LastIndex cs sub of
        Some p \<Rightarrow> Some (Suc p)
      | None \<Rightarrow> if take (length sub) (c # cs) = sub then Some 0 else None)"

text \<open>\<^verbatim>\<open>s[lo:]\<close> and \<^verbatim>\<open>s[lo:hi]\<close> panic outside the string.\<close>

definition slice_from :: "nat \<Rightarrow> string \<Rightarrow> string outcome" where
  "slice_from lo s = (if lo \<le> length s then Ok (drop lo s) else Panic SliceBounds)"

definition str_slice :: "nat \<Rightarrow> nat \<Rightarrow> string \<Rightarrow> string outcome" where
  "str_slice lo hi s =
     (if lo \<le> hi \<and> hi \<le> length s then Ok (take (hi - lo) (drop lo s)) else Panic SliceBounds)"

definition byte_at :: "nat \<Rightarrow> string \<Rightarrow> char outcome" where
  "byte_at i s = (if i < length s then Ok (s ! i) else Panic IndexRange)"

text \<open>
  \<^verbatim>\<open>er.ReadString('\n')\<close> in a loop that stops at the first error: every complete line with
  its newline; a last line without one is dropped.
\<close>

fun read_lines_acc :: "string \<Rightarrow> string \<Rightarrow> string list" where
  "read_lines_acc acc [] = []"
| "read_lines_acc acc (c # cs) =
     (if c = newline then rev (c # acc) # read_lines_acc [] cs
      else read_lines_acc (c # acc) cs)"

definition read_lines :: "string \<Rightarrow> string list" where
  "read_lines s = read_lines_acc [] s"

definition ascii_lower :: "char \<Rightarrow> char" where
  "ascii_lower c =
     (if 65 \<le> (of_char c :: nat) \<and> (of_char c :: nat) \<le> 90 then char_of (of_char c + (32 :: nat)) else c)"

definition strings_ToLower :: "string \<Rightarrow> string" where
  "strings_ToLower s = map ascii_lower s"

definition is_space :: "char \<Rightarrow> bool" where
  "is_space c \<longleftrightarrow> c = CHR '' '' \<or> (9 \<le> (of_char c :: nat) \<and> (of_char c :: nat) \<le> 13)"

fun fields_acc :: "string \<Rightarrow> string \<Rightarrow> string list" where
  "fields_acc acc [] = (if acc = [] then [] else [rev acc])"
| "fields_acc acc (c # cs) =
     (if is_space c then (if acc = [] then [] else [rev acc]) @ fields_acc [] cs
      else fields_acc (c # acc) cs)"

definition strings_Fields :: "string \<Rightarrow> string list" where
  "strings_Fields s = fields_acc [] s"

section \<open>Numbers as text\<close>

datatype num_error = ErrSyntax | ErrRange

definition digit_val :: "char \<Rightarrow> int option" where
  "digit_val c =
     (if 48 \<le> (of_char c :: int) \<and> (of_char c :: int) \<le> 57 then Some (of_char c - 48) else None)"

definition digit_char :: "nat \<Rightarrow> char" where
  "digit_char d = ''0123456789'' ! d"

text \<open>\<^verbatim>\<open>strconv.ParseUint\<close> in base 10 and 64 bits: the first bad byte or overflow decides.\<close>

fun parse_uint :: "int \<Rightarrow> string \<Rightarrow> int \<times> num_error option" where
  "parse_uint n [] = (n, None)"
| "parse_uint n (c # cs) =
     (case digit_val c of
        None \<Rightarrow> (0, Some ErrSyntax)
      | Some d \<Rightarrow>
          if 2 ^ 64 \<le> 10 * n + d then (2 ^ 64 - 1, Some ErrRange)
          else parse_uint (10 * n + d) cs)"

text \<open>
  \<^verbatim>\<open>strconv.Atoi\<close>: the value comes back beside the error, 0 for a syntax error and the
  nearest bound for a value out of range.
\<close>

definition atoi_sign :: "string \<Rightarrow> bool \<times> string" where
  "atoi_sign s =
     (case s of
        [] \<Rightarrow> (False, [])
      | c # cs \<Rightarrow> if c = CHR ''-'' then (True, cs) else if c = CHR ''+'' then (False, cs) else (False, s))"

definition atoi :: "string \<Rightarrow> int \<times> num_error option" where
  "atoi s =
     (case atoi_sign s of
        (neg, ds) \<Rightarrow>
          if ds = [] then (0, Some ErrSyntax)
          else
            (case parse_uint 0 ds of
               (un, e) \<Rightarrow>
                 if e = Some ErrSyntax then (0, Some ErrSyntax)
                 else if \<not> neg \<and> 2 ^ 63 \<le> un then (2 ^ 63 - 1, Some ErrRange)
                 else if neg \<and> 2 ^ 63 < un then (- (2 ^ 63), Some ErrRange)
                 else (if neg then - un else un, None)))"

fun nat_digits :: "nat \<Rightarrow> string" where
  "nat_digits n = (if n < 10 then [digit_char n] else nat_digits (n div 10) @ [digit_char (n mod 10)])"

declare nat_digits.simps [simp del]

definition itoa :: "int \<Rightarrow> string" where
  "itoa i = (if i < 0 then CHR ''-'' # nat_digits (nat (- i)) else nat_digits (nat i))"

section \<open>Maps\<close>

type_synonym 'v gomap = "(string \<times> 'v) list"

abbreviation gm_keys :: "'v gomap \<Rightarrow> string set" where
  "gm_keys m \<equiv> fst ` set m"

abbreviation gm_distinct :: "'v gomap \<Rightarrow> bool" where
  "gm_distinct m \<equiv> distinct (map fst m)"

definition gm_has :: "string \<Rightarrow> 'v gomap \<Rightarrow> bool" where
  "gm_has k m \<longleftrightarrow> map_of m k \<noteq> None"

section \<open>Loops without a bound\<close>

text \<open>
  \<^verbatim>\<open>for { ... }\<close>: one turn either leaves the loop with a result or goes on from a new
  state.  A loop that is never left is \<open>None\<close>.  \<open>retry_state\<close> is the state in which turn
  number \<open>n\<close> starts, if there is one.
\<close>

partial_function (option) retry :: "('s \<Rightarrow> 'r + 's) \<Rightarrow> 's \<Rightarrow> 'r option" where
  "retry turn s = (case turn s of Inl r \<Rightarrow> Some r | Inr s' \<Rightarrow> retry turn s')"

fun retry_state :: "('s \<Rightarrow> 'r + 's) \<Rightarrow> nat \<Rightarrow> 's \<Rightarrow> 's option" where
  "retry_state turn 0 s = Some s"
| "retry_state turn (Suc n) s = (case turn s of Inl r \<Rightarrow> None | Inr s' \<Rightarrow> retry_state turn n s')"

section \<open>Lemmas\<close>

subsection \<open>Integers\<close>

lemma wrap64_int64 [simp]: "int64 (wrap64 n)"
proof -
  have "0 \<le> (n + 2 ^ 63) mod 2 ^ 64" and "(n + 2 ^ 63) mod 2 ^ 64 < (2 ^ 64 :: int)"
    by simp_all
  then show ?thesis by (simp add: int64_def wrap64_def)
qed

lemma wrap64_id [simp]: "int64 n \<Longrightarrow> wrap64 n = n"
  by (simp add: int64_def wrap64_def)

lemma add64_id: "int64 (a + b) \<Longrightarrow> add64 a b = a + b"
  by (simp add: add64_def)

lemma sub64_id: "int64 (a - b) \<Longrightarrow> sub64 a b = a - b"
  by (simp add: sub64_def)

lemma quot64_nonneg:
  assumes "0 \<le> a" and "0 < b" and "int64 a"
  shows "quot64 a b = a div b"
proof -
  have "0 \<le> a div b" and "a div b \<le> a"
    using assms zdiv_mono2 [of a 1 b] by (simp_all add: pos_imp_zdiv_nonneg_iff)
  with assms(3) have "int64 (a div b)" by (simp add: int64_def)
  moreover have "sgn a * sgn b * (\<bar>a\<bar> div \<bar>b\<bar>) = a div b"
    using assms by (cases "a = 0") simp_all
  ultimately show ?thesis by (simp add: quot64_def)
qed

subsection \<open>The rounding of doubles\<close>

lemma bitlen_le: "0 \<le> n \<Longrightarrow> n < 2 ^ b \<Longrightarrow> bitlen n \<le> int b"
proof (cases "n = 0")
  case False
  assume "0 \<le> n" and less: "n < 2 ^ b"
  with False have "(2 :: int) ^ nat (bitlen n - 1) \<le> n" using bitlen_bounds [of n] by simp
  with less have "(2 :: int) ^ nat (bitlen n - 1) < 2 ^ b" by linarith
  then have "nat (bitlen n - 1) < b" by simp
  then show ?thesis by linarith
qed simp

lemma round53_small [simp]: "\<bar>n\<bar> < 2 ^ 53 \<Longrightarrow> round53 n = n"
  using bitlen_le [of "\<bar>n\<bar>" 53] by (simp add: round53_def)

text \<open>Below \<open>2 ^ (53 + k)\<close> the unit in the last place divides \<open>2 ^ k\<close>.\<close>

lemma round53_unit:
  assumes "0 \<le> n" and "n < 2 ^ (53 + k)"
  obtains e :: nat and up :: bool where "e \<le> k"
    and "round53 n = (n div 2 ^ e + of_bool up) * 2 ^ e"
    and "up \<Longrightarrow> 2 ^ e \<le> 2 * (n mod 2 ^ e)" and "\<not> up \<Longrightarrow> 2 * (n mod 2 ^ e) \<le> 2 ^ e"
proof -
  define e where "e = nat (bitlen n - 53)"
  define up where "up \<longleftrightarrow> e \<noteq> 0 \<and> (2 * (n mod 2 ^ e) > 2 ^ e \<or> 2 * (n mod 2 ^ e) = 2 ^ e \<and> odd (n div 2 ^ e))"
  have "bitlen n \<le> int (53 + k)" by (rule bitlen_le) (use assms in simp_all)
  then have "e \<le> k" by (simp add: e_def)
  moreover have "round53 n = (n div 2 ^ e + of_bool up) * 2 ^ e"
    using assms(1) by (cases "n = 0") (simp_all add: round53_def Let_def e_def [symmetric] up_def)
  moreover have "up \<Longrightarrow> 2 ^ e \<le> 2 * (n mod 2 ^ e)" and "\<not> up \<Longrightarrow> 2 * (n mod 2 ^ e) \<le> 2 ^ e"
    by (auto simp: up_def)
  ultimately show ?thesis using that by blast
qed

lemma round53_near:
  assumes "0 \<le> n" and "n < 2 ^ (53 + k)"
  shows "2 * \<bar>round53 n - n\<bar> \<le> 2 ^ k"
proof -
  obtain e :: nat and up where e: "e \<le> k" and
    rnd: "round53 n = (n div 2 ^ e + of_bool up) * 2 ^ e" and
    up: "up \<Longrightarrow> 2 ^ e \<le> 2 * (n mod 2 ^ e)" and down: "\<not> up \<Longrightarrow> 2 * (n mod 2 ^ e) \<le> 2 ^ e"
    using round53_unit [OF assms] by blast
  define r where "r = n mod 2 ^ e"
  have r: "0 \<le> r" "r < 2 ^ e" by (simp_all add: r_def)
  have "round53 n - n = of_bool up * 2 ^ e - r"
    by (simp add: rnd r_def distrib_right minus_mod_eq_div_mult [symmetric])
  moreover have "2 * \<bar>of_bool up * 2 ^ e - r\<bar> \<le> 2 ^ e"
    using up down r by (cases up) (simp_all add: r_def [symmetric])
  moreover have "(2 :: int) ^ e \<le> 2 ^ k" using e by (intro power_increasing) simp_all
  ultimately show ?thesis by (metis order_trans)
qed

lemma round53_mono_unit:
  assumes "0 \<le> n" and "n < 2 ^ (53 + k)" and "c * 2 ^ k \<le> n"
  shows "c * 2 ^ k \<le> round53 n"
proof -
  obtain e :: nat and up where e: "e \<le> k" and
    rnd: "round53 n = (n div 2 ^ e + of_bool up) * 2 ^ e"
    using round53_unit [OF assms(1,2)] by blast
  have ck: "c * 2 ^ k = c * 2 ^ (k - e) * 2 ^ e"
    using e by (simp add: mult.assoc flip: power_add)
  have "c * 2 ^ (k - e) \<le> n div 2 ^ e"
    using zdiv_mono1 [OF assms(3), of "2 ^ e"] by (simp add: ck)
  then have "c * 2 ^ (k - e) \<le> n div 2 ^ e + of_bool up" by simp
  then show ?thesis unfolding ck rnd by (rule mult_right_mono) simp
qed

lemma over_110_percent_iff:
  assumes "0 \<le> ideal" and "ideal \<le> 2 ^ 40" and "\<bar>c\<bar> < 2 ^ 53"
  shows "over_110_percent c ideal \<longleftrightarrow> 11 * ideal < 10 * c"
proof -
  define P where "P = 4953959590107546 * ideal"
  have P: "0 \<le> P" "P < 2 ^ (53 + 40)" and P52: "P < 2 ^ (53 + 52)"
    using assms by (simp_all add: P_def)
  have ideal: "round53 ideal = ideal" using assms by simp
  have near: "2 * \<bar>round53 P - P\<bar> \<le> 2 ^ 40" by (rule round53_near [OF P])
  have unit: "c * 2 ^ 52 \<le> P \<Longrightarrow> c * 2 ^ 52 \<le> round53 P"
    by (rule round53_mono_unit [OF P(1) P52])
  have over: "over_110_percent c ideal \<longleftrightarrow> round53 P < 2 ^ 52 * c"
    using assms by (simp add: over_110_percent_def ideal P_def)
  consider "11 * ideal + 1 \<le> 10 * c" | "10 * c = 11 * ideal" | "10 * c + 1 \<le> 11 * ideal"
    by linarith
  then show ?thesis
  proof cases
    case 1
    then show ?thesis using near assms by (simp add: over P_def)
  next
    case 2
    then have "c * 2 ^ 52 \<le> P" using assms by (simp add: P_def)
    with 2 unit show ?thesis by (simp add: over)
  next
    case 3
    then show ?thesis using near assms by (simp add: over P_def)
  qed
qed

subsection \<open>Strings\<close>

lemma strings_Index_SomeD:
  "strings_Index s sub = Some p \<Longrightarrow> p + length sub \<le> length s \<and> take (length sub) (drop p s) = sub"
proof (induction s arbitrary: p)
  case (Cons c cs)
  show ?case
  proof (cases "take (length sub) (c # cs) = sub")
    case True
    then have "length sub \<le> length (c # cs)" by (metis length_take min.cobounded1)
    with True Cons.prems show ?thesis by auto
  next
    case False
    with Cons show ?thesis by auto
  qed
qed (auto split: if_splits)

lemma strings_Index_append:
  "sub \<noteq> [] \<Longrightarrow> \<exists>p. strings_Index (pre @ sub @ post) sub = Some p \<and> p \<le> length pre"
  by (induction pre) (auto simp: neq_Nil_conv)

lemma strings_Index_None_iff: "strings_Index s sub = None \<longleftrightarrow> (\<nexists>pre post. s = pre @ sub @ post)"
proof (induction s)
  case (Cons c cs)
  have "(\<exists>pre post. c # cs = pre @ sub @ post) \<longleftrightarrow>
      take (length sub) (c # cs) = sub \<or> (\<exists>pre post. cs = pre @ sub @ post)" (is "?l \<longleftrightarrow> ?r")
  proof
    assume ?l
    then obtain pre post where eq: "c # cs = pre @ sub @ post" by blast
    show ?r
    proof (cases pre)
      case Nil
      then have "take (length sub) (c # cs) = sub" using eq by (metis append_Nil append_eq_conv_conj)
      then show ?thesis by blast
    next
      case (Cons a pre')
      then show ?thesis using eq by auto
    qed
  next
    assume ?r
    then show ?l by (metis append_Cons append_Nil append_take_drop_id)
  qed
  with Cons show ?case by auto
qed simp

text \<open>The first occurrence of a byte that the text before it does not contain.\<close>

lemma strings_Index_byte: "b \<notin> set pre \<Longrightarrow> strings_Index (pre @ b # post) [b] = Some (length pre)"
  by (induction pre) auto

lemma strings_Index_byte_None: "strings_Index s [b] = None \<longleftrightarrow> b \<notin> set s"
  by (induction s) auto

lemma strings_LastIndex_byte_None: "strings_LastIndex s [b] = None \<longleftrightarrow> b \<notin> set s"
  by (induction s) (auto split: option.splits)

lemma strings_LastIndex_byte:
  "b \<notin> set post \<Longrightarrow> strings_LastIndex (pre @ b # post) [b] = Some (length pre)"
proof (induction pre)
  case Nil
  then have "strings_LastIndex post [b] = None" by (simp add: strings_LastIndex_byte_None)
  then show ?case by simp
qed simp

lemma strings_LastIndex_byteD:
  "strings_LastIndex s [b] = Some p \<Longrightarrow> p < length s \<and> s ! p = b \<and> b \<notin> set (drop (Suc p) s)"
proof (induction s arbitrary: p)
  case (Cons c cs)
  then show ?case
    by (auto split: option.splits if_splits simp: strings_LastIndex_byte_None)
qed simp

text \<open>Lower-casing evaluates on literals.\<close>

lemmas lower_simps = strings_ToLower_def ascii_lower_def char_of_eq_iff

text \<open>Lines read from a file.\<close>

lemma read_lines_acc_line:
  "l \<in> set (read_lines_acc acc s) \<Longrightarrow> newline \<notin> set acc \<Longrightarrow>
     \<exists>xs. l = xs @ [newline] \<and> newline \<notin> set xs"
  by (induction acc s rule: read_lines_acc.induct) (auto split: if_splits)

lemma read_lines_line:
  "l \<in> set (read_lines s) \<Longrightarrow> \<exists>xs. l = xs @ [newline] \<and> newline \<notin> set xs"
  by (simp add: read_lines_def read_lines_acc_line)

lemma read_lines_acc_append:
  "newline \<notin> set l \<Longrightarrow>
     read_lines_acc acc (l @ newline # rest) = (rev acc @ l @ [newline]) # read_lines_acc [] rest"
  by (induction l arbitrary: acc) auto

lemma read_lines_Cons:
  "newline \<notin> set l \<Longrightarrow> read_lines (l @ newline # rest) = (l @ [newline]) # read_lines rest"
  by (simp add: read_lines_def read_lines_acc_append)

lemma read_lines_Nil [simp]: "read_lines [] = []"
  by (simp add: read_lines_def)

subsection \<open>Numbers as text\<close>

lemma digit_cases: "(d :: nat) < 10 \<Longrightarrow> d \<in> {0, 1, 2, 3, 4, 5, 6, 7, 8, 9}"
  by auto

lemma digit_val_char [simp]: "d < 10 \<Longrightarrow> digit_val (digit_char d) = Some (int d)"
  by (drule digit_cases) (auto simp: digit_val_def digit_char_def)

lemma digit_char_not_sign:
  "d < 10 \<Longrightarrow> digit_char d \<noteq> CHR ''-'' \<and> digit_char d \<noteq> CHR ''+''"
  by (drule digit_cases) (auto simp: digit_char_def)

lemma nat_digits_neq_Nil [simp]: "nat_digits n \<noteq> []"
  by (subst nat_digits.simps) simp

lemma nat_digits_digit: "c \<in> set (nat_digits n) \<Longrightarrow> \<exists>d < 10. c = digit_char d"
proof (induction n rule: nat_digits.induct)
  case (1 n)
  show ?case
  proof (cases "n < 10")
    case True
    with "1.prems" show ?thesis by (auto simp: nat_digits.simps [of n])
  next
    case False
    with "1.prems" consider "c \<in> set (nat_digits (n div 10))" | "c = digit_char (n mod 10)"
      by (auto simp: nat_digits.simps [of n])
    then show ?thesis using "1.IH" False by cases (auto intro!: exI [of _ "n mod 10"])
  qed
qed

lemma parse_uint_append:
  "parse_uint n (xs @ ys) =
     (case parse_uint n xs of (m, None) \<Rightarrow> parse_uint m ys | (m, Some e) \<Rightarrow> (m, Some e))"
  by (induction n xs rule: parse_uint.induct) (auto split: option.splits)

lemma parse_uint_nat_digits: "n < 2 ^ 64 \<Longrightarrow> parse_uint 0 (nat_digits n) = (int n, None)"
proof (induction n rule: nat_digits.induct)
  case (1 n)
  show ?case
  proof (cases "n < 10")
    case True
    then show ?thesis by (simp add: nat_digits.simps [of n])
  next
    case False
    have le: "n div 10 \<le> n" by simp
    with False "1.IH" "1.prems" have "parse_uint 0 (nat_digits (n div 10)) = (int (n div 10), None)"
      by (meson le_less_trans)
    moreover have "10 * int (n div 10) + int (n mod 10) = int n" by (simp flip: of_nat_mult of_nat_add add: zdiv_int zmod_int)
    ultimately show ?thesis using False "1.prems"
      by (simp add: nat_digits.simps [of n] parse_uint_append)
  qed
qed

lemma atoi_sign_nat_digits: "atoi_sign (nat_digits n) = (False, nat_digits n)"
proof -
  obtain c cs where eq: "nat_digits n = c # cs" by (cases "nat_digits n") simp_all
  then have "c \<in> set (nat_digits n)" by simp
  then obtain d where "d < 10" and "c = digit_char d" using nat_digits_digit by blast
  then show ?thesis by (simp add: atoi_sign_def eq digit_char_not_sign)
qed

lemma parse_uint_range: "0 \<le> n \<Longrightarrow> 0 \<le> fst (parse_uint n cs)"
proof (induction n cs rule: parse_uint.induct)
  case (2 n c cs)
  then show ?case by (auto simp: digit_val_def Let_def split: option.split if_splits)
qed simp

text \<open>Whatever the text, the value fits into 64 bits.\<close>

lemma atoi_int64: "int64 (fst (atoi s))"
proof -
  obtain neg ds where s: "atoi_sign s = (neg, ds)" by fastforce
  obtain un e where u: "parse_uint 0 ds = (un, e)" by fastforce
  have "0 \<le> un" using parse_uint_range [of 0 ds] by (simp add: u)
  then show ?thesis by (auto simp: atoi_def s u int64_def)
qed

lemma atoi_itoa: "int64 n \<Longrightarrow> atoi (itoa n) = (n, None)"
proof (cases "n < 0")
  case True
  moreover assume "int64 n"
  ultimately show ?thesis
    using parse_uint_nat_digits [of "nat (- n)"] by (simp add: atoi_def itoa_def atoi_sign_def int64_def)
next
  case False
  moreover assume "int64 n"
  ultimately show ?thesis
    using parse_uint_nat_digits [of "nat n"]
    by (simp add: atoi_def itoa_def atoi_sign_nat_digits int64_def)
qed

subsection \<open>Maps\<close>

lemma gm_has_iff [simp]: "gm_has k m \<longleftrightarrow> k \<in> gm_keys m"
  by (simp add: gm_has_def map_of_eq_None_iff)

lemma gm_keys_update [go_keys]: "gm_keys (AList.update k v m) = insert k (gm_keys m)"
  by (simp add: dom_update)

lemma gm_keys_delete [go_keys]: "gm_keys (AList.delete k m) = gm_keys m - {k}"
  using arg_cong [OF delete_keys [of k m], of set] by (simp add: set_removeAll)

lemma length_delete_key:
  "gm_distinct m \<Longrightarrow> k \<in> gm_keys m \<Longrightarrow> Suc (length (AList.delete k m)) = length m"
proof (induction m)
  case (Cons kv m)
  then show ?case by (cases kv) auto
qed simp

lemma length_update_key:
  "length (AList.update k v m) = (if k \<in> gm_keys m then length m else Suc (length m))"
  by (induction m) auto

lemma set_delete_key: "set (AList.delete k m) = {p \<in> set m. fst p \<noteq> k}"
  by (auto simp: AList.delete_eq)

lemma set_update_key:
  "gm_distinct m \<Longrightarrow> set (AList.update k v m) = insert (k, v) {p \<in> set m. fst p \<noteq> k}"
  by (induction m) (auto simp: rev_image_eqI)

lemma map_of_in_set: "map_of m k = Some v \<Longrightarrow> (k, v) \<in> set m"
  by (rule map_of_SomeD)

lemma set_update_values: "(k', v') \<in> set (AList.update k v m) \<Longrightarrow> (k', v') = (k, v) \<or> (k', v') \<in> set m"
  by (induction m) (auto split: if_splits)

lemma set_delete_subset: "(k', v') \<in> set (AList.delete k m) \<Longrightarrow> (k', v') \<in> set m"
  by (auto simp: AList.delete_eq)

lemma gm_distinct_update [go_wf]: "gm_distinct m \<Longrightarrow> gm_distinct (AList.update k v m)"
  by (rule distinct_update)

lemma gm_distinct_delete [go_wf]: "gm_distinct m \<Longrightarrow> gm_distinct (AList.delete k m)"
  by (rule distinct_delete)


section \<open>Loops\<close>

lemma retry_unfold [code]: "retry turn s = (case turn s of Inl r \<Rightarrow> Some r | Inr s' \<Rightarrow> retry turn s')"
  by (rule retry.simps)

lemma retry_returns:
  "retry_state turn n s = Some t \<Longrightarrow> turn t = Inl r \<Longrightarrow> retry turn s = Some r"
proof (induction n arbitrary: s)
  case 0
  then show ?case by (subst retry_unfold) simp
next
  case (Suc n)
  then obtain s' where "turn s = Inr s'" "retry_state turn n s' = Some t"
    by (auto split: sum.splits)
  with Suc show ?case by (subst retry_unfold) simp
qed

lemma retry_result:
  assumes "retry turn s = Some r" and "I s"
    and "\<And>s s'. I s \<Longrightarrow> turn s = Inr s' \<Longrightarrow> I s'" and "\<And>s r. I s \<Longrightarrow> turn s = Inl r \<Longrightarrow> Q r"
  shows "Q r"
proof -
  have "t = turn \<longrightarrow> I s \<longrightarrow> Q r" if "retry t s = Some r" for t s r
    using that
  proof (rule retry.raw_induct [where P = "\<lambda>t s r. t = turn \<longrightarrow> I s \<longrightarrow> Q r", rotated])
    fix f :: "('b \<Rightarrow> 'a + 'b) \<Rightarrow> 'b \<Rightarrow> 'a option" and t s r
    assume "\<And>t s r. f t s = Some r \<Longrightarrow> t = turn \<longrightarrow> I s \<longrightarrow> Q r"
      and "(case t s of Inl r \<Rightarrow> Some r | Inr s' \<Rightarrow> f t s') = Some r"
    then show "t = turn \<longrightarrow> I s \<longrightarrow> Q r"
      using assms(3,4) by (auto split: sum.splits)
  qed
  with assms(1,2) show ?thesis by blast
qed

text \<open>A loop none of whose turns leaves it.\<close>

lemma retry_never:
  assumes "I s" and "\<And>s. I s \<Longrightarrow> \<exists>s'. turn s = Inr s' \<and> I s'"
  shows "retry turn s = None"
proof (rule ccontr)
  assume "retry turn s \<noteq> None"
  then obtain r where r: "retry turn s = Some r" by blast
  have False
    by (rule retry_result [OF r, where I = I and Q = "\<lambda>_. False"]) (use assms in fastforce)+
  then show False .
qed

end
