(* ===== verification/Go_Json.thy ===== *)
theory Go_Json
  imports Go_Prelude
begin

text \<open>
  What the service uses of \<^verbatim>\<open>encoding/json\<close>.  A message body is classified once: either
  the bytes are well-formed JSON, and then the body is the value they denote, or they are
  not and \<^verbatim>\<open>Unmarshal\<close> fails before it stores anything.  Decoding into a struct follows
  \<^verbatim>\<open>encoding/json\<close>: an object member goes to the field with exactly its name, or else to
  one whose name agrees up to case; unknown members are skipped; \<^verbatim>\<open>null\<close> leaves a string
  or an integer alone; a value of the wrong type leaves the field alone, is remembered as an
  error, and decoding goes on with the rest.  So a decoder returns the (possibly partly
  filled) value beside the error flag, as Go's caller sees it.
\<close>

datatype json =
  JNull
| JBool bool
| JNum string \<comment> \<open>the literal, as written\<close>
| JStr string
| JArr "json list"
| JObj "(string \<times> json) list"

datatype body = Json json | NotJson string

text \<open>A decoder stores into a value and says whether a type error was met.\<close>

type_synonym 'r decoder = "json \<Rightarrow> 'r \<Rightarrow> 'r \<times> bool"

definition dec_string :: "(string \<Rightarrow> 'r \<Rightarrow> 'r) \<Rightarrow> 'r decoder" where
  "dec_string upd j r =
     (case j of JStr s \<Rightarrow> (upd s r, False) | JNull \<Rightarrow> (r, False) | _ \<Rightarrow> (r, True))"

definition dec_int :: "(int \<Rightarrow> 'r \<Rightarrow> 'r) \<Rightarrow> 'r decoder" where
  "dec_int upd j r =
     (case j of
        JNum lit \<Rightarrow> (case atoi lit of (n, None) \<Rightarrow> (upd n r, False) | _ \<Rightarrow> (r, True))
      | JNull \<Rightarrow> (r, False)
      | _ \<Rightarrow> (r, True))"

definition json_field :: "(string \<times> 'f) list \<Rightarrow> string \<Rightarrow> 'f option" where
  "json_field fs k =
     (case map_of fs k of
        Some f \<Rightarrow> Some f
      | None \<Rightarrow> map_option snd (find (\<lambda>p. strings_ToLower (fst p) = strings_ToLower k) fs))"

fun dec_members :: "(string \<times> 'r decoder) list \<Rightarrow> (string \<times> json) list \<Rightarrow> 'r \<Rightarrow> 'r \<times> bool" where
  "dec_members fs [] r = (r, False)"
| "dec_members fs ((k, j) # kvs) r =
     (case json_field fs k of
        None \<Rightarrow> dec_members fs kvs r
      | Some d \<Rightarrow>
          (case d j r of (r1, e1) \<Rightarrow>
             (case dec_members fs kvs r1 of (r2, e2) \<Rightarrow> (r2, e1 \<or> e2))))"

definition dec_struct :: "(string \<times> 'r decoder) list \<Rightarrow> 'r decoder" where
  "dec_struct fs j r =
     (case j of JObj kvs \<Rightarrow> dec_members fs kvs r | JNull \<Rightarrow> (r, False) | _ \<Rightarrow> (r, True))"

text \<open>Decoding into a nil slice; every element starts from the zero value.\<close>

definition dec_slice :: "'r decoder \<Rightarrow> 'r \<Rightarrow> json \<Rightarrow> 'r list \<times> bool" where
  "dec_slice d zero j =
     (case j of
        JArr js \<Rightarrow> (map (\<lambda>x. fst (d x zero)) js, \<exists>x \<in> set js. snd (d x zero))
      | JNull \<Rightarrow> ([], False)
      | _ \<Rightarrow> ([], True))"

text \<open>Decoding through a pointer that holds \<open>r\<close>: \<^verbatim>\<open>null\<close> sets the pointer to nil.\<close>

definition dec_pointer :: "'r decoder \<Rightarrow> json \<Rightarrow> 'r \<Rightarrow> 'r option \<times> bool" where
  "dec_pointer d j r =
     (case j of JNull \<Rightarrow> (None, False) | _ \<Rightarrow> (case d j r of (r', e) \<Rightarrow> (Some r', e)))"

section \<open>Lemmas\<close>

lemma json_field_exact: "map_of fs k = Some f \<Longrightarrow> json_field fs k = Some f"
  by (simp add: json_field_def)

lemma json_field_fold:
  "map_of fs k = None \<Longrightarrow> json_field fs k = map_option snd (find (\<lambda>p. strings_ToLower (fst p) = strings_ToLower k) fs)"
  by (simp add: json_field_def)

lemma dec_string_simps [simp]:
  "dec_string upd (JStr s) r = (upd s r, False)"
  "dec_string upd JNull r = (r, False)"
  by (simp_all add: dec_string_def)

lemma dec_int_itoa [simp]: "int64 n \<Longrightarrow> dec_int upd (JNum (itoa n)) r = (upd n r, False)"
  by (simp add: dec_int_def atoi_itoa)

lemma json_field_mem: "json_field fs k = Some d \<Longrightarrow> d \<in> snd ` set fs"
proof (cases "map_of fs k")
  case None
  assume "json_field fs k = Some d"
  with None obtain p where "find (\<lambda>p. strings_ToLower (fst p) = strings_ToLower k) fs = Some p" "d = snd p"
    by (auto simp: json_field_def)
  then show ?thesis by (metis find_Some_iff image_eqI nth_mem)
next
  case (Some f)
  assume "json_field fs k = Some d"
  with Some show ?thesis by (metis json_field_exact map_of_SomeD option.sel image_eqI snd_conv)
qed

text \<open>A property that every field's decoder keeps holds of the decoded struct.\<close>

lemma dec_members_keeps:
  assumes "\<And>d j r. d \<in> snd ` set fs \<Longrightarrow> P r \<Longrightarrow> P (fst (d j r))"
  shows "P r \<Longrightarrow> P (fst (dec_members fs kvs r))"
proof (induction kvs arbitrary: r)
  case (Cons kj kvs)
  obtain k j where kj: "kj = (k, j)" by fastforce
  show ?case
  proof (cases "json_field fs k")
    case None
    then show ?thesis using Cons by (simp add: kj)
  next
    case (Some d)
    have "P (fst (d j r))" by (rule assms [OF json_field_mem [OF Some] Cons.prems])
    then show ?thesis using Cons.IH [of "fst (d j r)"] Some
      by (simp add: kj case_prod_beta)
  qed
qed simp

lemma dec_int_fst: "fst (dec_int upd j r) = r \<or> (\<exists>n. int64 n \<and> fst (dec_int upd j r) = upd n r)"
  using atoi_int64 by (auto simp: dec_int_def split: json.split prod.split option.split) (metis fst_conv)

lemma dec_slice_map:
  assumes "\<And>x. x \<in> set xs \<Longrightarrow> d (enc x) zero = (x, False)"
  shows "dec_slice d zero (JArr (map enc xs)) = (xs, False)"
proof -
  have "map ((\<lambda>x. fst (d x zero)) \<circ> enc) xs = xs"
    using assms by (intro map_idI) (simp add: comp_def)
  then show ?thesis using assms by (auto simp: dec_slice_def)
qed

end
