(* ===== verification/Pod_State.thy ===== *)
theory Pod_State
  imports Go_Json "HOL-Library.Word"
begin

text \<open>
  The world around the service and the globals of \<^verbatim>\<open>consoleNodeMain.go\<close>.  Everything
  the program does to its surroundings is an event of a trace; everything it learns from
  them is a function of the trace so far: the network, the operating system, the clock and
  the order in which a \<^verbatim>\<open>range\<close> statement visits a map.  As each of those calls is
  itself an event, a later call may always be answered differently, so the functions stand
  for arbitrary surroundings.  The globals of the other source files extend the record
  \<open>pod\<close>, each in the theory of its component.
\<close>

section \<open>Requests, events and the surroundings\<close>

datatype http_request =
  Request (rq_method: string) (rq_url: string) (rq_headers: "(string \<times> string) list") (rq_body: "body option")

text \<open>
  How \<^verbatim>\<open>http.NewRequest\<close>, \<^verbatim>\<open>client.Do\<close> and \<^verbatim>\<open>io.ReadAll\<close> can end.
\<close>

datatype http_outcome =
  NewRequestError
| DoError
| ReadError int
| Response int body

datatype go_error =
  ErrNewRequest
| ErrDo
| ErrRead
| ErrUnmarshal
| ErrStatus int
| ErrMissing string

datatype signal = SIGHUP | SIGTERM

datatype event =
  HttpCall http_request
| SignalConman signal
| StartTail nat string
| CancelTail nat string
| AggPrint string
| StartConman
| StartTestLog string
| StartReaper int
| ConmanExit
| OsCall string string
| ChmodCall string "32 word"
| Sleep int
| LogPrint string

datatype inode = RegFile (inode_mode: "32 word") (inode_data: string) | Directory (inode_mode: "32 word")

definition is_directory :: "inode option \<Rightarrow> bool" where
  "is_directory i = (case i of Some (Directory _) \<Rightarrow> True | _ \<Rightarrow> False)"

text \<open>
  \<open>net\<close>: what an HTTP call returns.  \<open>range_order site\<close>: the order in which the range
  statement at a given place visits the given keys.  \<open>getenv\<close>: the environment.
  \<open>os_fails op path\<close>: the call fails although the path would allow it.  \<open>now\<close>: the
  formatted time.  \<open>umask\<close>: the permission bits the process may not grant.
  \<open>ps_output\<close>: what \<^verbatim>\<open>ps\<close> prints.  \<open>rand_Intn\<close>: a random number below the given one.
\<close>

record env =
  net :: "event list \<Rightarrow> http_request \<Rightarrow> http_outcome"
  range_order :: "string \<Rightarrow> event list \<Rightarrow> string list \<Rightarrow> string list"
  getenv :: "string \<Rightarrow> string"
  os_fails :: "event list \<Rightarrow> string \<Rightarrow> string \<Rightarrow> bool"
  now :: "event list \<Rightarrow> string"
  umask :: "32 word"
  ps_output :: "event list \<Rightarrow> string"
  rand_Intn :: "int \<Rightarrow> int"

section \<open>Globals of consoleNodeMain.go\<close>

record PodLocationDataResponse =
  PodName :: string
  Alias :: string
  Xname :: string

record pod =
  trace :: "event list"
  files :: "string \<Rightarrow> inode option"
  debugOnly :: bool
  podName :: string
  podID :: string
  podLocData :: "PodLocationDataResponse option" \<comment> \<open>a pointer: \<open>None\<close> is nil\<close>
  inShutdown :: bool

definition emit :: "event \<Rightarrow> 'p pod_scheme \<Rightarrow> 'p pod_scheme" where
  "emit e s = s\<lparr>trace := trace s @ [e]\<rparr>"

text \<open>
  The keys of a map in the order of one \<^verbatim>\<open>range\<close> statement.  Go visits every entry
  exactly once, in an order it does not specify: any permutation may be prescribed, and
  what is no permutation prescribes nothing.
\<close>

definition range_keys :: "'e env_scheme \<Rightarrow> string \<Rightarrow> 'v gomap \<Rightarrow> 'p pod_scheme \<Rightarrow> string list" where
  "range_keys E site m s =
     (let ks = range_order E site (trace s) (map fst m)
      in if mset ks = mset (map fst m) then ks else map fst m)"

section \<open>Lemmas\<close>

lemma is_directory_simps [simp]:
  "\<not> is_directory None" "\<not> is_directory (Some (RegFile m c))" "is_directory (Some (Directory m))"
  by (simp_all add: is_directory_def)

lemma emit_simps [simp]:
  "trace (emit e s) = trace s @ [e]"
  "files (emit e s) = files s"
  "debugOnly (emit e s) = debugOnly s"
  "podName (emit e s) = podName s"
  "podID (emit e s) = podID s"
  "podLocData (emit e s) = podLocData s"
  "inShutdown (emit e s) = inShutdown s"
  "pod.more (emit e s) = pod.more s"
  by (simp_all add: emit_def)

lemma range_keys_perm: "mset (range_keys E site m s) = mset (map fst m)"
  by (simp add: range_keys_def Let_def)

lemma range_keys_set [simp]: "set (range_keys E site m s) = gm_keys m"
  by (simp add: range_keys_perm [THEN mset_eq_setD])

lemma range_keys_length [simp]: "length (range_keys E site m s) = length m"
  by (simp add: range_keys_perm [THEN mset_eq_length])

lemma range_keys_distinct [simp]: "distinct (range_keys E site m s) \<longleftrightarrow> gm_distinct m"
  by (simp add: range_keys_perm [THEN mset_eq_imp_distinct_iff])

lemma range_keys_Nil_iff [simp]: "range_keys E site m s = [] \<longleftrightarrow> m = []"
  by (metis length_0_conv range_keys_length)

lemma range_keys_Nil [simp]: "range_keys E site [] s = []"
  by simp

text \<open>What happened stays in the trace.\<close>

definition later :: "'p pod_scheme \<Rightarrow> 'q pod_scheme \<Rightarrow> bool" where
  "later s s' \<longleftrightarrow> (\<exists>t. trace s' = trace s @ t)"

lemma later_refl [simp]: "later s s"
  by (simp add: later_def)

lemma later_trans: "later s s' \<Longrightarrow> later s' s'' \<Longrightarrow> later s s''"
  by (auto simp: later_def)

lemma later_emit [simp]: "later s s' \<Longrightarrow> later s (emit e s')"
  by (auto simp: later_def)

lemma later_append [simp]: "later s s' \<Longrightarrow> later s (s'\<lparr>trace := trace s' @ t\<rparr>)"
  by (auto simp: later_def)

end
