(* ===== verification/Main_Utils.thy ===== *)
theory Main_Utils
  imports Pod_State
begin

text \<open>
  The two utilities of \<^verbatim>\<open>consoleNodeMain.go\<close> that other components call:
  \<^verbatim>\<open>ensureDirPresent\<close> and \<^verbatim>\<open>readSingleEnvVarInt\<close>.  Permissions are \<^verbatim>\<open>os.FileMode\<close>
  values, 32-bit words whose low nine bits are the Unix permission bits.
\<close>

unbundle bit_operations_syntax

abbreviation perm_mask :: "32 word" where
  "perm_mask \<equiv> 0x1FF" \<comment> \<open>octal 777\<close>

text \<open>\<open>read\<close>, \<open>write\<close> and \<open>search\<close> for the owner, as the bits of a mode.\<close>

definition owner_read :: "32 word \<Rightarrow> bool" where
  "owner_read m \<longleftrightarrow> m AND 0x100 \<noteq> 0"

definition owner_write :: "32 word \<Rightarrow> bool" where
  "owner_write m \<longleftrightarrow> m AND 0x80 \<noteq> 0"

definition owner_exec :: "32 word \<Rightarrow> bool" where
  "owner_exec m \<longleftrightarrow> m AND 0x40 \<noteq> 0"

text \<open>The path itself and every directory above it that is not the root.\<close>

fun dir_chain_acc :: "string \<Rightarrow> string \<Rightarrow> string list" where
  "dir_chain_acc acc [] = (if acc = [] then [] else [rev acc])"
| "dir_chain_acc acc (c # cs) =
     (if c = CHR ''/'' \<and> acc \<noteq> [] then rev acc # dir_chain_acc (c # acc) cs
      else dir_chain_acc (c # acc) cs)"

definition dir_chain :: "string \<Rightarrow> string list" where
  "dir_chain path = dir_chain_acc [] path"

definition mkdir_mode :: "'e env_scheme \<Rightarrow> 32 word \<Rightarrow> 32 word" where
  "mkdir_mode E perm = perm AND perm_mask AND NOT (umask E)"

definition add_dir :: "'e env_scheme \<Rightarrow> 32 word \<Rightarrow> string \<Rightarrow> (string \<Rightarrow> inode option) \<Rightarrow> (string \<Rightarrow> inode option)" where
  "add_dir E perm d fs = (if fs d = None then fs(d := Some (Directory (mkdir_mode E perm))) else fs)"

text \<open>
  \<^verbatim>\<open>os.MkdirAll\<close>: every missing directory of the chain is made with the same mode; a
  regular file on the way is an error.
\<close>

definition MkdirAll :: "'e env_scheme \<Rightarrow> string \<Rightarrow> 32 word \<Rightarrow> 'p pod_scheme \<Rightarrow> bool \<times> 'p pod_scheme" where
  "MkdirAll E dir perm s =
     (if os_fails E (trace s) ''MkdirAll'' dir \<or>
         (\<exists>d \<in> set (dir_chain dir). case files s d of Some (RegFile _ _) \<Rightarrow> True | _ \<Rightarrow> False)
      then (False, emit (OsCall ''MkdirAll'' dir) s)
      else (True, emit (OsCall ''MkdirAll'' dir) (s\<lparr>files := fold (add_dir E perm) (dir_chain dir) (files s)\<rparr>)))"

text \<open>The result is Go's boolean; the error is present exactly when it is false.\<close>

definition ensureDirPresent :: "'e env_scheme \<Rightarrow> string \<Rightarrow> 32 word \<Rightarrow> 'p pod_scheme \<Rightarrow> bool \<times> 'p pod_scheme" where
  "ensureDirPresent E dir perm s =
     (if files s dir = None then MkdirAll E dir perm s else (True, s))"

text \<open>Opening with truncation: the file is empty then and keeps its mode if it existed.\<close>

definition open_trunc :: "'e env_scheme \<Rightarrow> string \<Rightarrow> 32 word \<Rightarrow> 'p pod_scheme \<Rightarrow> 'p pod_scheme option" where
  "open_trunc E path perm s =
     (if os_fails E (trace s) ''OpenFile'' path \<or> is_directory (files s path) then None
      else Some (emit (OsCall ''OpenFile'' path)
        (s\<lparr>files := (files s)(path \<mapsto>
           RegFile (case files s path of Some i \<Rightarrow> inode_mode i | None \<Rightarrow> mkdir_mode E perm) [])\<rparr>)))"

text \<open>The new value of the variable that the caller passes by reference.\<close>

definition readSingleEnvVarInt :: "'e env_scheme \<Rightarrow> string \<Rightarrow> int \<Rightarrow> int \<Rightarrow> int \<Rightarrow> int" where
  "readSingleEnvVarInt E envVar outVar minVal maxVal =
     (let v = getenv E envVar
      in if v = [] then outVar
         else
           (case atoi v of (vi, err) \<Rightarrow>
              if err \<noteq> None then outVar
              else
                (let vi1 = (if vi < minVal then minVal else vi)
                 in if vi1 > maxVal then maxVal else vi1)))"

section \<open>Lemmas\<close>

lemma open_trunc_Some:
  "open_trunc E p perm s = Some s' \<Longrightarrow>
     \<exists>m. s' = s\<lparr>files := (files s)(p \<mapsto> RegFile m []), trace := trace s @ [OsCall ''OpenFile'' p]\<rparr>"
  by (auto simp: open_trunc_def emit_def split: if_splits)

lemma add_dir_other: "d \<noteq> d' \<Longrightarrow> add_dir E perm d fs d' = fs d'"
  by (simp add: add_dir_def)

lemma add_dir_keeps: "fs d' = Some i \<Longrightarrow> add_dir E perm d fs d' = Some i"
  by (auto simp: add_dir_def)

lemma fold_add_dir_keeps: "fs d = Some i \<Longrightarrow> fold (add_dir E perm) ds fs d = Some i"
  by (induction ds arbitrary: fs) (simp_all add: add_dir_keeps)

lemma fold_add_dir_new:
  "fs d = None \<Longrightarrow> d \<in> set ds \<Longrightarrow> fold (add_dir E perm) ds fs d = Some (Directory (mkdir_mode E perm))"
proof (induction ds arbitrary: fs)
  case (Cons d' ds)
  show ?case
  proof (cases "d' = d")
    case True
    then have "add_dir E perm d' fs d = Some (Directory (mkdir_mode E perm))"
      using Cons.prems by (simp add: add_dir_def)
    then show ?thesis by (simp add: fold_add_dir_keeps)
  next
    case False
    then show ?thesis using Cons by (simp add: add_dir_other)
  qed
qed simp

lemma dir_chain_self: "path \<noteq> [] \<Longrightarrow> path \<in> set (dir_chain path)"
proof -
  have "acc \<noteq> [] \<or> cs \<noteq> [] \<Longrightarrow> rev acc @ cs \<in> set (dir_chain_acc acc cs)" for acc cs
    by (induction acc cs rule: dir_chain_acc.induct) auto
  from this [of "[]" path] show "path \<noteq> [] \<Longrightarrow> path \<in> set (dir_chain path)"
    by (simp add: dir_chain_def)
qed

lemma ensureDirPresent_present:
  assumes "ensureDirPresent E dir perm s = (True, s')" and "dir \<noteq> []"
  shows "files s' dir \<noteq> None"
  using assms by (auto simp: ensureDirPresent_def MkdirAll_def fold_add_dir_new dir_chain_self split: if_splits)

lemma MkdirAll_frame: "\<exists>f. snd (MkdirAll E d perm s) = s\<lparr>files := f, trace := trace s @ [OsCall ''MkdirAll'' d]\<rparr>"
proof (cases "fst (MkdirAll E d perm s)")
  case True
  then show ?thesis
    by (intro exI [of _ "fold (add_dir E perm) (dir_chain d) (files s)"]) (simp add: MkdirAll_def emit_def split: if_splits)
next
  case False
  then show ?thesis by (intro exI [of _ "files s"]) (auto simp: MkdirAll_def emit_def split: if_splits)
qed

lemma ensureDirPresent_frame: "\<exists>f t. snd (ensureDirPresent E d perm s) = s\<lparr>files := f, trace := trace s @ t\<rparr>"
proof (cases "files s d = None")
  case True
  then show ?thesis using MkdirAll_frame [of E d perm s] by (auto simp: ensureDirPresent_def)
next
  case False
  then have "snd (ensureDirPresent E d perm s) = s" by (auto simp: ensureDirPresent_def)
  then show ?thesis by (intro exI [of _ "files s"] exI [of _ "[]"]) simp
qed

lemma readSingleEnvVarInt_cases:
  "readSingleEnvVarInt E v cur lo hi =
     (if getenv E v = [] \<or> snd (atoi (getenv E v)) \<noteq> None then cur
      else min hi (max lo (fst (atoi (getenv E v)))))"
  by (auto simp: readSingleEnvVarInt_def Let_def split: prod.splits)

end
