(* ===== verification/Log_Aggregation.thy ===== *)
theory Log_Aggregation
  imports Main_Utils
begin

text \<open>
  \<^verbatim>\<open>logAggregation.go\<close>: one goroutine per monitored console tails that console's log and
  copies each line into the aggregation log.  \<open>tailThreads\<close> maps a node to the context whose
  cancel function it holds; \<open>tailers\<close> are the goroutines that run and \<open>cancelled\<close> the
  contexts whose cancel function was called.  \<^verbatim>\<open>github.com/hpcloud/tail\<close> is only seen
  through what \<^verbatim>\<open>TailFile\<close> answers and what arrives on its channel; \<open>tailing\<close> are the
  contexts of the goroutines that have got a channel.  \<open>aggLines\<close> is the text behind the
  current logger.
\<close>

record agg_vars = pod +
  conAggLogger :: "string option" \<comment> \<open>the file behind the logger; \<open>None\<close> is a nil logger\<close>
  aggLines :: "string list"
  conAggLogFile :: string
  tailThreads :: "nat gomap"
  tailers :: "(nat \<times> string) list"
  tailing :: "nat list"
  cancelled :: "nat list"
  nextCtx :: nat

definition conAggLogFileBase :: string where
  "conAggLogFileBase = ''/tmp/consoleAgg/consoleAgg-''"

section \<open>Starting and stopping a tail\<close>

definition aggregateFile :: "string \<Rightarrow> 'p agg_vars_scheme \<Rightarrow> bool \<times> 'p agg_vars_scheme" where
  "aggregateFile xname s =
     (if gm_has xname (tailThreads s) then (False, s)
      else
        (let ctx = nextCtx s
         in (True,
             emit (StartTail ctx xname)
               (s\<lparr>nextCtx := Suc ctx,
                  tailThreads := AList.update xname ctx (tailThreads s),
                  tailers := (ctx, xname) # tailers s\<rparr>))))"

definition cancel :: "nat \<Rightarrow> string \<Rightarrow> 'p agg_vars_scheme \<Rightarrow> 'p agg_vars_scheme" where
  "cancel ctx xname s = emit (CancelTail ctx xname) (s\<lparr>cancelled := ctx # cancelled s\<rparr>)"

definition stopTailing :: "string \<Rightarrow> 'p agg_vars_scheme \<Rightarrow> 'p agg_vars_scheme" where
  "stopTailing xname s =
     (case map_of (tailThreads s) xname of
        Some tt \<Rightarrow> (cancel tt xname s)\<lparr>tailThreads := AList.delete xname (tailThreads s)\<rparr>
      | None \<Rightarrow> s)"

text \<open>One pass of the debugging loop \<^verbatim>\<open>killTails\<close>; the flag says whether it goes on.\<close>

definition killTailsFile :: string where
  "killTailsFile = ''/var/log/console/killTails.txt''"

definition killTails_pass :: "'e env_scheme \<Rightarrow> 'p agg_vars_scheme \<Rightarrow> bool \<times> 'p agg_vars_scheme" where
  "killTails_pass E s =
     (if os_fails E (trace s) ''Stat'' killTailsFile then (False, s)
      else if files s killTailsFile \<noteq> None then
        (True,
         emit (Sleep 10)
           (fold (\<lambda>k s. cancel (the (map_of (tailThreads s) k)) k s)
              (range_keys E ''killTails'' (tailThreads s) s) s))
      else (True, emit (Sleep 30) s))"

section \<open>The aggregation log\<close>

text \<open>\<^verbatim>\<open>log.Logger\<close> ends every entry with a newline, adding one only if it is missing.\<close>

definition log_entry :: "string \<Rightarrow> string" where
  "log_entry str = (if str \<noteq> [] \<and> last str = newline then str else str @ [newline])"

definition agg_print :: "string \<Rightarrow> 'p agg_vars_scheme \<Rightarrow> 'p agg_vars_scheme" where
  "agg_print str s = emit (AggPrint str) (s\<lparr>aggLines := aggLines s @ [log_entry str]\<rparr>)"

definition writeToAggLog :: "string \<Rightarrow> 'p agg_vars_scheme \<Rightarrow> 'p agg_vars_scheme" where
  "writeToAggLog str s = (if conAggLogger s \<noteq> None then agg_print str s else s)"

definition respinAggLog :: "'e env_scheme \<Rightarrow> 'p agg_vars_scheme \<Rightarrow> 'p agg_vars_scheme" where
  "respinAggLog E s =
     (case strings_LastIndex (conAggLogFile s) ''/'' of
        None \<Rightarrow> s
      | Some pos \<Rightarrow>
          (case ensureDirPresent E (take pos (conAggLogFile s)) 0x1F6 s of \<comment> \<open>octal 766\<close>
             (False, s1) \<Rightarrow> s1
           | (True, s1) \<Rightarrow>
               (case open_trunc E (conAggLogFile s1) 0x180 s1 of \<comment> \<open>octal 600\<close>
                  None \<Rightarrow> s1
                | Some s2 \<Rightarrow>
                    agg_print ''Starting aggregation log''
                      (s2\<lparr>conAggLogger := Some (conAggLogFile s2), aggLines := []\<rparr>))))"

section \<open>The tailing goroutine\<close>

text \<open>
  What \<^verbatim>\<open>watchConsoleLogFile\<close> receives: first whether \<^verbatim>\<open>TailFile\<close> succeeded, and then in
  its \<^verbatim>\<open>select\<close> that its context is done, a line, or nothing because the channel was closed,
  which yields a nil line.
\<close>

datatype tail_input = TailFile bool | CtxDone | TailLine string | LinesClosed

definition agg_line :: "string \<Rightarrow> string \<Rightarrow> string" where
  "agg_line xname text = ''console.hostname: '' @ xname @ '' '' @ text"

definition watch_step :: "nat \<times> string \<Rightarrow> tail_input \<Rightarrow> 'p agg_vars_scheme \<Rightarrow> 'p agg_vars_scheme outcome" where
  "watch_step t i s =
     (case i of
        TailFile ok \<Rightarrow>
          Ok (if ok then s\<lparr>tailing := fst t # tailing s\<rparr> else s\<lparr>tailers := removeAll t (tailers s)\<rparr>)
      | CtxDone \<Rightarrow> Ok (s\<lparr>tailers := removeAll t (tailers s)\<rparr>)
      | TailLine text \<Rightarrow> Ok (writeToAggLog (agg_line (snd t) text) s)
      | LinesClosed \<Rightarrow> Panic NilDeref)"

text \<open>
  What a goroutine may receive: it takes the done case only once its context is cancelled;
  until it does so a line may still be copied.
\<close>

definition tail_enabled :: "nat \<times> string \<Rightarrow> tail_input \<Rightarrow> 'p agg_vars_scheme \<Rightarrow> bool" where
  "tail_enabled t i s \<longleftrightarrow>
     t \<in> set (tailers s) \<and>
     (case i of
        TailFile _ \<Rightarrow> fst t \<notin> set (tailing s)
      | CtxDone \<Rightarrow> fst t \<in> set (tailing s) \<and> fst t \<in> set (cancelled s)
      | _ \<Rightarrow> fst t \<in> set (tailing s))"

text \<open>The life of one goroutine as a relation.\<close>

inductive watchConsoleLogFile :: "nat \<times> string \<Rightarrow> 'p agg_vars_scheme \<Rightarrow> 'p agg_vars_scheme outcome \<Rightarrow> bool" where
  watch_open: "tail_enabled t (TailFile ok) s \<Longrightarrow> watchConsoleLogFile t s (watch_step t (TailFile ok) s)"
| watch_done: "tail_enabled t CtxDone s \<Longrightarrow> watchConsoleLogFile t s (watch_step t CtxDone s)"
| watch_line: "tail_enabled t (TailLine text) s \<Longrightarrow> watchConsoleLogFile t s (watch_step t (TailLine text) s)"
| watch_closed: "tail_enabled t LinesClosed s \<Longrightarrow> watchConsoleLogFile t s (watch_step t LinesClosed s)"

section \<open>The bookkeeping invariant\<close>

text \<open>
  Every goroutine that has not been cancelled is the one its node's entry can cancel, every
  entry belongs to a running goroutine's context or to one that ended, contexts are never
  reused, and each context has one goroutine.
\<close>

definition tails_ok :: "'p agg_vars_scheme \<Rightarrow> bool" where
  "tails_ok s \<longleftrightarrow>
     gm_distinct (tailThreads s) \<and>
     distinct (map fst (tailers s)) \<and>
     (\<forall>(c, x) \<in> set (tailers s). c < nextCtx s) \<and>
     (\<forall>(x, c) \<in> set (tailThreads s). c < nextCtx s) \<and>
     (\<forall>(c, x) \<in> set (tailers s). c \<in> set (cancelled s) \<or> map_of (tailThreads s) x = Some c)"

section \<open>Lemmas\<close>

lemma watchConsoleLogFile_iff:
  "watchConsoleLogFile t s r \<longleftrightarrow> (\<exists>i. tail_enabled t i s \<and> r = watch_step t i s)"
proof
  assume "\<exists>i. tail_enabled t i s \<and> r = watch_step t i s"
  then obtain i where "tail_enabled t i s" "r = watch_step t i s" by blast
  then show "watchConsoleLogFile t s r" by (cases i) (auto intro: watchConsoleLogFile.intros)
qed (auto elim: watchConsoleLogFile.cases)

lemma stopTailing_frame [go_frame]:
  "files (stopTailing k s) = files s"
  "debugOnly (stopTailing k s) = debugOnly s"
  "podName (stopTailing k s) = podName s"
  "podID (stopTailing k s) = podID s"
  "podLocData (stopTailing k s) = podLocData s"
  "inShutdown (stopTailing k s) = inShutdown s"
  "conAggLogger (stopTailing k s) = conAggLogger s"
  "aggLines (stopTailing k s) = aggLines s"
  "conAggLogFile (stopTailing k s) = conAggLogFile s"
  "tailers (stopTailing k s) = tailers s"
  "nextCtx (stopTailing k s) = nextCtx s"
  "agg_vars.more (stopTailing k s) = agg_vars.more s"
  by (simp_all add: stopTailing_def cancel_def emit_def split: option.split)

lemma stopTailing_keys [go_keys]:
  "gm_keys (tailThreads (stopTailing k s)) = gm_keys (tailThreads s) - {k}"
proof (cases "map_of (tailThreads s) k")
  case None
  moreover from None have "k \<notin> gm_keys (tailThreads s)" by (simp add: map_of_eq_None_iff)
  ultimately show ?thesis by (simp add: stopTailing_def)
next
  case (Some c)
  then show ?thesis by (simp add: stopTailing_def cancel_def emit_def gm_keys_delete)
qed

lemma aggregateFile_keys [go_keys]:
  "gm_keys (tailThreads (snd (aggregateFile k s))) = insert k (gm_keys (tailThreads s))"
  by (auto simp: aggregateFile_def Let_def emit_def gm_keys_update)

lemma tails_ok_cong:
  assumes "tailThreads s' = tailThreads s" and "tailers s' = tailers s"
    and "cancelled s' = cancelled s" and "nextCtx s' = nextCtx s"
  shows "tails_ok s' = tails_ok s"
  by (simp only: tails_ok_def assms)

lemma tails_ok_emit [simp]: "tails_ok (emit e s) = tails_ok s"
  by (rule tails_ok_cong) (simp_all add: emit_def)

lemma tails_ok_trace [simp]: "tails_ok (s\<lparr>trace := t\<rparr>) = tails_ok s"
  by (rule tails_ok_cong) simp_all

lemma tails_okD:
  assumes "tails_ok s"
  shows "gm_distinct (tailThreads s)" and "distinct (map fst (tailers s))"
    and "\<And>c x. (c, x) \<in> set (tailers s) \<Longrightarrow> c < nextCtx s"
    and "\<And>c x. (x, c) \<in> set (tailThreads s) \<Longrightarrow> c < nextCtx s"
    and "\<And>c x. (c, x) \<in> set (tailers s) \<Longrightarrow> c \<in> set (cancelled s) \<or> map_of (tailThreads s) x = Some c"
  using assms unfolding tails_ok_def by blast+

lemma tails_okI:
  assumes "gm_distinct (tailThreads s)" and "distinct (map fst (tailers s))"
    and "\<And>c x. (c, x) \<in> set (tailers s) \<Longrightarrow> c < nextCtx s"
    and "\<And>c x. (x, c) \<in> set (tailThreads s) \<Longrightarrow> c < nextCtx s"
    and "\<And>c x. (c, x) \<in> set (tailers s) \<Longrightarrow> c \<in> set (cancelled s) \<or> map_of (tailThreads s) x = Some c"
  shows "tails_ok s"
  using assms unfolding tails_ok_def by blast

lemma tails_ok_aggregateFile [go_wf]: "tails_ok s \<Longrightarrow> tails_ok (snd (aggregateFile x s))"
proof (cases "gm_has x (tailThreads s)")
  case False
  assume ok: "tails_ok s"
  let ?s = "s\<lparr>nextCtx := Suc (nextCtx s), tailThreads := AList.update x (nextCtx s) (tailThreads s),
    tailers := (nextCtx s, x) # tailers s\<rparr>"
  have new: "map_of (tailThreads s) x = None" using False by (simp add: map_of_eq_None_iff)
  have "tails_ok ?s"
  proof (rule tails_okI)
    show "gm_distinct (tailThreads ?s)" using tails_okD(1) [OF ok] by (simp add: distinct_update)
    show "distinct (map fst (tailers ?s))" using tails_okD(2,3) [OF ok] by force
    show "c < nextCtx ?s" if "(c, y) \<in> set (tailers ?s)" for c y
      using that tails_okD(3) [OF ok] by (auto simp: less_SucI)
    show "c < nextCtx ?s" if "(y, c) \<in> set (tailThreads ?s)" for c y
      using that tails_okD(4) [OF ok] tails_okD(1) [OF ok] by (auto simp: set_update_key less_SucI)
    show "c \<in> set (cancelled ?s) \<or> map_of (tailThreads ?s) y = Some c" if "(c, y) \<in> set (tailers ?s)" for c y
      using that tails_okD(5) [OF ok, of c y] new by (auto simp: update_conv')
  qed
  then show ?thesis using False by (simp add: aggregateFile_def Let_def)
qed (simp add: aggregateFile_def)

lemma tails_ok_stopTailing [go_wf]: "tails_ok s \<Longrightarrow> tails_ok (stopTailing x s)"
proof (cases "map_of (tailThreads s) x")
  case (Some d)
  assume ok: "tails_ok s"
  let ?s = "s\<lparr>cancelled := d # cancelled s, tailThreads := AList.delete x (tailThreads s)\<rparr>"
  have "tails_ok ?s"
  proof (rule tails_okI)
    show "gm_distinct (tailThreads ?s)" using tails_okD(1) [OF ok] by (simp add: distinct_delete)
    show "distinct (map fst (tailers ?s))" using tails_okD(2) [OF ok] by simp
    show "c < nextCtx ?s" if "(c, y) \<in> set (tailers ?s)" for c y
      using that tails_okD(3) [OF ok] by simp
    show "c < nextCtx ?s" if "(y, c) \<in> set (tailThreads ?s)" for c y
      using that by (auto simp: set_delete_key intro: tails_okD(4) [OF ok])
    show "c \<in> set (cancelled ?s) \<or> map_of (tailThreads ?s) y = Some c" if "(c, y) \<in> set (tailers ?s)" for c y
      using that tails_okD(5) [OF ok, of c y] Some by (auto simp: delete_conv')
  qed
  moreover have "stopTailing x s = emit (CancelTail d x) ?s"
    using Some by (simp add: stopTailing_def cancel_def emit_def)
  ultimately show ?thesis by simp
qed (simp add: stopTailing_def)

lemma tails_ok_cancel [go_wf]: "tails_ok s \<Longrightarrow> tails_ok (cancel c x s)"
  unfolding cancel_def tails_ok_emit by (rule tails_okI) (auto dest: tails_okD)

lemma tails_ok_end: "tails_ok s \<Longrightarrow> tails_ok (s\<lparr>tailers := removeAll t (tailers s)\<rparr>)"
proof -
  assume ok: "tails_ok s"
  have "distinct (map fst (removeAll t (tailers s)))"
    using tails_okD(2) [OF ok] by (simp add: distinct_map_filter removeAll_filter_not_eq)
  then show ?thesis using tails_okD [OF ok] by (intro tails_okI) auto
qed

lemma tails_ok_watch_step [go_wf]:
  assumes "tails_ok s" and "watch_step t i s = Ok s'"
  shows "tails_ok s'"
proof (cases i)
  case (TailFile ok)
  have "tails_ok (s\<lparr>tailing := fst t # tailing s\<rparr>) = tails_ok s" by (rule tails_ok_cong) simp_all
  then show ?thesis using TailFile assms by (auto simp: watch_step_def tails_ok_end split: if_splits)
next
  case CtxDone
  then show ?thesis using assms by (auto simp: watch_step_def tails_ok_end)
next
  case (TailLine line)
  then have "s' = writeToAggLog (agg_line (snd t) line) s"
    using assms(2) by (simp add: watch_step_def)
  then have "tails_ok s' = tails_ok s"
    by (intro tails_ok_cong) (simp_all add: writeToAggLog_def agg_print_def emit_def)
  with assms(1) show ?thesis by simp
next
  case LinesClosed
  then show ?thesis using assms(2) by (simp add: watch_step_def)
qed

text \<open>After \<^verbatim>\<open>stopTailing\<close> no goroutine for the node is left that nobody cancelled.\<close>

lemma stopTailing_cancels:
  assumes "tails_ok s" and "(c, x) \<in> set (tailers s)"
  shows "c \<in> set (cancelled (stopTailing x s))"
  using tails_okD(5) [OF assms] by (auto simp: stopTailing_def cancel_def emit_def split: option.split)

end
