(* ===== verification/Http_Utils.thy ===== *)
theory Http_Utils
  imports Pod_State
begin

text \<open>
  \<^verbatim>\<open>httpUtils.go\<close>: the client calls \<^verbatim>\<open>getURL\<close> and \<^verbatim>\<open>postURL\<close>, which every
  exchange with console-data, console-operator and Vault goes through, and the JSON
  responses of the service's own handlers.  A Go result \<^verbatim>\<open>([]byte, int, error)\<close> is a
  triple whose first and last parts are \<open>None\<close> for nil.
\<close>

section \<open>Client\<close>

type_synonym http_result = "body option \<times> int \<times> go_error option"

text \<open>What both client functions make of the way the call ended.\<close>

definition http_result :: "http_outcome \<Rightarrow> http_result" where
  "http_result r =
     (case r of
        NewRequestError \<Rightarrow> (None, -1, Some ErrNewRequest)
      | DoError \<Rightarrow> (None, -1, Some ErrDo)
      | ReadError sc \<Rightarrow> (None, sc, Some ErrRead)
      | Response sc b \<Rightarrow> (Some b, sc, None))"

text \<open>A request that could not be built is not sent.\<close>

definition http_do :: "'e env_scheme \<Rightarrow> http_request \<Rightarrow> 'p pod_scheme \<Rightarrow> http_result \<times> 'p pod_scheme" where
  "http_do E req s =
     (let r = net E (trace s) req
      in (http_result r, if r = NewRequestError then s else emit (HttpCall req) s))"

text \<open>What a call adds to the trace.\<close>

definition http_events :: "'e env_scheme \<Rightarrow> http_request \<Rightarrow> event list \<Rightarrow> event list" where
  "http_events E req h = (if net E h req = NewRequestError then [] else [HttpCall req])"

definition postURL ::
  "'e env_scheme \<Rightarrow> string \<Rightarrow> body \<Rightarrow> (string \<times> string) list \<Rightarrow> 'p pod_scheme \<Rightarrow> http_result \<times> 'p pod_scheme" where
  "postURL E URL requestBody requestHeaders s =
     http_do E
       (Request ''POST'' URL ((''Content-Type'', ''application/json'') # requestHeaders) (Some requestBody)) s"

definition getURL ::
  "'e env_scheme \<Rightarrow> string \<Rightarrow> (string \<times> string) list \<Rightarrow> 'p pod_scheme \<Rightarrow> http_result \<times> 'p pod_scheme" where
  "getURL E URL requestHeaders s = http_do E (Request ''GET'' URL requestHeaders None) s"

section \<open>Server responses\<close>

text \<open>
  An \<^verbatim>\<open>http.ResponseWriter\<close>: the headers set so far, the status line and headers once
  they are sent, and the body.  \<^verbatim>\<open>WriteHeader\<close> sends the headers as they are; later
  changes do not reach the client, and a second call has no effect.
\<close>

record response_writer =
  rw_header :: "string gomap"
  rw_sent :: "(int \<times> string gomap) option"
  rw_body :: "json list"

definition new_writer :: response_writer where
  "new_writer = \<lparr>rw_header = [], rw_sent = None, rw_body = []\<rparr>"

definition Header_Set :: "string \<Rightarrow> string \<Rightarrow> response_writer \<Rightarrow> response_writer" where
  "Header_Set k v w = w\<lparr>rw_header := AList.update k v (rw_header w)\<rparr>"

definition WriteHeader :: "int \<Rightarrow> response_writer \<Rightarrow> response_writer" where
  "WriteHeader sc w = (if rw_sent w = None then w\<lparr>rw_sent := Some (sc, rw_header w)\<rparr> else w)"

definition Encode :: "json \<Rightarrow> response_writer \<Rightarrow> response_writer" where
  "Encode j w = (let w' = WriteHeader 200 w in w'\<lparr>rw_body := rw_body w' @ [j]\<rparr>)"

record ErrResponse =
  err_E :: int
  ErrMsg :: string

definition json_ErrResponse :: "ErrResponse \<Rightarrow> json" where
  "json_ErrResponse r = JObj [(''e'', JNum (itoa (err_E r))), (''err_msg'', JStr (ErrMsg r))]"

definition SendResponseJSON :: "response_writer \<Rightarrow> int \<Rightarrow> json \<Rightarrow> response_writer" where
  "SendResponseJSON w sc data =
     Encode data (WriteHeader sc (Header_Set ''Content-Type'' ''application/json'' w))"

definition sendJSONError :: "response_writer \<Rightarrow> int \<Rightarrow> string \<Rightarrow> response_writer" where
  "sendJSONError w ecode message =
     (let httpCode = ecode;
          ecode' = (if 200 \<le> ecode \<and> ecode \<le> 299 then 0 else ecode)
      in SendResponseJSON w httpCode (json_ErrResponse \<lparr>err_E = ecode', ErrMsg = message\<rparr>))"

section \<open>Lemmas\<close>

lemma http_do_eq:
  "http_do E req s =
     (http_result (net E (trace s) req), s\<lparr>trace := trace s @ http_events E req (trace s)\<rparr>)"
  by (simp add: http_do_def Let_def emit_def http_events_def)

lemmas client_eqs = postURL_def getURL_def http_do_eq

lemma http_do_simps [simp]:
  "files (snd (http_do E req s)) = files s"
  "debugOnly (snd (http_do E req s)) = debugOnly s"
  "podName (snd (http_do E req s)) = podName s"
  "podID (snd (http_do E req s)) = podID s"
  "podLocData (snd (http_do E req s)) = podLocData s"
  "inShutdown (snd (http_do E req s)) = inShutdown s"
  "pod.more (snd (http_do E req s)) = pod.more s"
  by (simp_all add: http_do_def Let_def)

text \<open>A body comes back exactly when there is no error; \<open>-1\<close> is never a status.\<close>

lemma http_result_body: "fst (http_result r) = None \<longleftrightarrow> snd (snd (http_result r)) \<noteq> None"
  by (cases r) (simp_all add: http_result_def)

lemma sendJSONError_sent:
  "rw_sent w = None \<Longrightarrow>
     rw_sent (sendJSONError w sc msg) = Some (sc, AList.update ''Content-Type'' ''application/json'' (rw_header w))"
  by (simp add: sendJSONError_def SendResponseJSON_def Encode_def WriteHeader_def Header_Set_def)

end
