(* ===== verification/Node_Info.thy ===== *)
theory Node_Info
  imports Http_Utils
begin

text \<open>
  The node record of \<^verbatim>\<open>nodes.go\<close>, its wire forms from \<^verbatim>\<open>data.go\<close>, and the way both
  are encoded and decoded.  \<^verbatim>\<open>nodeConsoleInfo\<close> carries no JSON tags, so it is written
  with its Go field names and read back by case-insensitive matching; the heartbeat's
  \<^verbatim>\<open>NodeConsoleInfo\<close> has lower-case tags and one more field.
\<close>

record nodeConsoleInfo =
  NodeName :: string
  BmcName :: string
  BmcFqdn :: string
  Class :: string
  NID :: int
  Role :: string

record NodeConsoleInfo = nodeConsoleInfo +
  NodeConsoleName :: string

record nodeConsoleInfoHeartBeat =
  CurrNodes :: "NodeConsoleInfo list"
  PodLocation :: string

record NodePodInfo =
  NumActivePods :: int

definition isMountain :: "nodeConsoleInfo \<Rightarrow> bool" where
  "isMountain node \<longleftrightarrow> Class node = ''Mountain'' \<or> Class node = ''Hill''"

definition isRiver :: "nodeConsoleInfo \<Rightarrow> bool" where
  "isRiver node \<longleftrightarrow> Class node = ''River''"

definition isParadise :: "nodeConsoleInfo \<Rightarrow> bool" where
  "isParadise node \<longleftrightarrow> Class node = ''Paradise''"

definition node_String :: "nodeConsoleInfo \<Rightarrow> string" where
  "node_String node =
     ''NodeName:'' @ NodeName node @ '', BmcName:'' @ BmcName node @ '', BmcFqdn:'' @ BmcFqdn node @
     '', Class:'' @ Class node @ '', NID:'' @ itoa (NID node) @ '', Role:'' @ Role node"

section \<open>Wire forms\<close>

definition zero_node :: nodeConsoleInfo where
  "zero_node = \<lparr>NodeName = [], BmcName = [], BmcFqdn = [], Class = [], NID = 0, Role = []\<rparr>"

definition nodeConsoleInfo_fields :: "(string \<times> nodeConsoleInfo decoder) list" where
  "nodeConsoleInfo_fields =
     [(''NodeName'', dec_string (\<lambda>v r. r\<lparr>NodeName := v\<rparr>)),
      (''BmcName'', dec_string (\<lambda>v r. r\<lparr>BmcName := v\<rparr>)),
      (''BmcFqdn'', dec_string (\<lambda>v r. r\<lparr>BmcFqdn := v\<rparr>)),
      (''Class'', dec_string (\<lambda>v r. r\<lparr>Class := v\<rparr>)),
      (''NID'', dec_int (\<lambda>v r. r\<lparr>NID := v\<rparr>)),
      (''Role'', dec_string (\<lambda>v r. r\<lparr>Role := v\<rparr>))]"

definition dec_node :: "nodeConsoleInfo decoder" where
  "dec_node = dec_struct nodeConsoleInfo_fields"

text \<open>\<^verbatim>\<open>json.Unmarshal(rb, &nodes)\<close> into a nil slice.\<close>

definition unmarshal_nodes :: "body \<Rightarrow> nodeConsoleInfo list \<times> bool" where
  "unmarshal_nodes rb =
     (case rb of NotJson _ \<Rightarrow> ([], True) | Json j \<Rightarrow> dec_slice dec_node zero_node j)"

definition json_node :: "nodeConsoleInfo \<Rightarrow> json" where
  "json_node n =
     JObj [(''NodeName'', JStr (NodeName n)), (''BmcName'', JStr (BmcName n)),
           (''BmcFqdn'', JStr (BmcFqdn n)), (''Class'', JStr (Class n)),
           (''NID'', JNum (itoa (NID n))), (''Role'', JStr (Role n))]"

text \<open>The slices that are marshalled grow by append from nil, and a nil slice is \<^verbatim>\<open>null\<close>.\<close>

definition json_nodes :: "nodeConsoleInfo list \<Rightarrow> json" where
  "json_nodes ns = (if ns = [] then JNull else JArr (map json_node ns))"

definition json_NodeConsoleInfo :: "NodeConsoleInfo \<Rightarrow> json" where
  "json_NodeConsoleInfo n =
     JObj [(''nodename'', JStr (NodeName n)), (''bmcname'', JStr (BmcName n)),
           (''bmcfqdn'', JStr (BmcFqdn n)), (''class'', JStr (Class n)),
           (''nid'', JNum (itoa (NID n))), (''role'', JStr (Role n)),
           (''nodeconsolename'', JStr (NodeConsoleName n))]"

definition json_heartbeat :: "nodeConsoleInfoHeartBeat \<Rightarrow> json" where
  "json_heartbeat h =
     JObj [(''CurrNodes'', JArr (map json_NodeConsoleInfo (CurrNodes h))),
           (''PodLocation'', JStr (PodLocation h))]"

definition unmarshal_NodePodInfo :: "body \<Rightarrow> NodePodInfo \<times> bool" where
  "unmarshal_NodePodInfo rb =
     (case rb of
        NotJson _ \<Rightarrow> (\<lparr>NumActivePods = 0\<rparr>, True)
      | Json j \<Rightarrow>
          dec_struct [(''numactivepods'', dec_int (\<lambda>v r. r\<lparr>NumActivePods := v\<rparr>))] j
            \<lparr>NumActivePods = 0\<rparr>)"

section \<open>Lemmas\<close>

lemmas node_class_defs = isMountain_def isRiver_def isParadise_def

lemma node_class_exclusive:
  "isRiver n \<Longrightarrow> \<not> isMountain n" "isRiver n \<Longrightarrow> \<not> isParadise n" "isMountain n \<Longrightarrow> \<not> isParadise n"
  by (auto simp: node_class_defs)

lemma dec_json_node [simp]: "int64 (NID n) \<Longrightarrow> dec_node (json_node n) zero_node = (n, False)"
  by (simp add: dec_node_def dec_struct_def nodeConsoleInfo_fields_def json_node_def zero_node_def
      json_field_def)

text \<open>Names written by one side in lower case are found by the other.\<close>

lemma json_field_node [simp]:
  "json_field nodeConsoleInfo_fields ''nodename'' = Some (dec_string (\<lambda>v r. r\<lparr>NodeName := v\<rparr>))"
  "json_field nodeConsoleInfo_fields ''bmcname'' = Some (dec_string (\<lambda>v r. r\<lparr>BmcName := v\<rparr>))"
  "json_field nodeConsoleInfo_fields ''bmcfqdn'' = Some (dec_string (\<lambda>v r. r\<lparr>BmcFqdn := v\<rparr>))"
  "json_field nodeConsoleInfo_fields ''class'' = Some (dec_string (\<lambda>v r. r\<lparr>Class := v\<rparr>))"
  "json_field nodeConsoleInfo_fields ''nid'' = Some (dec_int (\<lambda>v r. r\<lparr>NID := v\<rparr>))"
  "json_field nodeConsoleInfo_fields ''role'' = Some (dec_string (\<lambda>v r. r\<lparr>Role := v\<rparr>))"
  "json_field nodeConsoleInfo_fields ''nodeconsolename'' = None"
  by (simp_all add: json_field_def nodeConsoleInfo_fields_def lower_simps)

text \<open>A decoded number is a 64-bit number.\<close>

lemma dec_node_int64: "int64 (NID r) \<Longrightarrow> int64 (NID (fst (dec_node j r)))"
proof -
  assume r: "int64 (NID r)"
  have "int64 (NID (fst (d j r)))" if "d \<in> snd ` set nodeConsoleInfo_fields" "int64 (NID r)" for d j and r :: nodeConsoleInfo
    using that dec_int_fst [of "\<lambda>v r. r\<lparr>NID := v\<rparr>" j r] unfolding nodeConsoleInfo_fields_def
    by (auto simp: dec_string_def split: json.split)
  then have "int64 (NID (fst (dec_members nodeConsoleInfo_fields kvs r)))" for kvs
    by (rule dec_members_keeps [where P = "\<lambda>r. int64 (NID r)"]) (use r in simp_all)
  then show ?thesis using r by (auto simp: dec_node_def dec_struct_def split: json.split)
qed

lemma unmarshal_nodes_int64: "n \<in> set (fst (unmarshal_nodes b)) \<Longrightarrow> int64 (NID n)"
  using dec_node_int64 [of zero_node]
  by (auto simp: unmarshal_nodes_def dec_slice_def zero_node_def int64_def split: body.splits json.splits)

lemma unmarshal_json_nodes:
  assumes "\<forall>n \<in> set ns. int64 (NID n)"
  shows "unmarshal_nodes (Json (json_nodes ns)) = (ns, False)"
proof (cases "ns = []")
  case True
  then show ?thesis by (simp add: unmarshal_nodes_def json_nodes_def dec_slice_def)
next
  case False
  with assms show ?thesis by (simp add: unmarshal_nodes_def json_nodes_def dec_slice_map)
qed

end
