(* ===== verification/Console_Data.thy ===== *)
theory Console_Data
  imports Node_Info
begin

text \<open>
  The calls of \<^verbatim>\<open>data.go\<close> to console-data that do not touch the node maps:
  \<^verbatim>\<open>getNumActiveNodePods\<close>, \<^verbatim>\<open>acquireNewNodes\<close> and \<^verbatim>\<open>releaseNodes\<close>.  Marshalling
  these structs cannot fail, so the branches that log a marshalling error are dead and are
  left out.
\<close>

definition dataAddrBase :: string where
  "dataAddrBase = ''http://cray-console-data/v1''"

definition getNumActiveNodePods :: "'e env_scheme \<Rightarrow> 'p pod_scheme \<Rightarrow> (int \<times> go_error option) \<times> 'p pod_scheme" where
  "getNumActiveNodePods E s =
     (case getURL E (dataAddrBase @ ''/activepods'') [] s of ((rb, _, err), s') \<Rightarrow>
        if err \<noteq> None then ((1, err), s')
        else
          (case rb of
             None \<Rightarrow> ((1, None), s')
           | Some b \<Rightarrow>
               (case unmarshal_NodePodInfo b of (numPodsInfo, bad) \<Rightarrow>
                  if bad then ((1, Some ErrUnmarshal), s')
                  else ((NumActivePods numPodsInfo, None), s'))))"

definition json_ReqData :: "int \<Rightarrow> int \<Rightarrow> PodLocationDataResponse \<Rightarrow> json" where
  "json_ReqData numMtn numRvr loc =
     JObj [(''nummtn'', JNum (itoa numMtn)), (''numrvr'', JNum (itoa numRvr)),
           (''alias'', JStr (Alias loc)), (''xname'', JStr (Xname loc))]"

definition consolepod_url :: "string \<Rightarrow> 'p pod_scheme \<Rightarrow> string" where
  "consolepod_url op s = dataAddrBase @ ''/consolepod/'' @ podID s @ ''/'' @ op"

text \<open>
  The location is a pointer and a nil one panics.  An error from the call is only logged:
  what matters afterwards is whether there is a body, and a body that does not decode
  cleanly still yields what was decoded.
\<close>

definition acquireNewNodes ::
  "'e env_scheme \<Rightarrow> int \<Rightarrow> int \<Rightarrow> PodLocationDataResponse option \<Rightarrow> 'p pod_scheme \<Rightarrow>
     (nodeConsoleInfo list \<times> 'p pod_scheme) outcome" where
  "acquireNewNodes E numMtn numRvr podLocation s =
     (case podLocation of
        None \<Rightarrow> Panic NilDeref
      | Some loc \<Rightarrow>
          (case postURL E (consolepod_url ''acquire'' s) (Json (json_ReqData numMtn numRvr loc)) [] s of
             ((rb, _, err), s') \<Rightarrow>
               Ok (case rb of None \<Rightarrow> [] | Some b \<Rightarrow> fst (unmarshal_nodes b), s')))"

definition releaseNodes :: "'e env_scheme \<Rightarrow> nodeConsoleInfo list \<Rightarrow> 'p pod_scheme \<Rightarrow> 'p pod_scheme" where
  "releaseNodes E nodes s = snd (postURL E (consolepod_url ''release'' s) (Json (json_nodes nodes)) [] s)"

text \<open>The request a release makes.\<close>

definition release_request :: "nodeConsoleInfo list \<Rightarrow> 'p pod_scheme \<Rightarrow> http_request" where
  "release_request nodes s =
     Request ''POST'' (consolepod_url ''release'' s) [(''Content-Type'', ''application/json'')]
       (Some (Json (json_nodes nodes)))"

section \<open>Lemmas\<close>

lemma releaseNodes_eq:
  "releaseNodes E ns s = s\<lparr>trace := trace s @ http_events E (release_request ns s) (trace s)\<rparr>"
  by (simp add: releaseNodes_def client_eqs release_request_def)

lemma getNumActiveNodePods_state:
  "\<exists>t. snd (getNumActiveNodePods E s) = s\<lparr>trace := trace s @ t\<rparr>"
  by (auto simp: getNumActiveNodePods_def client_eqs split: prod.split option.split)

lemma acquireNewNodes_state:
  "acquireNewNodes E m r loc s = Ok (ns, s') \<Longrightarrow> \<exists>t. s' = s\<lparr>trace := trace s @ t\<rparr>"
  by (auto simp: acquireNewNodes_def client_eqs split: option.splits prod.splits)

lemma acquireNewNodes_int64:
  "acquireNewNodes E m r loc s = Ok (ns, s') \<Longrightarrow> n \<in> set ns \<Longrightarrow> int64 (NID n)"
  by (auto simp: acquireNewNodes_def unmarshal_nodes_int64 split: option.splits prod.splits)

end
