(* ===== verification/Node_Pools.thy ===== *)
theory Node_Pools
  imports Log_Aggregation Console_Data
begin

text \<open>
  The globals of \<^verbatim>\<open>nodes.go\<close>, above all the three maps of the nodes this pod monitors,
  and the operations that take nodes out of them: \<^verbatim>\<open>rebalanceNodes\<close> and
  \<^verbatim>\<open>releaseNode\<close>, and \<^verbatim>\<open>releaseAllNodes\<close> of \<^verbatim>\<open>consoleNodeMain.go\<close>.  The locale
  \<open>node_pool\<close> is the contract that dropping one node from one map keeps, whichever of the
  three maps it is; it is interpreted once for each.
\<close>

record node_vars = agg_vars +
  currentMtnNodes :: "nodeConsoleInfo gomap"
  currentRvrNodes :: "nodeConsoleInfo gomap"
  currentPdsNodes :: "nodeConsoleInfo gomap"
  targetRvrNodes :: int
  targetMtnNodes :: int
  maxAcquireRvr :: int
  maxAcquireMtn :: int
  newNodeLookupSec :: int

definition getCurrNodeXnames :: "'e env_scheme \<Rightarrow> 'p node_vars_scheme \<Rightarrow> string list" where
  "getCurrNodeXnames E s =
     range_keys E ''getCurrNodeXnames.mtn'' (currentMtnNodes s) s @
     range_keys E ''getCurrNodeXnames.rvr'' (currentRvrNodes s) s @
     range_keys E ''getCurrNodeXnames.pds'' (currentPdsNodes s) s"

definition pinNumNodes :: "int \<Rightarrow> int \<Rightarrow> int" where
  "pinNumNodes numAsk numMax =
     (if numAsk < 0 then 0 else if numAsk > numMax then numMax else numAsk)"

definition locMax :: "int \<Rightarrow> int \<Rightarrow> int" where
  "locMax a b = (if a > b then a else b)"

section \<open>Giving nodes back\<close>

text \<open>Removing one entry and stopping its tail, for each of the three maps.\<close>

definition drop_rvr :: "string \<Rightarrow> 'p node_vars_scheme \<Rightarrow> 'p node_vars_scheme" where
  "drop_rvr key s = stopTailing key (s\<lparr>currentRvrNodes := AList.delete key (currentRvrNodes s)\<rparr>)"

definition drop_mtn :: "string \<Rightarrow> 'p node_vars_scheme \<Rightarrow> 'p node_vars_scheme" where
  "drop_mtn key s = stopTailing key (s\<lparr>currentMtnNodes := AList.delete key (currentMtnNodes s)\<rparr>)"

definition drop_pds :: "string \<Rightarrow> 'p node_vars_scheme \<Rightarrow> 'p node_vars_scheme" where
  "drop_pds key s = stopTailing key (s\<lparr>currentPdsNodes := AList.delete key (currentPdsNodes s)\<rparr>)"

text \<open>
  The range loop over the River nodes: it looks at the size before each removal.  A key
  that is no longer in the map would not be visited.
\<close>

fun release_rvr ::
  "int \<Rightarrow> string list \<Rightarrow> nodeConsoleInfo list \<Rightarrow> 'p node_vars_scheme \<Rightarrow> nodeConsoleInfo list \<times> 'p node_vars_scheme" where
  "release_rvr endNumRvr [] rn s = (rn, s)"
| "release_rvr endNumRvr (key # ks) rn s =
     (case map_of (currentRvrNodes s) key of
        None \<Rightarrow> release_rvr endNumRvr ks rn s
      | Some ni \<Rightarrow>
          if int (length (currentRvrNodes s)) > endNumRvr
          then release_rvr endNumRvr ks (rn @ [ni]) (drop_rvr key s)
          else (rn, s))"

text \<open>
  The loop over Mountain and Paradise nodes: one node per turn, from the larger pool, from
  Paradise when they are equal.  Which node of the pool is up to the iteration order.
\<close>

function release_mtn ::
  "'e env_scheme \<Rightarrow> int \<Rightarrow> nodeConsoleInfo list \<Rightarrow> 'p node_vars_scheme \<Rightarrow> nodeConsoleInfo list \<times> 'p node_vars_scheme" where
  "release_mtn E endNumMtn rn s =
     (if int (length (currentMtnNodes s)) + int (length (currentPdsNodes s)) > endNumMtn then
        if length (currentMtnNodes s) > length (currentPdsNodes s) then
          (case range_keys E ''rebalanceNodes.mtn'' (currentMtnNodes s) s of
             [] \<Rightarrow> (rn, s)
           | key # _ \<Rightarrow> release_mtn E endNumMtn (rn @ [the (map_of (currentMtnNodes s) key)]) (drop_mtn key s))
        else
          (case range_keys E ''rebalanceNodes.pds'' (currentPdsNodes s) s of
             [] \<Rightarrow> (rn, s)
           | key # _ \<Rightarrow> release_mtn E endNumMtn (rn @ [the (map_of (currentPdsNodes s) key)]) (drop_pds key s))
      else (rn, s))"
  by pat_completeness auto

definition rebalance_rvr ::
  "'e env_scheme \<Rightarrow> int \<Rightarrow> 'p node_vars_scheme \<Rightarrow> nodeConsoleInfo list \<times> 'p node_vars_scheme" where
  "rebalance_rvr E deltaRvr s =
     (if deltaRvr < 0 then
        release_rvr (int (length (currentRvrNodes s)) + deltaRvr)
          (range_keys E ''rebalanceNodes.rvr'' (currentRvrNodes s) s) [] s
      else ([], s))"

definition rebalance_mtn ::
  "'e env_scheme \<Rightarrow> int \<Rightarrow> nodeConsoleInfo list \<Rightarrow> 'p node_vars_scheme \<Rightarrow> nodeConsoleInfo list \<times> 'p node_vars_scheme" where
  "rebalance_mtn E deltaMtn rn s =
     (if deltaMtn < 0 then
        release_mtn E (int (length (currentMtnNodes s)) + int (length (currentPdsNodes s)) + deltaMtn) rn s
      else (rn, s))"

definition rebalanceNodes ::
  "'e env_scheme \<Rightarrow> int \<Rightarrow> int \<Rightarrow> 'p node_vars_scheme \<Rightarrow> bool \<times> 'p node_vars_scheme" where
  "rebalanceNodes E deltaRvr deltaMtn s =
     (case rebalance_rvr E deltaRvr s of (rn1, s1) \<Rightarrow>
        (case rebalance_mtn E deltaMtn rn1 s1 of (rn, s2) \<Rightarrow>
           if rn \<noteq> [] then (True, releaseNodes E rn s2) else (False, s2)))"

definition releaseNode :: "string \<Rightarrow> 'p node_vars_scheme \<Rightarrow> bool \<times> 'p node_vars_scheme" where
  "releaseNode xname s =
     (if gm_has xname (currentRvrNodes s) then (True, drop_rvr xname s)
      else if gm_has xname (currentMtnNodes s) then (True, drop_mtn xname s)
      else if gm_has xname (currentPdsNodes s) then (True, drop_pds xname s)
      else (False, stopTailing xname s))"

definition releaseAllNodes :: "'e env_scheme \<Rightarrow> 'p node_vars_scheme \<Rightarrow> 'p node_vars_scheme" where
  "releaseAllNodes E s =
     (let kr = range_keys E ''releaseAllNodes.rvr'' (currentRvrNodes s) s;
          s1 = fold stopTailing kr s;
          kp = range_keys E ''releaseAllNodes.pds'' (currentPdsNodes s1) s1;
          s2 = fold stopTailing kp s1;
          km = range_keys E ''releaseAllNodes.mtn'' (currentMtnNodes s2) s2;
          s3 = fold stopTailing km s2;
          rn = map (\<lambda>k. the (map_of (currentRvrNodes s) k)) kr @
               map (\<lambda>k. the (map_of (currentPdsNodes s) k)) kp @
               map (\<lambda>k. the (map_of (currentMtnNodes s) k)) km
      in releaseNodes E rn
           (s3\<lparr>currentRvrNodes := [], currentPdsNodes := [], currentMtnNodes := []\<rparr>))"

text \<open>
  The common loop over \<^verbatim>\<open>allNodes\<close>: the River, the Paradise and the Mountain nodes, each
  map in its own order.
\<close>

definition all_keys :: "'e env_scheme \<Rightarrow> string \<Rightarrow> 'p node_vars_scheme \<Rightarrow> string list" where
  "all_keys E site s =
     range_keys E (site @ ''.rvr'') (currentRvrNodes s) s @
     range_keys E (site @ ''.pds'') (currentPdsNodes s) s @
     range_keys E (site @ ''.mtn'') (currentMtnNodes s) s"

section \<open>Invariants\<close>

text \<open>A map of one kind of node: distinct keys, each the name of a node of that kind.\<close>

definition pool_ok :: "(nodeConsoleInfo \<Rightarrow> bool) \<Rightarrow> nodeConsoleInfo gomap \<Rightarrow> bool" where
  "pool_ok P m \<longleftrightarrow> gm_distinct m \<and> (\<forall>p \<in> set m. fst p = NodeName (snd p) \<and> P (snd p))"

definition pools_ok :: "'p node_vars_scheme \<Rightarrow> bool" where
  "pools_ok s \<longleftrightarrow>
     pool_ok isRiver (currentRvrNodes s) \<and> pool_ok isMountain (currentMtnNodes s) \<and>
     pool_ok isParadise (currentPdsNodes s)"

definition held :: "'p node_vars_scheme \<Rightarrow> string set" where
  "held s = gm_keys (currentRvrNodes s) \<union> gm_keys (currentMtnNodes s) \<union> gm_keys (currentPdsNodes s)"

text \<open>No node is in two maps.\<close>

definition pools_disjoint :: "'p node_vars_scheme \<Rightarrow> bool" where
  "pools_disjoint s \<longleftrightarrow>
     gm_keys (currentRvrNodes s) \<inter> gm_keys (currentMtnNodes s) = {} \<and>
     gm_keys (currentRvrNodes s) \<inter> gm_keys (currentPdsNodes s) = {} \<and>
     gm_keys (currentMtnNodes s) \<inter> gm_keys (currentPdsNodes s) = {}"

text \<open>No console is tailed that the pod does not hold.\<close>

definition tails_held :: "'p node_vars_scheme \<Rightarrow> bool" where
  "tails_held s \<longleftrightarrow> gm_keys (tailThreads s) \<subseteq> held s"

definition num_rvr :: "'p node_vars_scheme \<Rightarrow> int" where
  "num_rvr s = int (length (currentRvrNodes s))"

definition num_mtn_pds :: "'p node_vars_scheme \<Rightarrow> int" where
  "num_mtn_pds s = int (length (currentMtnNodes s)) + int (length (currentPdsNodes s))"

definition mtn_pds_nodes :: "'p node_vars_scheme \<Rightarrow> nodeConsoleInfo multiset" where
  "mtn_pds_nodes s = mset (map snd (currentMtnNodes s)) + mset (map snd (currentPdsNodes s))"

definition held_nodes :: "'p node_vars_scheme \<Rightarrow> nodeConsoleInfo multiset" where
  "held_nodes s = mset (map snd (currentRvrNodes s)) + mtn_pds_nodes s"

text \<open>The numbers that change while the pod runs are 64-bit numbers.\<close>

definition ints_ok :: "'p node_vars_scheme \<Rightarrow> bool" where
  "ints_ok s \<longleftrightarrow>
     (\<forall>m \<in> {currentRvrNodes s, currentMtnNodes s, currentPdsNodes s}. \<forall>(k, n) \<in> set m. int64 (NID n)) \<and>
     int64 (targetRvrNodes s) \<and> int64 (targetMtnNodes s)"

section \<open>Frames\<close>

lemma emit_node_vars [simp]:
  "tailThreads (emit e s) = tailThreads s" "tailers (emit e s) = tailers s"
  "cancelled (emit e s) = cancelled s" "nextCtx (emit e s) = nextCtx s"
  "conAggLogger (emit e s) = conAggLogger s" "aggLines (emit e s) = aggLines s"
  "conAggLogFile (emit e s) = conAggLogFile s"
  by (simp_all add: emit_def)

lemma emit_pools [simp]:
  "currentMtnNodes (emit e s) = currentMtnNodes s" "currentRvrNodes (emit e s) = currentRvrNodes s"
  "currentPdsNodes (emit e s) = currentPdsNodes s"
  by (simp_all add: emit_def)

lemma stopTailing_pools [simp]:
  "currentMtnNodes (stopTailing k s) = currentMtnNodes s"
  "currentRvrNodes (stopTailing k s) = currentRvrNodes s"
  "currentPdsNodes (stopTailing k s) = currentPdsNodes s"
  by (simp_all add: stopTailing_def cancel_def emit_def split: option.split)

lemma releaseNodes_pools [simp]:
  "currentMtnNodes (releaseNodes E ns s) = currentMtnNodes s"
  "currentRvrNodes (releaseNodes E ns s) = currentRvrNodes s"
  "currentPdsNodes (releaseNodes E ns s) = currentPdsNodes s"
  "tailThreads (releaseNodes E ns s) = tailThreads s"
  by (simp_all add: releaseNodes_eq)

lemma drop_pools [simp]:
  "currentRvrNodes (drop_rvr k s) = AList.delete k (currentRvrNodes s)"
  "currentMtnNodes (drop_rvr k s) = currentMtnNodes s"
  "currentPdsNodes (drop_rvr k s) = currentPdsNodes s"
  "currentRvrNodes (drop_mtn k s) = currentRvrNodes s"
  "currentMtnNodes (drop_mtn k s) = AList.delete k (currentMtnNodes s)"
  "currentPdsNodes (drop_mtn k s) = currentPdsNodes s"
  "currentRvrNodes (drop_pds k s) = currentRvrNodes s"
  "currentMtnNodes (drop_pds k s) = currentMtnNodes s"
  "currentPdsNodes (drop_pds k s) = AList.delete k (currentPdsNodes s)"
  by (simp_all add: drop_rvr_def drop_mtn_def drop_pds_def)

lemma drop_tails [simp]:
  "gm_keys (tailThreads (drop_rvr k s)) = gm_keys (tailThreads s) - {k}"
  "gm_keys (tailThreads (drop_mtn k s)) = gm_keys (tailThreads s) - {k}"
  "gm_keys (tailThreads (drop_pds k s)) = gm_keys (tailThreads s) - {k}"
  by (simp_all add: drop_rvr_def drop_mtn_def drop_pds_def stopTailing_keys)

lemma length_delete_less: "k \<in> gm_keys m \<Longrightarrow> length (AList.delete k m) < length m"
  by (induction m) (auto simp: less_SucI le_imp_less_Suc length_delete_le)

lemma range_keys_Cons: "range_keys E site m s = k # ks \<Longrightarrow> k \<in> gm_keys m"
  by (metis list.set_intros(1) range_keys_set)

termination release_mtn
  by (relation "measure (\<lambda>(E, e, rn, s). length (currentMtnNodes s) + length (currentPdsNodes s))")
    (auto dest!: range_keys_Cons length_delete_less)

declare release_mtn.simps [simp del]


section \<open>Dropping one node\<close>

lemma pool_ok_distinct: "pool_ok P m \<Longrightarrow> gm_distinct m"
  by (simp add: pool_ok_def)

lemma pool_ok_delete [go_wf]: "pool_ok P m \<Longrightarrow> pool_ok P (AList.delete k m)"
  by (simp add: pool_ok_def distinct_delete set_delete_key)

lemma pool_ok_update [go_wf]:
  "pool_ok P m \<Longrightarrow> P n \<Longrightarrow> pool_ok P (AList.update (NodeName n) n m)"
  by (auto simp: pool_ok_def distinct_update set_update_key)

lemma pool_ok_Nil [simp]: "pool_ok P []"
  by (simp add: pool_ok_def)

lemma delete_mset_snd:
  "gm_distinct m \<Longrightarrow> map_of m k = Some v \<Longrightarrow>
     mset (map snd m) = add_mset v (mset (map snd (AList.delete k m)))"
  by (induction m) (auto split: if_splits)

locale node_pool =
  fixes get :: "'s \<Rightarrow> nodeConsoleInfo gomap"
    and drop :: "string \<Rightarrow> 's \<Rightarrow> 's"
    and others :: "'s \<Rightarrow> string set"
    and tails :: "'s \<Rightarrow> string set"
  assumes get_drop: "get (drop k s) = AList.delete k (get s)"
    and others_drop: "others (drop k s) = others s"
    and tails_drop: "tails (drop k s) = tails s - {k}"
begin

lemma drop_ok: "pool_ok P (get s) \<Longrightarrow> pool_ok P (get (drop k s))"
  by (simp add: get_drop pool_ok_delete)

lemma drop_covers: "tails s \<subseteq> gm_keys (get s) \<union> others s \<Longrightarrow>
    tails (drop k s) \<subseteq> gm_keys (get (drop k s)) \<union> others (drop k s)"
  by (auto simp: get_drop others_drop tails_drop gm_keys_delete)

lemma drop_length: "pool_ok P (get s) \<Longrightarrow> k \<in> gm_keys (get s) \<Longrightarrow> Suc (length (get (drop k s))) = length (get s)"
  by (simp add: get_drop length_delete_key pool_ok_distinct)

lemma drop_conserves:
  assumes "pool_ok P (get s)" and "k \<in> gm_keys (get s)"
  shows "mset (map snd (get s)) = add_mset (the (map_of (get s) k)) (mset (map snd (get (drop k s))))"
proof -
  obtain v where "map_of (get s) k = Some v"
    using assms(2) by (metis domD dom_map_of_conv_image_fst)
  then show ?thesis
    using delete_mset_snd [OF pool_ok_distinct [OF assms(1)]] by (simp only: get_drop option.sel)
qed

lemma fold_drop_get: "get (fold drop ks s) = fold AList.delete ks (get s)"
  by (induction ks arbitrary: s) (simp_all add: get_drop)

lemma fold_drop_keys: "gm_keys (get (fold drop ks s)) = gm_keys (get s) - set ks"
  by (induction ks arbitrary: s) (auto simp: get_drop gm_keys_delete)

lemma fold_drop_ok: "pool_ok P (get s) \<Longrightarrow> pool_ok P (get (fold drop ks s))"
  by (induction ks arbitrary: s) (simp_all add: drop_ok)

lemma fold_drop_covers: "tails s \<subseteq> gm_keys (get s) \<union> others s \<Longrightarrow>
    tails (fold drop ks s) \<subseteq> gm_keys (get (fold drop ks s)) \<union> others (fold drop ks s)"
proof (induction ks arbitrary: s)
  case (Cons k ks)
  have "tails (drop k s) \<subseteq> gm_keys (get (drop k s)) \<union> others (drop k s)"
    using Cons.prems by (rule drop_covers)
  then show ?case using Cons.IH by simp
qed simp

lemma fold_drop_conserves:
  "pool_ok P (get s) \<Longrightarrow> distinct ks \<Longrightarrow> set ks \<subseteq> gm_keys (get s) \<Longrightarrow>
     mset (map snd (get s)) =
       mset (map (\<lambda>k. the (map_of (get s) k)) ks) + mset (map snd (get (fold drop ks s)))"
proof (induction ks arbitrary: s)
  case (Cons k ks)
  have ok: "pool_ok P (get (drop k s))" using Cons.prems(1) by (rule drop_ok)
  have sub: "set ks \<subseteq> gm_keys (get (drop k s))"
    using Cons.prems(2,3) by (auto simp: get_drop gm_keys_delete)
  have eq: "map (\<lambda>j. the (map_of (get (drop k s)) j)) ks = map (\<lambda>j. the (map_of (get s) j)) ks"
    using Cons.prems(2) by (intro map_cong) (auto simp: get_drop delete_conv')
  have "mset (map snd (get (drop k s))) =
      mset (map (\<lambda>j. the (map_of (get s) j)) ks) + mset (map snd (get (fold drop ks (drop k s))))"
    using Cons.IH [OF ok _ sub] Cons.prems(2) by (simp only: eq distinct.simps)
  moreover have "mset (map snd (get s)) =
      add_mset (the (map_of (get s) k)) (mset (map snd (get (drop k s))))"
    using Cons.prems by (intro drop_conserves) auto
  ultimately show ?case by simp
qed simp

lemma fold_drop_length:
  assumes "pool_ok P (get s)" and "distinct ks" and "set ks \<subseteq> gm_keys (get s)"
  shows "length (get s) = length ks + length (get (fold drop ks s))"
  using arg_cong [OF fold_drop_conserves [OF assms], of size] by simp

end

interpretation rvr: node_pool currentRvrNodes drop_rvr
    "\<lambda>s. gm_keys (currentMtnNodes s) \<union> gm_keys (currentPdsNodes s)" "\<lambda>s. gm_keys (tailThreads s)"
  by unfold_locales simp_all

interpretation mtn: node_pool currentMtnNodes drop_mtn
    "\<lambda>s. gm_keys (currentRvrNodes s) \<union> gm_keys (currentPdsNodes s)" "\<lambda>s. gm_keys (tailThreads s)"
  by unfold_locales simp_all

interpretation pds: node_pool currentPdsNodes drop_pds
    "\<lambda>s. gm_keys (currentRvrNodes s) \<union> gm_keys (currentMtnNodes s)" "\<lambda>s. gm_keys (tailThreads s)"
  by unfold_locales simp_all

lemma drop_tails_held [go_wf]:
  "tails_held s \<Longrightarrow> tails_held (drop_rvr k s)"
  "tails_held s \<Longrightarrow> tails_held (drop_mtn k s)"
  "tails_held s \<Longrightarrow> tails_held (drop_pds k s)"
  using rvr.drop_covers [of s k] mtn.drop_covers [of s k] pds.drop_covers [of s k]
  by (simp_all add: tails_held_def held_def Un_ac)

lemma drop_pools_ok [go_wf]:
  "pools_ok s \<Longrightarrow> pools_ok (drop_rvr k s)"
  "pools_ok s \<Longrightarrow> pools_ok (drop_mtn k s)"
  "pools_ok s \<Longrightarrow> pools_ok (drop_pds k s)"
  by (simp_all add: pools_ok_def pool_ok_delete)

lemma tails_ok_pools [simp]:
  "tails_ok (s\<lparr>currentRvrNodes := m\<rparr>) = tails_ok s"
  "tails_ok (s\<lparr>currentMtnNodes := m\<rparr>) = tails_ok s"
  "tails_ok (s\<lparr>currentPdsNodes := m\<rparr>) = tails_ok s"
  "tails_ok (s\<lparr>trace := t\<rparr>) = tails_ok s"
  by (rule tails_ok_cong, simp_all)+

lemma drop_tails_ok [go_wf]:
  "tails_ok s \<Longrightarrow> tails_ok (drop_rvr k s)"
  "tails_ok s \<Longrightarrow> tails_ok (drop_mtn k s)"
  "tails_ok s \<Longrightarrow> tails_ok (drop_pds k s)"
  by (simp_all add: drop_rvr_def drop_mtn_def drop_pds_def tails_ok_stopTailing)

section \<open>Numbers of 64 bits\<close>

lemma ints_ok_cong:
  "currentRvrNodes s' = currentRvrNodes s \<Longrightarrow> currentMtnNodes s' = currentMtnNodes s \<Longrightarrow> currentPdsNodes s' = currentPdsNodes s \<Longrightarrow>
     targetRvrNodes s' = targetRvrNodes s \<Longrightarrow> targetMtnNodes s' = targetMtnNodes s \<Longrightarrow> ints_ok s' = ints_ok s"
  by (simp add: ints_ok_def)

lemma ints_ok_frame [simp]:
  "ints_ok (emit e s) = ints_ok s" "ints_ok (s\<lparr>trace := t\<rparr>) = ints_ok s" "ints_ok (s\<lparr>files := f\<rparr>) = ints_ok s"
  "ints_ok (stopTailing k s) = ints_ok s" "ints_ok (releaseNodes E ns s) = ints_ok s"
  "ints_ok (s\<lparr>cancelled := c\<rparr>) = ints_ok s" "ints_ok (s\<lparr>tailers := ts\<rparr>) = ints_ok s"
  by (simp_all add: ints_ok_def emit_def releaseNodes_eq stopTailing_def cancel_def split: option.split)

lemma ints_ok_drops:
  "ints_ok s \<Longrightarrow> ints_ok (drop_rvr k s)" "ints_ok s \<Longrightarrow> ints_ok (drop_mtn k s)" "ints_ok s \<Longrightarrow> ints_ok (drop_pds k s)"
  unfolding drop_rvr_def drop_mtn_def drop_pds_def ints_ok_frame by (auto simp: ints_ok_def dest: set_delete_subset)

lemma ints_ok_held: "ints_ok s \<Longrightarrow> n \<in># held_nodes s \<Longrightarrow> int64 (NID n)"
  by (auto simp: ints_ok_def held_nodes_def mtn_pds_nodes_def)

section \<open>The two loops of rebalanceNodes\<close>

text \<open>The River loop drops a prefix of the visited keys, as many as are above the bound.\<close>

lemma release_rvr_eq:
  assumes "pool_ok P (currentRvrNodes s)" and "distinct ks" and "set ks \<subseteq> gm_keys (currentRvrNodes s)"
  shows "release_rvr e ks rn s =
    (let n = min (length ks) (nat (num_rvr s - e))
     in (rn @ map (\<lambda>k. the (map_of (currentRvrNodes s) k)) (take n ks), fold drop_rvr (take n ks) s))"
  using assms
proof (induction ks arbitrary: rn s)
  case Nil
  then show ?case by simp
next
  case (Cons k ks)
  have k: "k \<in> gm_keys (currentRvrNodes s)" using Cons.prems by simp
  then obtain ni where ni: "map_of (currentRvrNodes s) k = Some ni"
    by (metis domD dom_map_of_conv_image_fst)
  show ?case
  proof (cases "num_rvr s > e")
    case False
    then show ?thesis using ni by (simp add: num_rvr_def Let_def)
  next
    case True
    let ?s = "drop_rvr k s"
    have ok: "pool_ok P (currentRvrNodes ?s)" using Cons.prems(1) by (simp add: pool_ok_delete)
    have sub: "set ks \<subseteq> gm_keys (currentRvrNodes ?s)"
      using Cons.prems(2,3) by (auto simp: gm_keys_delete)
    have len: "num_rvr s = num_rvr ?s + 1"
      using rvr.drop_length [OF Cons.prems(1) k] by (simp add: num_rvr_def)
    define n where "n = min (length ks) (nat (num_rvr ?s - e))"
    have n: "min (length (k # ks)) (nat (num_rvr s - e)) = Suc n"
      using True len by (simp add: n_def)
    have eq: "map (\<lambda>j. the (map_of (currentRvrNodes ?s) j)) (take n ks) =
        map (\<lambda>j. the (map_of (currentRvrNodes s) j)) (take n ks)"
      using Cons.prems(2) by (intro map_cong) (auto simp: delete_conv' dest: in_set_takeD)
    have "release_rvr e (k # ks) rn s = release_rvr e ks (rn @ [ni]) ?s"
      using ni True by (simp add: num_rvr_def)
    also have "\<dots> = (rn @ [ni] @ map (\<lambda>j. the (map_of (currentRvrNodes s) j)) (take n ks),
        fold drop_rvr (take n ks) ?s)"
      using Cons.IH [OF ok _ sub, of "rn @ [ni]"] Cons.prems(2) by (simp only: n_def [symmetric] eq Let_def distinct.simps append_assoc)
    finally show ?thesis unfolding Let_def n by (simp add: ni del: release_rvr.simps)
  qed
qed

text \<open>One turn of the Mountain and Paradise loop.\<close>

lemma release_mtn_cases:
  obtains (stop) "release_mtn E e rn s = (rn, s)" and "num_mtn_pds s \<le> e \<or> num_mtn_pds s = 0"
  | (mtn) k where "num_mtn_pds s > e" and "length (currentPdsNodes s) < length (currentMtnNodes s)"
      and "k \<in> gm_keys (currentMtnNodes s)"
      and "release_mtn E e rn s = release_mtn E e (rn @ [the (map_of (currentMtnNodes s) k)]) (drop_mtn k s)"
  | (pds) k where "num_mtn_pds s > e" and "length (currentMtnNodes s) \<le> length (currentPdsNodes s)"
      and "k \<in> gm_keys (currentPdsNodes s)"
      and "release_mtn E e rn s = release_mtn E e (rn @ [the (map_of (currentPdsNodes s) k)]) (drop_pds k s)"
proof (cases "num_mtn_pds s > e")
  case False
  then have "release_mtn E e rn s = (rn, s)"
    by (subst release_mtn.simps) (simp add: num_mtn_pds_def)
  with False stop show ?thesis by simp
next
  case gt: True
  show ?thesis
  proof (cases "length (currentPdsNodes s) < length (currentMtnNodes s)")
    case True
    then obtain k ks where ks: "range_keys E ''rebalanceNodes.mtn'' (currentMtnNodes s) s = k # ks"
      by (cases "range_keys E ''rebalanceNodes.mtn'' (currentMtnNodes s) s") auto
    have "release_mtn E e rn s = release_mtn E e (rn @ [the (map_of (currentMtnNodes s) k)]) (drop_mtn k s)"
      by (subst release_mtn.simps) (use gt True ks in \<open>simp add: num_mtn_pds_def\<close>)
    then show ?thesis using mtn gt True range_keys_Cons [OF ks] by blast
  next
    case False
    show ?thesis
    proof (cases "range_keys E ''rebalanceNodes.pds'' (currentPdsNodes s) s")
      case Nil
      with False have "currentPdsNodes s = []" and "currentMtnNodes s = []" by simp_all
      moreover have "release_mtn E e rn s = (rn, s)"
        by (subst release_mtn.simps) (use False Nil in simp)
      ultimately show ?thesis using stop by (simp add: num_mtn_pds_def)
    next
      case (Cons k ks)
      have "release_mtn E e rn s = release_mtn E e (rn @ [the (map_of (currentPdsNodes s) k)]) (drop_pds k s)"
        by (subst release_mtn.simps) (use gt False Cons in \<open>simp add: num_mtn_pds_def\<close>)
      then show ?thesis using pds gt False range_keys_Cons [OF Cons] by (meson not_less)
    qed
  qed
qed

text \<open>Whatever dropping a Mountain or a Paradise node keeps, the loop keeps.\<close>

lemma release_mtn_keeps:
  assumes "I s"
    and "\<And>k s. I s \<Longrightarrow> I (drop_mtn k s)" and "\<And>k s. I s \<Longrightarrow> I (drop_pds k s)"
  shows "I (snd (release_mtn E e rn s))"
  using assms(1)
proof (induction E e rn s rule: release_mtn.induct)
  case (1 E e rn s)
  show ?case
    by (subst release_mtn.simps) (use 1 assms(2,3) in \<open>auto split: list.split\<close>)
qed

lemma drop_mtn_counts:
  assumes "pools_ok s" and "k \<in> gm_keys (currentMtnNodes s)"
  shows "num_mtn_pds s = num_mtn_pds (drop_mtn k s) + 1"
    and "mtn_pds_nodes s = add_mset (the (map_of (currentMtnNodes s) k)) (mtn_pds_nodes (drop_mtn k s))"
  using mtn.drop_length [OF _ assms(2)] mtn.drop_conserves [OF _ assms(2)] assms(1)
  by (force simp: num_mtn_pds_def pools_ok_def mtn_pds_nodes_def)+

lemma drop_pds_counts:
  assumes "pools_ok s" and "k \<in> gm_keys (currentPdsNodes s)"
  shows "num_mtn_pds s = num_mtn_pds (drop_pds k s) + 1"
    and "mtn_pds_nodes s = add_mset (the (map_of (currentPdsNodes s) k)) (mtn_pds_nodes (drop_pds k s))"
  using pds.drop_length [OF _ assms(2)] pds.drop_conserves [OF _ assms(2)] assms(1)
  by (force simp: num_mtn_pds_def pools_ok_def mtn_pds_nodes_def)+

text \<open>The loop reaches the bound, or empties both pools, and records what it removed.\<close>

lemma release_mtn_spec:
  assumes "pools_ok s"
  shows "\<exists>rel s'. release_mtn E e rn s = (rn @ rel, s') \<and>
    num_mtn_pds s' = min (num_mtn_pds s) (max 0 e) \<and>
    mtn_pds_nodes s = mset rel + mtn_pds_nodes s'"
  using assms
proof (induction "nat (num_mtn_pds s)" arbitrary: rn s rule: less_induct)
  case less
  have step: ?case
    if num: "num_mtn_pds s > e" "num_mtn_pds s = num_mtn_pds s1 + 1" and ok: "pools_ok s1"
      and nodes: "mtn_pds_nodes s = add_mset ni (mtn_pds_nodes s1)"
      and eq: "release_mtn E e rn s = release_mtn E e (rn @ [ni]) s1" for ni s1
  proof -
    have pos: "0 \<le> num_mtn_pds s1" by (simp add: num_mtn_pds_def)
    with num have "nat (num_mtn_pds s1) < nat (num_mtn_pds s)" by simp
    then obtain rel s' where rel: "release_mtn E e (rn @ [ni]) s1 = (rn @ [ni] @ rel, s')"
      "num_mtn_pds s' = min (num_mtn_pds s1) (max 0 e)" "mtn_pds_nodes s1 = mset rel + mtn_pds_nodes s'"
      using less.hyps [OF _ ok, of "rn @ [ni]"] by auto
    show ?thesis
      by (rule exI [of _ "ni # rel"], rule exI [of _ s'])
        (use num pos nodes eq rel in auto)
  qed
  show ?case
  proof (cases rule: release_mtn_cases [of E e rn s])
    case stop
    then show ?thesis by (intro exI [of _ "[]"] exI [of _ s]) (auto simp: num_mtn_pds_def)
  next
    case (mtn k)
    show ?thesis
      by (rule step [OF mtn(1) drop_mtn_counts(1) _ drop_mtn_counts(2) mtn(4)])
        (use less.prems mtn in \<open>simp_all add: drop_pools_ok\<close>)
  next
    case (pds k)
    show ?thesis
      by (rule step [OF pds(1) drop_pds_counts(1) _ drop_pds_counts(2) pds(4)])
        (use less.prems pds in \<open>simp_all add: drop_pools_ok\<close>)
  qed
qed

section \<open>rebalanceNodes\<close>

text \<open>Parts of the state that a loop over the Mountain pools never touches.\<close>

lemma release_mtn_rvr [simp]: "currentRvrNodes (snd (release_mtn E e rn s)) = currentRvrNodes s"
  by (rule release_mtn_keeps [where I = "\<lambda>t. currentRvrNodes t = currentRvrNodes s"]) simp_all

lemma fold_drop_rvr_others [simp]:
  "currentMtnNodes (fold drop_rvr ks s) = currentMtnNodes s"
  "currentPdsNodes (fold drop_rvr ks s) = currentPdsNodes s"
  by (induction ks arbitrary: s) simp_all

lemma fold_drop_rvr_keeps:
  "(\<And>k s. I s \<Longrightarrow> I (drop_rvr k s)) \<Longrightarrow> I s \<Longrightarrow> I (fold drop_rvr ks s)"
  by (induction ks arbitrary: s) simp_all

lemma release_rvr_keeps:
  "(\<And>k s. I s \<Longrightarrow> I (drop_rvr k s)) \<Longrightarrow> I s \<Longrightarrow> I (snd (release_rvr e ks rn s))"
  by (induction e ks rn s rule: release_rvr.induct) (auto split: option.split)

text \<open>Whatever dropping a node and recording an event keep, rebalancing keeps.\<close>

lemma rebalanceNodes_keeps:
  assumes "I s" and "\<And>k s. I s \<Longrightarrow> I (drop_rvr k s)" and "\<And>k s. I s \<Longrightarrow> I (drop_mtn k s)"
    and "\<And>k s. I s \<Longrightarrow> I (drop_pds k s)" and "\<And>ns s. I s \<Longrightarrow> I (releaseNodes E ns s)"
  shows "I (snd (rebalanceNodes E dr dm s))"
proof -
  obtain rn1 s1 where 1: "rebalance_rvr E dr s = (rn1, s1)" by fastforce
  obtain rn s2 where 2: "rebalance_mtn E dm rn1 s1 = (rn, s2)" by fastforce
  have "I (snd (rebalance_rvr E dr s))"
    using assms(1,2) by (simp add: rebalance_rvr_def release_rvr_keeps)
  then have "I (snd (rebalance_mtn E dm rn1 s1))"
    using assms(3,4) 1 by (simp add: rebalance_mtn_def release_mtn_keeps)
  then show ?thesis using assms(5) 1 2 by (simp add: rebalanceNodes_def)
qed

lemma releaseNodes_ok [simp]:
  "pools_ok (releaseNodes E ns s) = pools_ok s"
  "tails_held (releaseNodes E ns s) = tails_held s"
  "tails_ok (releaseNodes E ns s) = tails_ok s"
  by (simp_all add: pools_ok_def tails_held_def held_def) (simp add: releaseNodes_eq)

lemma rebalanceNodes_ok [go_wf]:
  "pools_ok s \<Longrightarrow> pools_ok (snd (rebalanceNodes E dr dm s))"
  "tails_held s \<Longrightarrow> tails_held (snd (rebalanceNodes E dr dm s))"
  "tails_ok s \<Longrightarrow> tails_ok (snd (rebalanceNodes E dr dm s))"
  by (rule rebalanceNodes_keeps, simp_all add: drop_pools_ok drop_tails_held drop_tails_ok)+

lemma rebalance_rvr_spec:
  assumes "pools_ok s"
  shows "\<exists>rn s1. rebalance_rvr E dr s = (rn, s1) \<and> pools_ok s1 \<and>
    num_rvr s1 = (if dr < 0 then max 0 (num_rvr s + dr) else num_rvr s) \<and>
    mset (map snd (currentRvrNodes s)) = mset rn + mset (map snd (currentRvrNodes s1)) \<and>
    currentMtnNodes s1 = currentMtnNodes s \<and> currentPdsNodes s1 = currentPdsNodes s"
proof (cases "dr < 0")
  case True
  have ok: "pool_ok isRiver (currentRvrNodes s)" using assms by (simp add: pools_ok_def)
  define ks where "ks = take (nat (- dr)) (range_keys E ''rebalanceNodes.rvr'' (currentRvrNodes s) s)"
  define rn where "rn = map (\<lambda>k. the (map_of (currentRvrNodes s) k)) ks"
  define s1 where "s1 = fold drop_rvr ks s"
  have ks: "distinct ks" "set ks \<subseteq> gm_keys (currentRvrNodes s)"
    using pool_ok_distinct [OF ok] by (auto simp: ks_def dest: in_set_takeD)
  have eq: "rebalance_rvr E dr s = (rn, s1)"
    using pool_ok_distinct [OF ok] True
    by (auto simp: rebalance_rvr_def release_rvr_eq [OF ok] num_rvr_def Let_def ks_def rn_def s1_def min_def)
  have conserved: "mset (map snd (currentRvrNodes s)) = mset rn + mset (map snd (currentRvrNodes s1))"
    unfolding rn_def s1_def by (rule rvr.fold_drop_conserves [OF ok ks])
  have "num_rvr s = int (length ks) + num_rvr s1"
    using rvr.fold_drop_length [OF ok ks] by (simp add: num_rvr_def s1_def)
  moreover have "int (length ks) = min (num_rvr s) (- dr)"
    using True by (auto simp: ks_def num_rvr_def min_def)
  ultimately have "num_rvr s1 = max 0 (num_rvr s + dr)"
    by (auto simp: min_def max_def split: if_splits)
  moreover have "pools_ok s1"
    unfolding s1_def by (rule fold_drop_rvr_keeps [where I = pools_ok, OF drop_pools_ok(1) assms])
  ultimately show ?thesis using eq conserved True by (simp add: s1_def)
qed (simp add: rebalance_rvr_def assms)

lemma rebalance_mtn_spec:
  assumes "pools_ok s"
  shows "\<exists>rel s2. rebalance_mtn E dm rn s = (rn @ rel, s2) \<and>
    num_mtn_pds s2 = (if dm < 0 then max 0 (num_mtn_pds s + dm) else num_mtn_pds s) \<and>
    mtn_pds_nodes s = mset rel + mtn_pds_nodes s2 \<and> currentRvrNodes s2 = currentRvrNodes s"
proof (cases "dm < 0")
  case True
  let ?e = "int (length (currentMtnNodes s)) + int (length (currentPdsNodes s)) + dm"
  obtain rel s' where eq: "release_mtn E ?e rn s = (rn @ rel, s')"
    and "num_mtn_pds s' = min (num_mtn_pds s) (max 0 ?e)" and "mtn_pds_nodes s = mset rel + mtn_pds_nodes s'"
    using release_mtn_spec [OF assms] by blast
  moreover from eq have "currentRvrNodes s' = currentRvrNodes s"
    using release_mtn_rvr [of E ?e rn s] by simp
  ultimately show ?thesis using True by (simp add: rebalance_mtn_def num_mtn_pds_def)
qed (simp add: rebalance_mtn_def)

text \<open>
  The outcome of a rebalance: each pool shrinks by what was asked, as far as it has nodes;
  the nodes released are exactly those that left, and they are reported to console-data in
  one request, made only when there are any.
\<close>

lemma rebalanceNodes_spec:
  assumes "pools_ok s"
  shows "\<exists>rn s2. rebalanceNodes E dr dm s = (rn \<noteq> [], if rn \<noteq> [] then releaseNodes E rn s2 else s2) \<and>
    held_nodes s = mset rn + held_nodes s2 \<and>
    num_rvr s2 = (if dr < 0 then max 0 (num_rvr s + dr) else num_rvr s) \<and>
    num_mtn_pds s2 = (if dm < 0 then max 0 (num_mtn_pds s + dm) else num_mtn_pds s)"
proof -
  obtain rn1 s1 where 1: "rebalance_rvr E dr s = (rn1, s1)" "pools_ok s1"
      "num_rvr s1 = (if dr < 0 then max 0 (num_rvr s + dr) else num_rvr s)"
      "mset (map snd (currentRvrNodes s)) = mset rn1 + mset (map snd (currentRvrNodes s1))"
      "currentMtnNodes s1 = currentMtnNodes s" "currentPdsNodes s1 = currentPdsNodes s"
    using rebalance_rvr_spec [OF assms] by blast
  obtain rel s2 where 2: "rebalance_mtn E dm rn1 s1 = (rn1 @ rel, s2)"
      "num_mtn_pds s2 = (if dm < 0 then max 0 (num_mtn_pds s1 + dm) else num_mtn_pds s1)"
      "mtn_pds_nodes s1 = mset rel + mtn_pds_nodes s2" "currentRvrNodes s2 = currentRvrNodes s1"
    using rebalance_mtn_spec [OF 1(2)] by blast
  have "held_nodes s = mset (rn1 @ rel) + held_nodes s2"
    using 1 2 by (simp add: held_nodes_def mtn_pds_nodes_def ac_simps)
  moreover have "num_rvr s2 = num_rvr s1" "num_mtn_pds s1 = num_mtn_pds s"
    using 1 2 by (simp_all add: num_rvr_def num_mtn_pds_def)
  ultimately show ?thesis
    using 1 2 by (intro exI [of _ "rn1 @ rel"] exI [of _ s2]) (simp add: rebalanceNodes_def)
qed

section \<open>releaseNode and releaseAllNodes\<close>

lemma tails_held_stopTailing [go_wf]: "tails_held s \<Longrightarrow> tails_held (stopTailing k s)"
  by (auto simp: tails_held_def held_def stopTailing_keys)

lemma pools_ok_stopTailing [simp]: "pools_ok (stopTailing k s) = pools_ok s"
  by (simp add: pools_ok_def)

lemma releaseNode_ok [go_wf]:
  "pools_ok s \<Longrightarrow> pools_ok (snd (releaseNode x s))"
  "tails_held s \<Longrightarrow> tails_held (snd (releaseNode x s))"
  "tails_ok s \<Longrightarrow> tails_ok (snd (releaseNode x s))"
  by (simp_all add: releaseNode_def drop_pools_ok drop_tails_held drop_tails_ok
      tails_held_stopTailing tails_ok_stopTailing)

lemma releaseNode_held:
  assumes "pools_disjoint s"
  shows "fst (releaseNode x s) \<longleftrightarrow> x \<in> held s" and "held (snd (releaseNode x s)) = held s - {x}"
    and "x \<notin> gm_keys (tailThreads (snd (releaseNode x s)))"
  using assms by (auto simp: releaseNode_def held_def pools_disjoint_def gm_keys_delete stopTailing_keys)

lemma fold_stopTailing_keeps:
  "(\<And>k s. I s \<Longrightarrow> I (stopTailing k s)) \<Longrightarrow> I s \<Longrightarrow> I (fold stopTailing ks s)"
  by (induction ks arbitrary: s) simp_all

lemma fold_stopTailing_pools [simp]:
  "currentMtnNodes (fold stopTailing ks s) = currentMtnNodes s"
  "currentRvrNodes (fold stopTailing ks s) = currentRvrNodes s"
  "currentPdsNodes (fold stopTailing ks s) = currentPdsNodes s"
  by (induction ks arbitrary: s) simp_all

lemma fold_stopTailing_keys:
  "gm_keys (tailThreads (fold stopTailing ks s)) = gm_keys (tailThreads s) - set ks"
  by (induction ks arbitrary: s) (auto simp: stopTailing_keys)

lemma range_values_mset:
  "gm_distinct m \<Longrightarrow> mset (map (\<lambda>k. the (map_of m k)) (range_keys E site m s)) = mset (map snd m)"
proof -
  assume d: "gm_distinct m"
  have "mset (map (\<lambda>k. the (map_of m k)) (range_keys E site m s)) =
      image_mset (\<lambda>k. the (map_of m k)) (mset (map fst m))"
    by (simp only: mset_map range_keys_perm)
  also have "\<dots> = mset (map (\<lambda>p. the (map_of m (fst p))) m)" by (simp add: multiset.map_comp comp_def)
  also have "map (\<lambda>p. the (map_of m (fst p))) m = map snd m"
    using d by (intro map_cong) auto
  finally show ?thesis .
qed

text \<open>Everything is given back in one request, and nothing is held or tailed any more.\<close>

lemma releaseAllNodes_spec:
  assumes "pools_ok s"
  shows "\<exists>rn s3. releaseAllNodes E s = releaseNodes E rn s3 \<and> mset rn = held_nodes s \<and>
    held (releaseAllNodes E s) = {} \<and>
    gm_keys (tailThreads (releaseAllNodes E s)) = gm_keys (tailThreads s) - held s"
proof -
  have d: "gm_distinct (currentRvrNodes s)" "gm_distinct (currentPdsNodes s)" "gm_distinct (currentMtnNodes s)"
    using assms by (simp_all add: pools_ok_def pool_ok_def)
  define kr where "kr = range_keys E ''releaseAllNodes.rvr'' (currentRvrNodes s) s"
  define s1 where "s1 = fold stopTailing kr s"
  define kp where "kp = range_keys E ''releaseAllNodes.pds'' (currentPdsNodes s) s1"
  define s2 where "s2 = fold stopTailing kp s1"
  define km where "km = range_keys E ''releaseAllNodes.mtn'' (currentMtnNodes s) s2"
  define s3 where "s3 = (fold stopTailing km s2)\<lparr>currentRvrNodes := [], currentPdsNodes := [], currentMtnNodes := []\<rparr>"
  define rn where "rn = map (\<lambda>k. the (map_of (currentRvrNodes s) k)) kr @
    map (\<lambda>k. the (map_of (currentPdsNodes s) k)) kp @ map (\<lambda>k. the (map_of (currentMtnNodes s) k)) km"
  have pools: "currentPdsNodes s1 = currentPdsNodes s" "currentMtnNodes s2 = currentMtnNodes s"
    by (simp_all add: s1_def s2_def)
  have eq: "releaseAllNodes E s = releaseNodes E rn s3"
    unfolding releaseAllNodes_def Let_def kr_def [symmetric] s1_def [symmetric] pools
      kp_def [symmetric] s2_def [symmetric] km_def [symmetric] s3_def rn_def ..
  have "mset rn = mset (map snd (currentRvrNodes s)) + (mset (map snd (currentPdsNodes s)) + mset (map snd (currentMtnNodes s)))"
    unfolding rn_def mset_append kr_def kp_def km_def by (simp only: range_values_mset d)
  then have "mset rn = held_nodes s"
    by (simp add: held_nodes_def mtn_pds_nodes_def)
  moreover have "gm_keys (tailThreads s3) = gm_keys (tailThreads s) - held s"
    by (auto simp: s3_def s2_def s1_def fold_stopTailing_keys kr_def kp_def km_def held_def)
  moreover have "held (releaseNodes E rn s3) = {}"
    by (simp add: held_def s3_def)
  ultimately show ?thesis using eq by (intro exI [of _ rn] exI [of _ s3]) simp
qed

lemma releaseAllNodes_ok [go_wf]:
  "pools_ok (releaseAllNodes E s)"
  "tails_ok s \<Longrightarrow> tails_ok (releaseAllNodes E s)"
proof -
  show "pools_ok (releaseAllNodes E s)"
    by (simp add: releaseAllNodes_def Let_def pools_ok_def)
  assume "tails_ok s"
  then show "tails_ok (releaseAllNodes E s)"
    by (simp add: releaseAllNodes_def Let_def fold_stopTailing_keeps [where I = tails_ok] tails_ok_stopTailing)
qed

section \<open>The loop over all nodes\<close>

lemma all_keys_set [simp]: "set (all_keys E site s) = held s"
  by (auto simp: all_keys_def held_def)

lemma all_keys_distinct: "pools_ok s \<Longrightarrow> pools_disjoint s \<Longrightarrow> distinct (all_keys E site s)"
  by (auto simp: all_keys_def pools_ok_def pool_ok_def pools_disjoint_def)

lemma all_keys_length: "int (length (all_keys E site s)) = num_rvr s + num_mtn_pds s"
  by (simp add: all_keys_def num_rvr_def num_mtn_pds_def)

section \<open>The trace\<close>

lemma stopTailing_later [simp]: "later s s' \<Longrightarrow> later s (stopTailing k s')"
  by (auto simp: later_def stopTailing_def cancel_def split: option.split)

lemma drop_later [simp]:
  assumes "later s s'"
  shows "later s (drop_rvr k s')" and "later s (drop_mtn k s')" and "later s (drop_pds k s')"
  using assms by (auto simp: drop_rvr_def drop_mtn_def drop_pds_def intro!: stopTailing_later) (simp_all add: later_def)

lemma releaseNodes_later [simp]: "later s s' \<Longrightarrow> later s (releaseNodes E ns s')"
  by (simp add: releaseNodes_eq)

lemma rebalanceNodes_later [simp]: "later s s' \<Longrightarrow> later s (snd (rebalanceNodes E dr dm s'))"
  by (rule rebalanceNodes_keeps) simp_all

lemma rebalanceNodes_files [simp]: "files (snd (rebalanceNodes E dr dm s)) = files s"
  by (rule rebalanceNodes_keeps [where I = "\<lambda>x. files x = files s"])
    (simp_all add: drop_rvr_def drop_mtn_def drop_pds_def stopTailing_frame releaseNodes_eq)

lemma rebalanceNodes_unchanged:
  assumes "pools_ok s" and "\<not> fst (rebalanceNodes E dr dm s)"
  shows "held_nodes (snd (rebalanceNodes E dr dm s)) = held_nodes s"
  using rebalanceNodes_spec [OF assms(1), of E dr dm] assms(2) by auto

lemma pool_keys: "pool_ok P m \<Longrightarrow> fst ` set m = NodeName ` snd ` set m"
  by (force simp: pool_ok_def image_def)

lemma held_eq: "pools_ok s \<Longrightarrow> held s = NodeName ` set_mset (held_nodes s)"
  using pool_keys [of isRiver "currentRvrNodes s"] pool_keys [of isMountain "currentMtnNodes s"]
    pool_keys [of isParadise "currentPdsNodes s"]
  by (simp add: pools_ok_def held_def held_nodes_def mtn_pds_nodes_def image_Un Un_ac)

lemma rebalanceNodes_held:
  assumes "pools_ok s" and "\<not> fst (rebalanceNodes E dr dm s)"
  shows "held (snd (rebalanceNodes E dr dm s)) = held s"
  unfolding held_eq [OF assms(1)] held_eq [OF rebalanceNodes_ok(1) [OF assms(1)]] rebalanceNodes_unchanged [OF assms] ..

end
