(* ===== verification/Conman_Process.thy ===== *)
theory Conman_Process
  imports Node_Pools
begin

text \<open>
  The child process of \<^verbatim>\<open>conman.go\<close>: the global \<^verbatim>\<open>command\<close>, the two functions that
  signal it and \<^verbatim>\<open>executeConman\<close>.  \<^verbatim>\<open>command\<close> points to an \<^verbatim>\<open>exec.Cmd\<close> whose
  \<^verbatim>\<open>Process\<close> is nil until \<^verbatim>\<open>Start\<close> has run; other goroutines signal through it at any
  time, so \<^verbatim>\<open>executeConman\<close> is given step by step and then as their composition.
\<close>

datatype cmd_state =
  NoCommand \<comment> \<open>nil\<close>
| Created \<comment> \<open>made by \<^verbatim>\<open>exec.Command\<close>, not started: \<^verbatim>\<open>Process\<close> is nil\<close>
| Running
| Exited \<comment> \<open>\<^verbatim>\<open>Wait\<close> has returned, not yet set to nil\<close>

record conman_vars = node_vars +
  command :: cmd_state

section \<open>Signals\<close>

text \<open>Calling a method of a nil process panics; a finished process only returns an error.\<close>

definition signalConmanTERM :: "'p conman_vars_scheme \<Rightarrow> 'p conman_vars_scheme outcome" where
  "signalConmanTERM s =
     (case command s of
        NoCommand \<Rightarrow> Ok s
      | Created \<Rightarrow> Panic NilDeref
      | Running \<Rightarrow> Ok (emit (SignalConman SIGTERM) s)
      | Exited \<Rightarrow> Ok s)"

definition signalConmanHUP :: "'e env_scheme \<Rightarrow> 'p conman_vars_scheme \<Rightarrow> 'p conman_vars_scheme outcome" where
  "signalConmanHUP E s =
     (case command s of
        NoCommand \<Rightarrow>
          Ok (if debugOnly s then
                (let s1 = fold (\<lambda>nn. emit (StartTestLog nn)) (range_keys E ''signalConmanHUP.rvr'' (currentRvrNodes s) s) s
                 in fold (\<lambda>nn. emit (StartTestLog nn)) (range_keys E ''signalConmanHUP.mtn'' (currentMtnNodes s1) s1) s1)
              else s)
      | Created \<Rightarrow> Panic NilDeref
      | Running \<Rightarrow> Ok (emit (SignalConman SIGHUP) s)
      | Exited \<Rightarrow> Ok s)"

section \<open>One life of the process\<close>

definition conman_create :: "'p conman_vars_scheme \<Rightarrow> 'p conman_vars_scheme" where
  "conman_create s = s\<lparr>command := Created\<rparr>"

definition conman_start :: "'e env_scheme \<Rightarrow> 'p conman_vars_scheme \<Rightarrow> 'p conman_vars_scheme outcome" where
  "conman_start E s =
     (if os_fails E (trace s) ''StderrPipe'' ''conmand'' then Panic (LogPanic ''Unable to connect to conmand stderr pipe'')
      else if os_fails E (trace s) ''StdoutPipe'' ''conmand'' then Panic (LogPanic ''Unable to connect to conmand stdout pipe'')
      else if os_fails E (trace s) ''Start'' ''conmand'' then Panic (LogPanic ''Unable to start the command'')
      else Ok (emit StartConman (s\<lparr>command := Running\<rparr>)))"

definition conman_wait :: "'e env_scheme \<Rightarrow> 'p conman_vars_scheme \<Rightarrow> 'p conman_vars_scheme" where
  "conman_wait E s =
     (let s1 = emit ConmanExit (s\<lparr>command := Exited\<rparr>)
      in if os_fails E (trace s1) ''Wait'' ''conmand'' then emit (Sleep 15) s1 else s1)"

definition conman_clear :: "'p conman_vars_scheme \<Rightarrow> 'p conman_vars_scheme" where
  "conman_clear s = s\<lparr>command := NoCommand\<rparr>"

definition executeConman :: "'e env_scheme \<Rightarrow> 'p conman_vars_scheme \<Rightarrow> 'p conman_vars_scheme outcome" where
  "executeConman E s =
     (case conman_start E (conman_create s) of
        Panic p \<Rightarrow> Panic p
      | Ok s1 \<Rightarrow> Ok (conman_clear (conman_wait E s1)))"

text \<open>What \<^verbatim>\<open>logPipeOutput\<close> copies to the log: complete lines only.\<close>

definition logPipeOutput :: "string \<Rightarrow> string list" where
  "logPipeOutput output = read_lines output"

section \<open>Lemmas\<close>

lemma signalConmanTERM_Ok:
  "signalConmanTERM s = Ok s' \<Longrightarrow> \<exists>t. s' = s\<lparr>trace := trace s @ t\<rparr>"
  by (auto simp: signalConmanTERM_def emit_def split: cmd_state.splits intro: exI [of _ "[]"])

lemma signalConmanTERM_panics: "(\<exists>p. signalConmanTERM s = Panic p) \<longleftrightarrow> command s = Created"
  by (simp add: signalConmanTERM_def split: cmd_state.split)

lemma fold_emit: "fold (\<lambda>x. emit (f x)) xs s = s\<lparr>trace := trace s @ map f xs\<rparr>"
  by (induction xs arbitrary: s) (simp_all add: emit_def)

lemma signalConmanHUP_Ok:
  "signalConmanHUP E s = Ok s' \<Longrightarrow> \<exists>t. s' = s\<lparr>trace := trace s @ t\<rparr>"
  by (auto simp: signalConmanHUP_def emit_def Let_def fold_emit split: cmd_state.splits if_splits
      intro: exI [of _ "[]"])

lemma trace_update_ok [simp]:
  "pools_ok (s\<lparr>trace := t\<rparr>) = pools_ok s" "tails_held (s\<lparr>trace := t\<rparr>) = tails_held s"
  "held (s\<lparr>trace := t\<rparr>) = held s" "num_rvr (s\<lparr>trace := t\<rparr>) = num_rvr s"
  "num_mtn_pds (s\<lparr>trace := t\<rparr>) = num_mtn_pds s" "pools_disjoint (s\<lparr>trace := t\<rparr>) = pools_disjoint s"
  by (simp_all add: pools_ok_def tails_held_def held_def num_rvr_def num_mtn_pds_def pools_disjoint_def)

lemma command_frame [simp]:
  "command (emit e s) = command s" "command (stopTailing k s) = command s"
  "command (drop_rvr k s) = command s" "command (drop_mtn k s) = command s" "command (drop_pds k s) = command s"
  "command (releaseNodes E ns s) = command s"
  by (simp_all add: drop_rvr_def drop_mtn_def drop_pds_def stopTailing_def cancel_def emit_def releaseNodes_eq
      split: option.split)

lemma rebalanceNodes_command [simp]: "command (snd (rebalanceNodes E dr dm s)) = command s"
  by (rule rebalanceNodes_keeps [where I = "\<lambda>x. command x = command s"]) simp_all

end
