(* ===== verification/Log_Rotate_Conf.thy ===== *)
theory Log_Rotate_Conf
  imports Conman_Process
begin

text \<open>
  The settings of \<^verbatim>\<open>logRotation.go\<close> and the configuration file it writes for the
  \<^verbatim>\<open>logrotate\<close> program: one entry for the aggregation log and one for the console log of
  every node the pod monitors.
\<close>

record rot_vars = conman_vars +
  logRotEnabled :: bool
  logRotCheckFreqSec :: int
  logRotConFileSize :: string
  logRotConNumRotate :: int
  logRotAggFileSize :: string
  logRotAggNumRotate :: int

definition logRotDir :: string where
  "logRotDir = ''/var/log/conman.old''"

definition logRotConfFile :: string where
  "logRotConfFile = ''/app/logrotate.conman''"

definition logRotStateFile :: string where
  "logRotStateFile = ''/tmp/rot_conman.state''"

definition console_log :: "string \<Rightarrow> string" where
  "console_log xname = ''/var/log/conman/console.'' @ xname"

section \<open>filepath.Dir\<close>

fun split_path :: "string \<Rightarrow> string \<Rightarrow> string list" where
  "split_path acc [] = [rev acc]"
| "split_path acc (c # cs) =
     (if c = CHR ''/'' then rev acc # split_path [] cs else split_path (c # acc) cs)"

text \<open>The kept elements, last first; \<^verbatim>\<open>..\<close> takes one away, or stays in a relative path.\<close>

definition clean_elem :: "bool \<Rightarrow> string \<Rightarrow> string list \<Rightarrow> string list" where
  "clean_elem rooted e st =
     (if e = [] \<or> e = ''.'' then st
      else if e = ''..'' then
        (case st of
           [] \<Rightarrow> if rooted then [] else [e]
         | prev # rest \<Rightarrow> if prev = ''..'' then e # st else rest)
      else e # st)"

fun join_path :: "string list \<Rightarrow> string" where
  "join_path [] = []"
| "join_path [e] = e"
| "join_path (e # es) = e @ ''/'' @ join_path es"

definition filepath_Clean :: "string \<Rightarrow> string" where
  "filepath_Clean path =
     (let rooted = (path \<noteq> [] \<and> hd path = CHR ''/'');
          body = join_path (rev (fold (clean_elem rooted) (split_path [] path) []))
      in if rooted then CHR ''/'' # body else if body = [] then ''.'' else body)"

definition filepath_Dir :: "string \<Rightarrow> string" where
  "filepath_Dir path =
     filepath_Clean (case strings_LastIndex path ''/'' of None \<Rightarrow> [] | Some i \<Rightarrow> take (Suc i) path)"

section \<open>The file\<close>

record conf_entry =
  ce_file :: string
  ce_olddir :: string
  ce_rotate :: int
  ce_size :: string

definition writeConfigEntry :: "conf_entry \<Rightarrow> string" where
  "writeConfigEntry e =
     ce_file e @ '' { '' @ [newline] @
     ''  nocompress'' @ [newline] @
     ''  missingok'' @ [newline] @
     ''  nocopytruncate'' @ [newline] @
     ''  nocreate'' @ [newline] @
     ''  nodelaycompress'' @ [newline] @
     ''  nomail'' @ [newline] @
     ''  notifempty'' @ [newline] @
     ''  olddir '' @ ce_olddir e @ [newline] @
     ''  rotate '' @ itoa (ce_rotate e) @ [newline] @
     ''  size='' @ ce_size e @ [newline] @
     ''}'' @ [newline]"

definition agg_entry :: "'p rot_vars_scheme \<Rightarrow> conf_entry list" where
  "agg_entry s =
     (if conAggLogFile s \<noteq> [] \<and> filepath_Dir (conAggLogFile s) \<noteq> [] then
        [\<lparr>ce_file = conAggLogFile s, ce_olddir = filepath_Dir (conAggLogFile s),
          ce_rotate = logRotAggNumRotate s, ce_size = logRotAggFileSize s\<rparr>]
      else [])"

definition node_entry :: "'p rot_vars_scheme \<Rightarrow> string \<Rightarrow> conf_entry" where
  "node_entry s xname =
     \<lparr>ce_file = console_log xname, ce_olddir = logRotDir, ce_rotate = logRotConNumRotate s,
      ce_size = logRotConFileSize s\<rparr>"

definition conf_entries :: "'e env_scheme \<Rightarrow> 'p rot_vars_scheme \<Rightarrow> conf_entry list" where
  "conf_entries E s =
     agg_entry s @
     map (node_entry s) (all_keys E ''updateLogRotateConf'' s)"

definition conf_text :: "conf_entry list \<Rightarrow> string" where
  "conf_text es =
     ''# Auto-generated conman log rotation configuration file.'' @ [newline] @
     concat (map writeConfigEntry es) @ [newline]"

text \<open>\<^verbatim>\<open>os.Create\<close> and writing: a file keeps its mode, a new one gets 0666 less the umask.\<close>

definition write_file :: "'e env_scheme \<Rightarrow> string \<Rightarrow> 32 word \<Rightarrow> string \<Rightarrow> 'p pod_scheme \<Rightarrow> 'p pod_scheme" where
  "write_file E path perm content s =
     emit (OsCall ''Write'' path)
       (s\<lparr>files := (files s)(path \<mapsto>
          RegFile (case files s path of Some i \<Rightarrow> inode_mode i | None \<Rightarrow> mkdir_mode E perm) content)\<rparr>)"

text \<open>If the file cannot be opened the writes go to a nil file and have no effect.\<close>

definition updateLogRotateConf :: "'e env_scheme \<Rightarrow> 'p rot_vars_scheme \<Rightarrow> 'p rot_vars_scheme" where
  "updateLogRotateConf E s =
     (if os_fails E (trace s) ''Create'' logRotConfFile \<or> is_directory (files s logRotConfFile) then s
      else write_file E logRotConfFile 0x1B6 (conf_text (conf_entries E s)) s)" \<comment> \<open>octal 666\<close>

definition doInitialConfFileUpdate :: "'e env_scheme \<Rightarrow> 'p rot_vars_scheme \<Rightarrow> 'p rot_vars_scheme" where
  "doInitialConfFileUpdate E s = updateLogRotateConf E s"

section \<open>Lemmas\<close>

lemma filepath_Dir_nonempty [simp]: "filepath_Dir p \<noteq> []"
  by (simp add: filepath_Dir_def filepath_Clean_def Let_def)

lemma updateLogRotateConf_frame:
  "\<exists>t f. updateLogRotateConf E s = s\<lparr>files := f, trace := trace s @ t\<rparr>"
proof (cases "os_fails E (trace s) ''Create'' logRotConfFile \<or> is_directory (files s logRotConfFile)")
  case True
  then show ?thesis by (intro exI [of _ "[]"] exI [of _ "files s"]) (simp add: updateLogRotateConf_def)
next
  case False
  then show ?thesis by (auto simp: updateLogRotateConf_def write_file_def emit_def)
qed

lemma files_update_ok [simp]:
  "pools_ok (s\<lparr>files := f\<rparr>) = pools_ok s" "tails_held (s\<lparr>files := f\<rparr>) = tails_held s"
  "held (s\<lparr>files := f\<rparr>) = held s" "num_rvr (s\<lparr>files := f\<rparr>) = num_rvr s"
  "num_mtn_pds (s\<lparr>files := f\<rparr>) = num_mtn_pds s" "pools_disjoint (s\<lparr>files := f\<rparr>) = pools_disjoint s"
  by (simp_all add: pools_ok_def tails_held_def held_def num_rvr_def num_mtn_pds_def pools_disjoint_def)

lemma tails_ok_files [simp]: "tails_ok (s\<lparr>files := f\<rparr>) = tails_ok s"
  by (rule tails_ok_cong) simp_all

text \<open>The entries: the aggregation log first, then every monitored console once.\<close>

lemma conf_entries_files:
  "ce_file ` set (conf_entries E s) =
     (if conAggLogFile s = [] then {} else {conAggLogFile s}) \<union> console_log ` held s"
  by (auto simp: conf_entries_def agg_entry_def node_entry_def image_image)

lemma inj_console_log: "inj console_log"
  by (simp add: inj_def console_log_def)

lemma conf_entries_distinct:
  assumes "pools_ok s" and "pools_disjoint s" and "conAggLogFile s \<notin> console_log ` held s"
  shows "distinct (map ce_file (conf_entries E s))"
proof -
  have "map ce_file (conf_entries E s) =
      map ce_file (agg_entry s) @ map console_log (all_keys E ''updateLogRotateConf'' s)"
    by (simp add: conf_entries_def node_entry_def comp_def)
  moreover have "distinct (map console_log (all_keys E ''updateLogRotateConf'' s))"
    using all_keys_distinct [OF assms(1,2)] by (auto simp: distinct_map intro: inj_on_subset [OF inj_console_log])
  moreover have "set (map ce_file (agg_entry s)) \<inter> console_log ` held s = {}"
    and "distinct (map ce_file (agg_entry s))"
    using assms(3) by (auto simp: agg_entry_def)
  ultimately show ?thesis by simp
qed

end
