(* ===== verification/Operator_Service.thy ===== *)
theory Operator_Service
  imports Http_Utils
begin

text \<open>
  \<^verbatim>\<open>operator.go\<close>, the client of console-operator, and its one caller that blocks on it,
  \<^verbatim>\<open>setPodLocation\<close> of \<^verbatim>\<open>consoleNodeMain.go\<close>.  Go's interface \<^verbatim>\<open>OperatorService\<close>
  is a record of functions; the locale \<open>operator_service\<close> states what its users rely on,
  and \<^verbatim>\<open>OperatorManager\<close> is shown to provide it.  The interval between two attempts is a
  \<^verbatim>\<open>time.Duration\<close>, in nanoseconds; the events of the trace count seconds.
\<close>

record CurrentTargets =
  TargetNumRvrNodes :: int
  TargetNumMtnNodes :: int
  TotalRvrNodes :: int
  TotalMtnNodes :: int
  TargetNumNodePods :: int

record OperatorManager =
  operatorAddrBase :: string
  operatorRetryInterval :: int

record 's OperatorService =
  svc_getPodLocation :: "string \<Rightarrow> 's \<Rightarrow> (PodLocationDataResponse option \<times> go_error option) \<times> 's"
  svc_OperatorRetryInterval :: int
  svc_getCurrentTargets :: "'s \<Rightarrow> (CurrentTargets option \<times> go_error option) \<times> 's"

definition time_Second :: int where
  "time_Second = 1000000000"

definition NewOperatorService :: OperatorManager where
  "NewOperatorService =
     \<lparr>operatorAddrBase = ''http://cray-console-operator/console-operator'',
      operatorRetryInterval = 30 * time_Second\<rparr>"

definition OperatorRetryInterval :: "OperatorManager \<Rightarrow> int" where
  "OperatorRetryInterval om = operatorRetryInterval om"

definition zero_PodLocation :: PodLocationDataResponse where
  "zero_PodLocation = \<lparr>PodName = [], Alias = [], Xname = []\<rparr>"

definition PodLocation_fields :: "(string \<times> PodLocationDataResponse decoder) list" where
  "PodLocation_fields =
     [(''podname'', dec_string (\<lambda>v r. r\<lparr>PodName := v\<rparr>)),
      (''alias'', dec_string (\<lambda>v r. r\<lparr>Alias := v\<rparr>)),
      (''xname'', dec_string (\<lambda>v r. r\<lparr>Xname := v\<rparr>))]"

definition zero_CurrentTargets :: CurrentTargets where
  "zero_CurrentTargets =
     \<lparr>TargetNumRvrNodes = 0, TargetNumMtnNodes = 0, TotalRvrNodes = 0, TotalMtnNodes = 0,
      TargetNumNodePods = 0\<rparr>"

definition CurrentTargets_fields :: "(string \<times> CurrentTargets decoder) list" where
  "CurrentTargets_fields =
     [(''targetnumrvrnodes'', dec_int (\<lambda>v r. r\<lparr>TargetNumRvrNodes := v\<rparr>)),
      (''targetnummtnnodes'', dec_int (\<lambda>v r. r\<lparr>TargetNumMtnNodes := v\<rparr>)),
      (''totalrvrnodes'', dec_int (\<lambda>v r. r\<lparr>TotalRvrNodes := v\<rparr>)),
      (''totalmtnnodes'', dec_int (\<lambda>v r. r\<lparr>TotalMtnNodes := v\<rparr>)),
      (''targetnumnodepods'', dec_int (\<lambda>v r. r\<lparr>TargetNumNodePods := v\<rparr>))]"

text \<open>
  The tail both queries share: the status must be 200, the body is read through a pointer
  to a fresh struct, and a body \<^verbatim>\<open>null\<close> makes that pointer nil without an error.
\<close>

definition operator_reply ::
  "'r decoder \<Rightarrow> 'r \<Rightarrow> http_result \<Rightarrow> 'r option \<times> go_error option" where
  "operator_reply d zero res =
     (case res of (rb, sc, err) \<Rightarrow>
        if err \<noteq> None then (None, err)
        else if sc \<noteq> 200 then (None, Some (ErrStatus sc))
        else
          (case rb of
             None \<Rightarrow> (Some zero, None)
           | Some (NotJson _) \<Rightarrow> (None, Some ErrUnmarshal)
           | Some (Json j) \<Rightarrow>
               (case dec_pointer d j zero of (resp, bad) \<Rightarrow>
                  if bad then (None, Some ErrUnmarshal) else (resp, None))))"

definition getPodLocation ::
  "OperatorManager \<Rightarrow> 'e env_scheme \<Rightarrow> string \<Rightarrow> 'p pod_scheme \<Rightarrow>
     (PodLocationDataResponse option \<times> go_error option) \<times> 'p pod_scheme" where
  "getPodLocation om E pid s =
     (case getURL E (operatorAddrBase om @ ''/location/'' @ pid) [] s of (res, s') \<Rightarrow>
        (operator_reply (dec_struct PodLocation_fields) zero_PodLocation res, s'))"

definition getCurrentTargets ::
  "OperatorManager \<Rightarrow> 'e env_scheme \<Rightarrow> 'p pod_scheme \<Rightarrow>
     (CurrentTargets option \<times> go_error option) \<times> 'p pod_scheme" where
  "getCurrentTargets om E s =
     (case getURL E (operatorAddrBase om @ ''/currentTargets'') [] s of (res, s') \<Rightarrow>
        (operator_reply (dec_struct CurrentTargets_fields) zero_CurrentTargets res, s'))"

definition manager_service :: "OperatorManager \<Rightarrow> 'e env_scheme \<Rightarrow> 'p pod_scheme OperatorService" where
  "manager_service om E =
     \<lparr>svc_getPodLocation = getPodLocation om E,
      svc_OperatorRetryInterval = OperatorRetryInterval om,
      svc_getCurrentTargets = getCurrentTargets om E\<rparr>"

section \<open>Waiting for the pod's location\<close>

text \<open>The loop ends only with an answer; \<open>None\<close> is the run that never gets one.\<close>

partial_function (option) setPodLocation ::
  "'p pod_scheme OperatorService \<Rightarrow> 'p pod_scheme \<Rightarrow> 'p pod_scheme option" where
  "setPodLocation svc s =
     (case svc_getPodLocation svc (podName s) s of ((resp, err), s') \<Rightarrow>
        if err = None then Some (s'\<lparr>podLocData := resp\<rparr>)
        else setPodLocation svc (emit (Sleep (svc_OperatorRetryInterval svc div time_Second)) s'))"

declare setPodLocation.simps [code]

text \<open>The state in which attempt number \<open>n\<close> is made.\<close>

fun location_attempt :: "'p pod_scheme OperatorService \<Rightarrow> nat \<Rightarrow> 'p pod_scheme \<Rightarrow> 'p pod_scheme" where
  "location_attempt svc 0 s = s"
| "location_attempt svc (Suc n) s =
     location_attempt svc n
       (emit (Sleep (svc_OperatorRetryInterval svc div time_Second)) (snd (svc_getPodLocation svc (podName s) s)))"

definition location_answer ::
  "'p pod_scheme OperatorService \<Rightarrow> 'p pod_scheme \<Rightarrow> PodLocationDataResponse option \<times> go_error option" where
  "location_answer svc s = fst (svc_getPodLocation svc (podName s) s)"

section \<open>What users of the interface rely on\<close>

text \<open>A query changes nothing of the program's own state: it is only recorded in the trace.\<close>

locale operator_service =
  fixes svc :: "'p pod_scheme OperatorService"
  assumes location_frame:
      "\<exists>t. snd (svc_getPodLocation svc pid s) = s\<lparr>trace := trace s @ t\<rparr>"
    and targets_frame:
      "\<exists>t. snd (svc_getCurrentTargets svc s) = s\<lparr>trace := trace s @ t\<rparr>"
    and error_no_value:
      "fst (svc_getPodLocation svc pid s) = (r, Some e) \<Longrightarrow> r = None"
begin

lemma attempt_frame: "\<exists>t. location_attempt svc n s = s\<lparr>trace := trace s @ t\<rparr>"
proof (induction n arbitrary: s)
  case 0
  show ?case by (intro exI [of _ "[]"]) simp
next
  case (Suc n)
  obtain t where t: "snd (svc_getPodLocation svc (podName s) s) = s\<lparr>trace := trace s @ t\<rparr>"
    using location_frame by blast
  obtain u where "location_attempt svc n (emit (Sleep (svc_OperatorRetryInterval svc div time_Second)) (s\<lparr>trace := trace s @ t\<rparr>)) =
      (emit (Sleep (svc_OperatorRetryInterval svc div time_Second)) (s\<lparr>trace := trace s @ t\<rparr>))
        \<lparr>trace := trace (emit (Sleep (svc_OperatorRetryInterval svc div time_Second)) (s\<lparr>trace := trace s @ t\<rparr>)) @ u\<rparr>"
    using Suc.IH by blast
  then show ?case using t
    by (intro exI [of _ "t @ Sleep (svc_OperatorRetryInterval svc div time_Second) # u"]) (simp add: emit_def)
qed

lemma setPodLocation_returns:
  assumes "snd (location_answer svc (location_attempt svc n s)) = None"
    and "\<forall>m < n. snd (location_answer svc (location_attempt svc m s)) \<noteq> None"
  shows "\<exists>t. setPodLocation svc s =
    Some (s\<lparr>trace := trace s @ t, podLocData := fst (location_answer svc (location_attempt svc n s))\<rparr>)"
  using assms
proof (induction n arbitrary: s)
  case 0
  obtain t where "snd (svc_getPodLocation svc (podName s) s) = s\<lparr>trace := trace s @ t\<rparr>"
    using location_frame by blast
  with 0 show ?case
    by (subst setPodLocation.simps)
      (auto simp: location_answer_def split: prod.splits)
next
  case (Suc n)
  let ?s = "emit (Sleep (svc_OperatorRetryInterval svc div time_Second)) (snd (svc_getPodLocation svc (podName s) s))"
  obtain t where t: "?s = s\<lparr>trace := trace s @ t\<rparr>"
    using location_frame [of "podName s" s] by (fastforce simp: emit_def)
  have "snd (location_answer svc s) \<noteq> None" using Suc.prems(2) by force
  then have "setPodLocation svc s = setPodLocation svc ?s"
    by (subst setPodLocation.simps) (auto simp: location_answer_def split: prod.splits)
  moreover have "\<forall>m < n. snd (location_answer svc (location_attempt svc m ?s)) \<noteq> None"
    using Suc.prems(2) by auto
  moreover have "snd (location_answer svc (location_attempt svc n ?s)) = None"
    using Suc.prems(1) by simp
  ultimately obtain u where "setPodLocation svc s =
      Some (?s\<lparr>trace := trace ?s @ u, podLocData := fst (location_answer svc (location_attempt svc n ?s))\<rparr>)"
    using Suc.IH [of ?s] by auto
  then show ?case by (simp add: t) (intro exI [of _ "t @ u"], simp)
qed

text \<open>If the wait ends, it has changed the location and nothing else.\<close>

lemma setPodLocation_frame:
  assumes "setPodLocation svc s = Some s'"
  shows "\<exists>t p. s' = s\<lparr>trace := trace s @ t, podLocData := p\<rparr>"
proof -
  have "sv = svc \<longrightarrow> (\<exists>t p. s' = s\<lparr>trace := trace s @ t, podLocData := p\<rparr>)" if "setPodLocation sv s = Some s'" for sv s s'
    using _ that
  proof (rule setPodLocation.raw_induct [where P = "\<lambda>sv s r. sv = svc \<longrightarrow> (\<exists>t p. r = s\<lparr>trace := trace s @ t, podLocData := p\<rparr>)"])
    fix rec and sv :: "'p pod_scheme OperatorService" and s s'
    assume 1: "\<And>sv s r. rec sv s = Some r \<Longrightarrow> sv = svc \<longrightarrow> (\<exists>t p. r = s\<lparr>trace := trace s @ t, podLocData := p\<rparr>)"
      and 2: "(case svc_getPodLocation sv (podName s) s of ((resp, err), s') \<Rightarrow>
        if err = None then Some (s'\<lparr>podLocData := resp\<rparr>)
        else rec sv (emit (Sleep (svc_OperatorRetryInterval sv div time_Second)) s')) = Some s'"
    obtain t where t: "snd (svc_getPodLocation svc (podName s) s) = s\<lparr>trace := trace s @ t\<rparr>"
      using location_frame by blast
    obtain r e where get: "svc_getPodLocation svc (podName s) s = ((r, e), s\<lparr>trace := trace s @ t\<rparr>)"
      using t by (metis surj_pair snd_conv)
    let ?s = "emit (Sleep (svc_OperatorRetryInterval svc div time_Second)) (s\<lparr>trace := trace s @ t\<rparr>)"
    have "\<exists>u p. s' = s\<lparr>trace := trace s @ u, podLocData := p\<rparr>" if "sv = svc" "e \<noteq> None"
    proof -
      have "rec svc ?s = Some s'" using 2 that get by simp
      then obtain u p where "s' = ?s\<lparr>trace := trace ?s @ u, podLocData := p\<rparr>" using 1 by blast
      then have "s' = s\<lparr>trace := trace s @ (t @ Sleep (svc_OperatorRetryInterval svc div time_Second) # u), podLocData := p\<rparr>"
        by (simp add: emit_def)
      then show ?thesis by blast
    qed
    moreover have "s' = s\<lparr>trace := trace s @ t, podLocData := r\<rparr>" if "sv = svc" "e = None"
      using 2 that get by simp
    ultimately show "sv = svc \<longrightarrow> (\<exists>t p. s' = s\<lparr>trace := trace s @ t, podLocData := p\<rparr>)" by blast
  qed
  then show ?thesis using assms by blast
qed

end

section \<open>Lemmas\<close>

lemma operator_reply_error: "operator_reply d z res = (r, Some e) \<Longrightarrow> r = None"
  by (auto simp: operator_reply_def split: prod.splits if_splits option.splits body.splits)

interpretation manager: operator_service "manager_service om E" for om E
  by unfold_locales
    (auto simp: manager_service_def getPodLocation_def getCurrentTargets_def client_eqs
      dest: operator_reply_error)

end
