(* ===== verification/Node_Watch.thy ===== *)
theory Node_Watch
  imports Log_Rotate_Conf Operator_Service
begin

text \<open>
  The node watcher of \<^verbatim>\<open>nodes.go\<close>: how many nodes the pod should take or give back
  (\<^verbatim>\<open>updateNodesPerPod\<close>, \<^verbatim>\<open>calcChangeInNodes\<close>) and one round of the loop
  \<^verbatim>\<open>watchForNodes\<close> (\<^verbatim>\<open>doGetNewNodes\<close>).  \<^verbatim>\<open>doGetNewNodes\<close> reads \<^verbatim>\<open>inShutdown\<close>
  before it waits for the mutex, so the part under the lock is a definition of its own.
\<close>

section \<open>The target file\<close>

definition targetNodeFile :: string where
  "targetNodeFile = ''/var/log/console/TargetNodes.txt''"

text \<open>
  If the text occurs in the line, the number between it and the end of the line.  The
  value of \<^verbatim>\<open>Atoi\<close> is stored also when it reports an error.
\<close>

definition target_value :: "string \<Rightarrow> string \<Rightarrow> int \<Rightarrow> int outcome" where
  "target_value keyTxt line old =
     (case strings_Index line keyTxt of
        None \<Rightarrow> Ok old
      | Some pos \<Rightarrow>
          (case str_slice (pos + length keyTxt) (length line - 1) line of
             Panic p \<Rightarrow> Panic p
           | Ok numStr \<Rightarrow> Ok (fst (atoi numStr))))"

fun target_lines :: "string list \<Rightarrow> int \<Rightarrow> int \<Rightarrow> (int \<times> int) outcome" where
  "target_lines [] newRvr newMtn = Ok (newRvr, newMtn)"
| "target_lines (line # lines) newRvr newMtn =
     (case target_value ''River:'' line newRvr of
        Panic p \<Rightarrow> Panic p
      | Ok r \<Rightarrow>
          (case target_value ''Mountain:'' line newMtn of
             Panic p \<Rightarrow> Panic p
           | Ok m \<Rightarrow> target_lines lines r m))"

definition updateNodesPerPod :: "'e env_scheme \<Rightarrow> 'p node_vars_scheme \<Rightarrow> 'p node_vars_scheme outcome" where
  "updateNodesPerPod E s =
     (case (os_fails E (trace s) ''Open'' targetNodeFile, files s targetNodeFile) of
        (False, Some (RegFile _ content)) \<Rightarrow>
          (case target_lines (read_lines content) (-1) (-1) of
             Panic p \<Rightarrow> Panic p
           | Ok (newRvr, newMtn) \<Rightarrow>
               Ok (s\<lparr>targetRvrNodes := (if newRvr \<ge> 0 then newRvr else targetRvrNodes s),
                     targetMtnNodes := (if newMtn \<ge> 0 then newMtn else targetMtnNodes s)\<rparr>))
      | _ \<Rightarrow> Ok s)"

section \<open>How many nodes to take or give back\<close>

definition ideal_num :: "int \<Rightarrow> int \<Rightarrow> int" where
  "ideal_num totalNodes numPods = add64 (quot64 totalNodes (locMax numPods 1)) 1"

definition ideal_delta :: "int \<Rightarrow> int \<Rightarrow> int" where
  "ideal_delta currNum idealNum =
     (if currNum < idealNum \<or> over_110_percent currNum idealNum then sub64 idealNum currNum else 0)"

definition calcChangeInNodes ::
  "'e env_scheme \<Rightarrow> 'p node_vars_scheme OperatorService \<Rightarrow> 'p node_vars_scheme \<Rightarrow>
     ((int \<times> int) \<times> 'p node_vars_scheme) outcome" where
  "calcChangeInNodes E svc s =
     (case updateNodesPerPod E s of
        Panic p \<Rightarrow> Panic p
      | Ok s1 \<Rightarrow>
          (let currNumRvr = int (length (currentRvrNodes s1));
               currNumMtn = int (length (currentMtnNodes s1))
           in case getNumActiveNodePods E s1 of ((numPods, errNumPods), s2) \<Rightarrow>
             (case svc_getCurrentTargets svc s2 of ((currTargets, errCurrTargets), s3) \<Rightarrow>
                if errCurrTargets = None \<and> errNumPods = None then
                  (case currTargets of
                     None \<Rightarrow> Panic NilDeref
                   | Some t \<Rightarrow>
                       Ok ((ideal_delta currNumMtn (ideal_num (TotalMtnNodes t) numPods),
                            ideal_delta currNumRvr (ideal_num (TotalRvrNodes t) numPods)), s3))
                else
                  Ok ((pinNumNodes (sub64 (targetMtnNodes s3) currNumMtn) (maxAcquireMtn s3),
                       pinNumNodes (sub64 (targetRvrNodes s3) currNumRvr) (maxAcquireRvr s3)), s3))))"

section \<open>One round of the watcher\<close>

definition add_node :: "nodeConsoleInfo \<Rightarrow> bool \<times> 'p node_vars_scheme \<Rightarrow> bool \<times> 'p node_vars_scheme" where
  "add_node node cs =
     (case cs of (changed, s) \<Rightarrow>
        if isRiver node then
          (True, s\<lparr>currentRvrNodes := AList.update (NodeName node) node (currentRvrNodes s)\<rparr>)
        else if isMountain node then
          (True, s\<lparr>currentMtnNodes := AList.update (NodeName node) node (currentMtnNodes s)\<rparr>)
        else if isParadise node then
          (True, s\<lparr>currentPdsNodes := AList.update (NodeName node) node (currentPdsNodes s)\<rparr>)
        else (changed, s))"

definition acquire_phase ::
  "'e env_scheme \<Rightarrow> int \<Rightarrow> int \<Rightarrow> 'p node_vars_scheme \<Rightarrow> (bool \<times> 'p node_vars_scheme) outcome" where
  "acquire_phase E numAcqMtn numAcqRvr s =
     (if numAcqRvr > 0 \<or> numAcqMtn > 0 then
        (case acquireNewNodes E numAcqMtn numAcqRvr (podLocData s) s of
           Panic p \<Rightarrow> Panic p
         | Ok (newNodes, s1) \<Rightarrow> Ok (fold add_node newNodes (False, s1)))
      else Ok (False, s))"

definition changed_phase :: "'e env_scheme \<Rightarrow> bool \<Rightarrow> 'p rot_vars_scheme \<Rightarrow> 'p rot_vars_scheme outcome" where
  "changed_phase E changed s =
     (if changed then
        (case signalConmanTERM s of
           Panic p \<Rightarrow> Panic p
         | Ok s1 \<Rightarrow> Ok (updateLogRotateConf E s1))
      else Ok s)"

definition doGetNewNodes_locked ::
  "'e env_scheme \<Rightarrow> 'p rot_vars_scheme OperatorService \<Rightarrow> 'p rot_vars_scheme \<Rightarrow> 'p rot_vars_scheme outcome" where
  "doGetNewNodes_locked E svc s =
     (case calcChangeInNodes E svc s of
        Panic p \<Rightarrow> Panic p
      | Ok ((deltaMtn, deltaRvr0), s1) \<Rightarrow>
          (let deltaRvr = (if deltaRvr0 = 0 then 1 else deltaRvr0)
           in case acquire_phase E (pinNumNodes deltaMtn (maxAcquireMtn s1)) (pinNumNodes deltaRvr (maxAcquireRvr s1)) s1 of
                Panic p \<Rightarrow> Panic p
              | Ok (changed, s2) \<Rightarrow>
                  (case rebalanceNodes E deltaRvr deltaMtn s2 of (released, s3) \<Rightarrow>
                     changed_phase E (released \<or> changed) s3)))"

definition doGetNewNodes ::
  "'e env_scheme \<Rightarrow> 'p rot_vars_scheme OperatorService \<Rightarrow> 'p rot_vars_scheme \<Rightarrow> 'p rot_vars_scheme outcome" where
  "doGetNewNodes E svc s = (if inShutdown s then Ok s else doGetNewNodes_locked E svc s)"

text \<open>One turn of \<^verbatim>\<open>watchForNodes\<close>.\<close>

definition watchForNodes_turn ::
  "'e env_scheme \<Rightarrow> 'p rot_vars_scheme OperatorService \<Rightarrow> 'p rot_vars_scheme \<Rightarrow> 'p rot_vars_scheme outcome" where
  "watchForNodes_turn E svc s =
     (case doGetNewNodes E svc s of
        Panic p \<Rightarrow> Panic p
      | Ok s1 \<Rightarrow> Ok (emit (Sleep (newNodeLookupSec s1)) s1))"

section \<open>Lemmas\<close>

lemma pinNumNodes_bounds: "0 \<le> mx \<Longrightarrow> 0 \<le> pinNumNodes n mx \<and> pinNumNodes n mx \<le> mx"
  by (simp add: pinNumNodes_def)

lemma locMax_eq: "locMax a b = max a b"
  by (simp add: locMax_def)

text \<open>Reading the target file never leaves the line.\<close>

lemma strings_Index_before_newline:
  assumes "strings_Index (xs @ [newline]) sub = Some p" and "newline \<notin> set sub" and "sub \<noteq> []"
  shows "p + length sub \<le> length xs"
proof -
  have le: "p + length sub \<le> Suc (length xs)" and occ: "take (length sub) (drop p (xs @ [newline])) = sub"
    using strings_Index_SomeD [OF assms(1)] by auto
  show ?thesis
  proof (rule ccontr)
    assume "\<not> ?thesis"
    with le have eq: "p + length sub = Suc (length xs)" by simp
    then have p: "p \<le> length xs" using assms(3) by (cases sub) auto
    then have "take (length sub) (drop p (xs @ [newline])) = drop p xs @ [newline]"
      using eq by simp
    with occ assms(2) show False by (metis in_set_conv_decomp)
  qed
qed

lemma target_value_Ok:
  assumes "newline \<notin> set keyTxt" and "keyTxt \<noteq> []"
  shows "\<exists>v. target_value keyTxt (xs @ [newline]) old = Ok v"
  using strings_Index_before_newline [OF _ assms]
  by (auto simp: target_value_def str_slice_def split: option.split)

lemma target_lines_Ok:
  assumes "\<forall>l \<in> set ls. \<exists>xs. l = xs @ [newline]"
  shows "\<exists>r m. target_lines ls r0 m0 = Ok (r, m)"
  using assms
proof (induction ls arbitrary: r0 m0)
  case (Cons l ls)
  then obtain xs where l: "l = xs @ [newline]" by auto
  obtain r m where "target_value ''River:'' l r0 = Ok r" "target_value ''Mountain:'' l m0 = Ok m"
    using target_value_Ok [of "''River:''" xs r0] target_value_Ok [of "''Mountain:''" xs m0] l by auto
  with Cons show ?case by simp
qed simp

lemma updateNodesPerPod_Ok: "\<exists>r m. updateNodesPerPod E s = Ok (s\<lparr>targetRvrNodes := r, targetMtnNodes := m\<rparr>)"
proof (cases "\<exists>md c. \<not> os_fails E (trace s) ''Open'' targetNodeFile \<and> files s targetNodeFile = Some (RegFile md c)")
  case True
  then obtain md c where f: "\<not> os_fails E (trace s) ''Open'' targetNodeFile" "files s targetNodeFile = Some (RegFile md c)"
    by blast
  have "\<forall>l \<in> set (read_lines c). \<exists>xs. l = xs @ [newline]" using read_lines_line by blast
  from target_lines_Ok [OF this, of "-1" "-1"] obtain r m
    where "target_lines (read_lines c) (-1) (-1) = Ok (r, m)" by blast
  with f have "updateNodesPerPod E s =
      Ok (s\<lparr>targetRvrNodes := (if r \<ge> 0 then r else targetRvrNodes s),
            targetMtnNodes := (if m \<ge> 0 then m else targetMtnNodes s)\<rparr>)"
    by (simp add: updateNodesPerPod_def)
  then show ?thesis by blast
next
  case False
  then have "updateNodesPerPod E s = Ok s"
    by (auto simp: updateNodesPerPod_def split: bool.split option.split inode.split)
  then show ?thesis
    by (intro exI [of _ "targetRvrNodes s"] exI [of _ "targetMtnNodes s"]) simp
qed

lemma target_value_int64: "target_value k l old = Ok v \<Longrightarrow> int64 old \<Longrightarrow> int64 v"
  using atoi_int64 by (auto simp: target_value_def split: option.splits outcome.splits)

lemma target_lines_int64: "target_lines ls r0 m0 = Ok (r, m) \<Longrightarrow> int64 r0 \<Longrightarrow> int64 m0 \<Longrightarrow> int64 r \<and> int64 m"
  by (induction ls r0 m0 rule: target_lines.induct) (auto simp: target_value_int64 split: outcome.splits)

lemma updateNodesPerPod_ints: "updateNodesPerPod E s = Ok s' \<Longrightarrow> ints_ok s \<Longrightarrow> ints_ok s'"
  by (auto simp: updateNodesPerPod_def ints_ok_def int64_def [of "-1"] dest!: target_lines_int64
      split: bool.splits option.splits inode.splits outcome.splits)

text \<open>What the two numbers are once both services have answered.\<close>

lemma ideal_num_eq:
  assumes "0 \<le> n" and "n < 2 ^ 40"
  shows "ideal_num n pods = n div max pods 1 + 1"
    and "0 < ideal_num n pods" and "ideal_num n pods \<le> 2 ^ 40"
proof -
  have "n div max pods 1 \<le> n div 1" using assms(1) by (intro zdiv_mono2) auto
  moreover have "0 \<le> n div max pods 1" using assms(1) by (simp add: pos_imp_zdiv_nonneg_iff)
  ultimately have bounds: "0 < n div max pods 1 + 1" "n div max pods 1 + 1 \<le> 2 ^ 40"
    using assms(2) by simp_all
  then have "int64 (n div max pods 1 + 1)" and "int64 n"
    using assms by (simp_all add: int64_def)
  then show eq: "ideal_num n pods = n div max pods 1 + 1"
    using assms by (simp add: ideal_num_def locMax_eq quot64_nonneg add64_id)
  show "0 < ideal_num n pods" and "ideal_num n pods \<le> 2 ^ 40" using bounds by (simp_all only: eq)
qed

lemma ideal_delta_eq:
  assumes "0 \<le> c" and "c < 2 ^ 53" and "0 \<le> ideal" and "ideal \<le> 2 ^ 40"
  shows "ideal_delta c ideal = (if c < ideal \<or> 11 * ideal < 10 * c then ideal - c else 0)"
proof -
  have "int64 (ideal - c)" using assms by (simp add: int64_def)
  then show ?thesis
    using assms over_110_percent_iff [of ideal c] by (simp add: ideal_delta_def sub64_id)
qed

section \<open>The phases of a round\<close>

lemma add_node_ok [go_wf]:
  "pools_ok (snd cs) \<Longrightarrow> pools_ok (snd (add_node n cs))"
  "tails_held (snd cs) \<Longrightarrow> tails_held (snd (add_node n cs))"
  "tails_ok (snd cs) \<Longrightarrow> tails_ok (snd (add_node n cs))"
  by (cases cs; auto simp: add_node_def pools_ok_def pool_ok_update tails_held_def held_def gm_keys_update tails_ok_def)+

lemma ints_ok_add: "int64 (NID n) \<Longrightarrow> ints_ok (snd cs) \<Longrightarrow> ints_ok (snd (add_node n cs))"
  by (cases cs) (fastforce simp: add_node_def ints_ok_def dest: set_update_values)

lemma fold_add_node_keeps:
  "(\<And>n cs. n \<in> set ns \<Longrightarrow> I (snd cs) \<Longrightarrow> I (snd (add_node n cs))) \<Longrightarrow> I (snd cs) \<Longrightarrow> I (snd (fold add_node ns cs))"
  by (induction ns arbitrary: cs) simp_all

lemma acquire_phase_cases:
  assumes "acquire_phase E m r s = Ok (c, s')"
  obtains ns t where "(c, s') = fold add_node ns (False, s\<lparr>trace := trace s @ t\<rparr>)"
    and "ns \<noteq> [] \<Longrightarrow> (r > 0 \<or> m > 0) \<and> acquireNewNodes E m r (podLocData s) s = Ok (ns, s\<lparr>trace := trace s @ t\<rparr>)"
proof (cases "r > 0 \<or> m > 0")
  case True
  then obtain ns s1 where a: "acquireNewNodes E m r (podLocData s) s = Ok (ns, s1)"
      and f: "(c, s') = fold add_node ns (False, s1)"
    using assms by (auto simp: acquire_phase_def split: outcome.splits)
  moreover obtain t where "s1 = s\<lparr>trace := trace s @ t\<rparr>" using acquireNewNodes_state [OF a] by blast
  ultimately show thesis using True by (intro that [of ns t]) auto
next
  case False
  then show thesis using assms by (intro that [of "[]" "[]"]) (auto simp: acquire_phase_def)
qed

lemma acquire_phase_ints:
  assumes "acquire_phase E m r s = Ok (c, s')"
  shows "\<exists>ns t. (c, s') = fold add_node ns (False, s\<lparr>trace := trace s @ t\<rparr>) \<and> (\<forall>n \<in> set ns. int64 (NID n))"
proof -
  obtain ns t where eq: "(c, s') = fold add_node ns (False, s\<lparr>trace := trace s @ t\<rparr>)"
    and ns: "ns \<noteq> [] \<Longrightarrow> acquireNewNodes E m r (podLocData s) s = Ok (ns, s\<lparr>trace := trace s @ t\<rparr>)"
    using acquire_phase_cases [OF assms] by blast
  have "\<forall>n \<in> set ns. int64 (NID n)" using acquireNewNodes_int64 [OF ns] by (cases "ns = []") auto
  with eq show ?thesis by blast
qed

lemma acquire_phase_ok [go_wf]:
  assumes "acquire_phase E m r s = Ok (c, s')"
  shows "pools_ok s \<Longrightarrow> pools_ok s'" and "tails_held s \<Longrightarrow> tails_held s'" and "tails_ok s \<Longrightarrow> tails_ok s'"
proof -
  obtain ns t where eq: "(c, s') = fold add_node ns (False, s\<lparr>trace := trace s @ t\<rparr>)"
    using acquire_phase_cases [OF assms] by blast
  have s': "s' = snd (fold add_node ns (False, s\<lparr>trace := trace s @ t\<rparr>))"
    using arg_cong [OF eq, of snd] by simp
  show "pools_ok s \<Longrightarrow> pools_ok s'"
    unfolding s' by (rule fold_add_node_keeps [where I = pools_ok]) (simp_all add: add_node_ok)
  show "tails_held s \<Longrightarrow> tails_held s'"
    unfolding s' by (rule fold_add_node_keeps [where I = tails_held]) (simp_all add: add_node_ok)
  show "tails_ok s \<Longrightarrow> tails_ok s'"
    unfolding s' by (rule fold_add_node_keeps [where I = tails_ok]) (simp_all add: add_node_ok)
qed

lemma acquire_phase_later: "acquire_phase E m r s = Ok (c, s') \<Longrightarrow> later s s'"
  by (erule acquire_phase_cases, drule arg_cong [where f = snd], simp,
      rule fold_add_node_keeps [where I = "later s"], auto simp: add_node_def later_def split: prod.splits)

lemma acquire_phase_command:
  fixes s s' :: "'p conman_vars_scheme"
  shows "acquire_phase E m r s = Ok (c, s') \<Longrightarrow> command s' = command s"
  by (erule acquire_phase_cases, drule arg_cong [where f = snd], simp,
      rule fold_add_node_keeps [where I = "\<lambda>x. command x = command s"],
      auto simp: add_node_def split: prod.splits)

lemma acquire_phase_files: "acquire_phase E m r s = Ok (c, s') \<Longrightarrow> files s' = files s"
  by (erule acquire_phase_cases, drule arg_cong [where f = snd], simp,
      rule fold_add_node_keeps [where I = "\<lambda>x. files x = files s"],
      auto simp: add_node_def split: prod.splits)

text \<open>The flag stays false only when no node was added.\<close>

lemma add_node_flag: "\<not> fst (add_node n cs) \<Longrightarrow> add_node n cs = cs"
  by (cases cs; cases "isRiver n"; cases "isMountain n"; cases "isParadise n") (simp_all add: add_node_def)

lemma fold_add_node_flag:
  "\<not> fst (fold add_node ns cs) \<Longrightarrow> fold add_node ns cs = cs"
proof (induction ns arbitrary: cs)
  case (Cons n ns)
  have eq: "fold add_node ns (add_node n cs) = add_node n cs"
    using Cons.prems by (intro Cons.IH) simp
  then have "\<not> fst (add_node n cs)" using Cons.prems by simp
  then have "add_node n cs = cs" by (rule add_node_flag)
  with eq show ?case by simp
qed simp

lemma acquire_phase_unchanged:
  assumes "acquire_phase E m r s = Ok (c, s')" and "\<not> c"
  shows "held s' = held s"
proof -
  obtain ns t where eq: "(c, s') = fold add_node ns (False, s\<lparr>trace := trace s @ t\<rparr>)"
    using acquire_phase_cases [OF assms(1)] by blast
  with assms(2) have "\<not> fst (fold add_node ns (False, s\<lparr>trace := trace s @ t\<rparr>))" by (metis fst_conv)
  from fold_add_node_flag [OF this] eq have "s' = s\<lparr>trace := trace s @ t\<rparr>" by simp
  then show ?thesis by simp
qed

text \<open>Only River nodes add to the number of River nodes, at most one each.\<close>

lemma add_node_num_rvr:
  "num_rvr (snd (add_node n cs)) \<le> num_rvr (snd cs) + (if isRiver n then 1 else 0)"
  by (cases cs) (simp add: add_node_def num_rvr_def length_update_key)

lemma fold_add_node_num_rvr:
  "num_rvr (snd (fold add_node ns cs)) \<le> num_rvr (snd cs) + int (length (filter isRiver ns))"
proof (induction ns arbitrary: cs)
  case (Cons n ns)
  show ?case using Cons.IH [of "add_node n cs"] add_node_num_rvr [of n cs] by (auto split: if_splits)
qed simp

lemma changed_phase_frame:
  assumes "changed_phase E c s = Ok s'"
  shows "\<exists>t f. s' = s\<lparr>files := f, trace := trace s @ t\<rparr>"
proof (cases c)
  case True
  then obtain s1 where 1: "signalConmanTERM s = Ok s1" "s' = updateLogRotateConf E s1"
    using assms by (auto simp: changed_phase_def split: outcome.splits)
  obtain t where t: "s1 = s\<lparr>trace := trace s @ t\<rparr>" using signalConmanTERM_Ok [OF 1(1)] by blast
  obtain u f where "s' = s1\<lparr>files := f, trace := trace s1 @ u\<rparr>"
    using 1(2) updateLogRotateConf_frame by blast
  then have "s' = s\<lparr>files := f, trace := trace s @ (t @ u)\<rparr>" by (simp add: t)
  then show ?thesis by blast
next
  case False
  then show ?thesis using assms
    by (intro exI [of _ "[]"] exI [of _ "files s"]) (simp add: changed_phase_def)
qed

lemma changed_phase_ok [go_wf]:
  assumes "changed_phase E c s = Ok s'"
  shows "pools_ok s' = pools_ok s" and "tails_held s' = tails_held s" and "tails_ok s' = tails_ok s"
    and "held s' = held s" and "num_rvr s' = num_rvr s" and "num_mtn_pds s' = num_mtn_pds s"
  using changed_phase_frame [OF assms] by auto

text \<open>
  What console-data promises of \<^verbatim>\<open>acquire\<close>: it grants no more River nodes than asked.
\<close>

definition grants_as_asked :: "'e env_scheme \<Rightarrow> bool" where
  "grants_as_asked E \<longleftrightarrow>
     (\<forall>h url hdrs numMtn numRvr loc sc b.
        net E h (Request ''POST'' url hdrs (Some (Json (json_ReqData numMtn numRvr loc)))) = Response sc b \<longrightarrow>
        length (filter isRiver (fst (unmarshal_nodes b))) \<le> nat numRvr)"

lemma acquireNewNodes_granted:
  assumes "grants_as_asked E" and "acquireNewNodes E m r loc s = Ok (ns, s')"
  shows "length (filter isRiver ns) \<le> nat r"
proof -
  obtain l where l: "loc = Some l" using assms(2) by (auto simp: acquireNewNodes_def split: option.splits)
  define res where "res = net E (trace s)
    (Request ''POST'' (consolepod_url ''acquire'' s) [(''Content-Type'', ''application/json'')] (Some (Json (json_ReqData m r l))))"
  have ns: "ns = (case fst (http_result res) of None \<Rightarrow> [] | Some b \<Rightarrow> fst (unmarshal_nodes b))"
    using assms(2) by (auto simp: acquireNewNodes_def l client_eqs res_def split: prod.splits)
  show ?thesis
  proof (cases res)
    case (Response sc b)
    then show ?thesis using assms(1) ns unfolding grants_as_asked_def res_def by (auto simp: http_result_def)
  qed (use ns in \<open>simp_all add: http_result_def\<close>)
qed

lemma acquire_phase_num_rvr:
  assumes "grants_as_asked E" and "acquire_phase E m r s = Ok (c, s')"
  shows "num_rvr s' \<le> num_rvr s + max 0 r"
proof -
  obtain ns t where eq: "(c, s') = fold add_node ns (False, s\<lparr>trace := trace s @ t\<rparr>)"
    and ns: "ns \<noteq> [] \<Longrightarrow> acquireNewNodes E m r (podLocData s) s = Ok (ns, s\<lparr>trace := trace s @ t\<rparr>)"
    using acquire_phase_cases [OF assms(2)] by blast
  have "num_rvr s' \<le> num_rvr s + int (length (filter isRiver ns))"
    using fold_add_node_num_rvr [of ns "(False, s\<lparr>trace := trace s @ t\<rparr>)"] by (simp flip: eq)
  moreover have "length (filter isRiver ns) \<le> nat r"
    using acquireNewNodes_granted [OF assms(1) ns] by (cases "ns = []") auto
  ultimately show ?thesis by simp
qed

lemma pinNumNodes_le: "pinNumNodes n mx \<le> max 0 n"
  by (simp add: pinNumNodes_def)

section \<open>Rounds, for any operator service\<close>

locale node_watcher = operator_service svc for svc :: "'p rot_vars_scheme OperatorService"
begin

lemma calc_frame_ints:
  assumes "calcChangeInNodes E svc s = Ok (d, s')"
  shows "\<exists>t r m. s' = s\<lparr>trace := trace s @ t, targetRvrNodes := r, targetMtnNodes := m\<rparr> \<and>
    (ints_ok s \<longrightarrow> ints_ok (s\<lparr>targetRvrNodes := r, targetMtnNodes := m\<rparr>))"
proof -
  obtain r m where u: "updateNodesPerPod E s = Ok (s\<lparr>targetRvrNodes := r, targetMtnNodes := m\<rparr>)"
    using updateNodesPerPod_Ok by blast
  define s1 where "s1 = s\<lparr>targetRvrNodes := r, targetMtnNodes := m\<rparr>"
  define s2 where "s2 = snd (getNumActiveNodePods E s1)"
  obtain t where t: "s2 = s1\<lparr>trace := trace s1 @ t\<rparr>"
    using getNumActiveNodePods_state unfolding s2_def by blast
  obtain w where w: "snd (svc_getCurrentTargets svc s2) = s2\<lparr>trace := trace s2 @ w\<rparr>"
    using targets_frame by blast
  have "s' = snd (svc_getCurrentTargets svc s2)"
    using assms u unfolding calcChangeInNodes_def s1_def [symmetric] s2_def
    by (auto simp: Let_def split: prod.splits if_splits option.splits)
  then have "s' = s2\<lparr>trace := trace s2 @ w\<rparr>" by (simp only: w)
  then have "s' = s\<lparr>trace := trace s @ (t @ w), targetRvrNodes := r, targetMtnNodes := m\<rparr>"
    by (simp add: t s1_def)
  then show ?thesis using updateNodesPerPod_ints [OF u] by blast
qed

lemma calc_frame:
  assumes "calcChangeInNodes E svc s = Ok (d, s')"
  shows "\<exists>t r m. s' = s\<lparr>trace := trace s @ t, targetRvrNodes := r, targetMtnNodes := m\<rparr>"
  using calc_frame_ints [OF assms] by blast

lemma calc_keeps:
  assumes "calcChangeInNodes E svc s = Ok (d, s')"
  shows "pools_ok s' = pools_ok s" and "tails_held s' = tails_held s" and "tails_ok s' = tails_ok s"
    and "held s' = held s" and "num_rvr s' = num_rvr s" and "num_mtn_pds s' = num_mtn_pds s"
  using calc_frame [OF assms]
  by (elim exE, simp add: pools_ok_def tails_held_def tails_ok_def held_def num_rvr_def num_mtn_pds_def)+

lemma round_cases:
  assumes "doGetNewNodes_locked E svc s = Ok s'"
  obtains dm dr s1 c s2 s3 where "calcChangeInNodes E svc s = Ok ((dm, dr), s1)"
    and "acquire_phase E (pinNumNodes dm (maxAcquireMtn s1)) (pinNumNodes (if dr = 0 then 1 else dr) (maxAcquireRvr s1)) s1 = Ok (c, s2)"
    and "s3 = snd (rebalanceNodes E (if dr = 0 then 1 else dr) dm s2)"
    and "changed_phase E (fst (rebalanceNodes E (if dr = 0 then 1 else dr) dm s2) \<or> c) s3 = Ok s'"
  using assms
  by (auto simp: doGetNewNodes_locked_def Let_def split: outcome.splits prod.splits)

lemma round_ok:
  assumes "doGetNewNodes E svc s = Ok s'"
  shows "pools_ok s \<Longrightarrow> pools_ok s'" and "tails_held s \<Longrightarrow> tails_held s'" and "tails_ok s \<Longrightarrow> tails_ok s'"
proof -
  have *: "(pools_ok s \<longrightarrow> pools_ok s') \<and> (tails_held s \<longrightarrow> tails_held s') \<and> (tails_ok s \<longrightarrow> tails_ok s')"
  proof (cases "inShutdown s")
    case True
    then show ?thesis using assms by (simp add: doGetNewNodes_def)
  next
    case False
    then have "doGetNewNodes_locked E svc s = Ok s'" using assms by (simp add: doGetNewNodes_def)
    then show ?thesis
    proof (rule round_cases)
      fix dm dr s1 c s2 s3
      assume "calcChangeInNodes E svc s = Ok ((dm, dr), s1)"
        and "acquire_phase E (pinNumNodes dm (maxAcquireMtn s1)) (pinNumNodes (if dr = 0 then 1 else dr) (maxAcquireRvr s1)) s1 = Ok (c, s2)"
        and "s3 = snd (rebalanceNodes E (if dr = 0 then 1 else dr) dm s2)"
        and "changed_phase E (fst (rebalanceNodes E (if dr = 0 then 1 else dr) dm s2) \<or> c) s3 = Ok s'"
      note calc = calc_keeps [OF this(1)] and ac = acquire_phase_ok [OF this(2)]
        and ch = changed_phase_ok [OF this(4)] and s3 = this(3)
      show ?thesis unfolding ch s3 using ac calc rebalanceNodes_ok by blast
    qed
  qed
  from * show "pools_ok s \<Longrightarrow> pools_ok s'" and "tails_held s \<Longrightarrow> tails_held s'" and "tails_ok s \<Longrightarrow> tails_ok s'"
    by simp_all
qed

lemma round_num_rvr:
  assumes "doGetNewNodes_locked E svc s = Ok s'" and "calcChangeInNodes E svc s = Ok ((dm, dr), s1)"
    and "pools_ok s" and "grants_as_asked E"
  shows "num_rvr s' \<le> (if dr < 0 then max 0 (num_rvr s + dr) else num_rvr s + max 1 dr)"
  using assms(1)
proof (rule round_cases)
  fix dm' dr' s1' c s2 s3
  define d where "d = (if dr = 0 then 1 else dr)"
  assume "calcChangeInNodes E svc s = Ok ((dm', dr'), s1')"
  then have same: "dm' = dm" "dr' = dr" "s1' = s1" using assms(2) by simp_all
  assume a: "acquire_phase E (pinNumNodes dm' (maxAcquireMtn s1')) (pinNumNodes (if dr' = 0 then 1 else dr') (maxAcquireRvr s1')) s1' = Ok (c, s2)"
    and s3: "s3 = snd (rebalanceNodes E (if dr' = 0 then 1 else dr') dm' s2)"
    and "changed_phase E (fst (rebalanceNodes E (if dr' = 0 then 1 else dr') dm' s2) \<or> c) s3 = Ok s'"
  then have s': "num_rvr s' = num_rvr s3" by (simp add: changed_phase_ok)
  have "pools_ok s2" using acquire_phase_ok(1) [OF a] assms(3) calc_keeps [OF assms(2)] same by simp
  from rebalanceNodes_spec [OF this, of E d dm]
  have n3: "num_rvr s3 = (if d < 0 then max 0 (num_rvr s2 + d) else num_rvr s2)"
    unfolding s3 same d_def by (auto simp: num_rvr_def split: if_splits)
  have "num_rvr s2 \<le> num_rvr s + max 0 (pinNumNodes d (maxAcquireRvr s1))"
    using acquire_phase_num_rvr [OF assms(4) a] calc_keeps [OF assms(2)] unfolding same d_def by simp
  then have "num_rvr s2 \<le> num_rvr s + max 0 d" using pinNumNodes_le [of d "maxAcquireRvr s1"] by simp
  then show ?thesis using n3 s' by (auto simp: d_def max_def split: if_splits)
qed

text \<open>Whatever the parts of a round keep, the round keeps.\<close>

lemma round_keeps:
  assumes "doGetNewNodes_locked E svc s = Ok s'" and "I s"
    and calc: "\<And>s t r m. I s \<Longrightarrow> (ints_ok s \<Longrightarrow> ints_ok (s\<lparr>targetRvrNodes := r, targetMtnNodes := m\<rparr>)) \<Longrightarrow>
      I (s\<lparr>trace := t, targetRvrNodes := r, targetMtnNodes := m\<rparr>)"
    and tr: "\<And>s t. I s \<Longrightarrow> I (s\<lparr>trace := t\<rparr>)" and add: "\<And>n cs. int64 (NID n) \<Longrightarrow> I (snd cs) \<Longrightarrow> I (snd (add_node n cs))"
    and drops: "\<And>k s. I s \<Longrightarrow> I (drop_rvr k s)" "\<And>k s. I s \<Longrightarrow> I (drop_mtn k s)" "\<And>k s. I s \<Longrightarrow> I (drop_pds k s)"
    and rel: "\<And>ns s. I s \<Longrightarrow> I (releaseNodes E ns s)" and fin: "\<And>s f t. I s \<Longrightarrow> I (s\<lparr>files := f, trace := t\<rparr>)"
  shows "I s'"
  using assms(1)
proof (rule round_cases)
  fix dm dr :: int and s1 c s2 s3
  let ?d = "if dr = 0 then 1 else dr"
  assume a: "calcChangeInNodes E svc s = Ok ((dm, dr), s1)"
    and b: "acquire_phase E (pinNumNodes dm (maxAcquireMtn s1)) (pinNumNodes ?d (maxAcquireRvr s1)) s1 = Ok (c, s2)"
    and s3: "s3 = snd (rebalanceNodes E ?d dm s2)"
    and ch: "changed_phase E (fst (rebalanceNodes E ?d dm s2) \<or> c) s3 = Ok s'"
  obtain t r m where "s1 = s\<lparr>trace := trace s @ t, targetRvrNodes := r, targetMtnNodes := m\<rparr>"
    "ints_ok s \<longrightarrow> ints_ok (s\<lparr>targetRvrNodes := r, targetMtnNodes := m\<rparr>)"
    using calc_frame_ints [OF a] by blast
  then have 1: "I s1" using calc [OF assms(2)] by simp
  obtain ns u where eq: "(c, s2) = fold add_node ns (False, s1\<lparr>trace := trace s1 @ u\<rparr>)"
    and "\<forall>n \<in> set ns. int64 (NID n)"
    using acquire_phase_ints [OF b] by blast
  then have "I (snd (fold add_node ns (False, s1\<lparr>trace := trace s1 @ u\<rparr>)))"
    by (intro fold_add_node_keeps [where I = I, OF add]) (simp_all add: tr [OF 1])
  then have "I s2" by (simp flip: eq)
  then have "I s3" unfolding s3 by (rule rebalanceNodes_keeps) (rule drops rel, assumption)+
  moreover obtain w f where "s' = s3\<lparr>files := f, trace := trace s3 @ w\<rparr>" using changed_phase_frame [OF ch] by blast
  ultimately show "I s'" using fin by simp
qed

text \<open>
  When a round changes the set of nodes, conman is told to restart and the rotation file
  is rebuilt for the new set.
\<close>

lemma round_changed:
  assumes "doGetNewNodes_locked E svc s = Ok s'" and "pools_ok s" and "held s' \<noteq> held s"
  shows "\<exists>s4. later s s4 \<and> held s4 = held s' \<and> s' = updateLogRotateConf E s4 \<and> command s \<noteq> Created \<and> files s4 = files s \<and>
    (command s = Running \<longrightarrow> last (trace s4) = SignalConman SIGTERM \<and> length (trace s) < length (trace s4))"
  using assms(1)
proof (rule round_cases)
  fix dm dr :: int and s1 c s2 s3
  let ?d = "if dr = 0 then 1 else dr"
  assume calc: "calcChangeInNodes E svc s = Ok ((dm, dr), s1)"
    and a: "acquire_phase E (pinNumNodes dm (maxAcquireMtn s1)) (pinNumNodes ?d (maxAcquireRvr s1)) s1 = Ok (c, s2)"
    and s3: "s3 = snd (rebalanceNodes E ?d dm s2)"
    and ch: "changed_phase E (fst (rebalanceNodes E ?d dm s2) \<or> c) s3 = Ok s'"
  have ok2: "pools_ok s2" using acquire_phase_ok(1) [OF a] assms(2) calc_keeps [OF calc] by simp
  have "fst (rebalanceNodes E ?d dm s2) \<or> c"
  proof (rule ccontr)
    assume no: "\<not> (fst (rebalanceNodes E ?d dm s2) \<or> c)"
    then have "held s3 = held s2"
      unfolding s3 by (intro rebalanceNodes_held [OF ok2]) simp
    moreover have "held s2 = held s1" using acquire_phase_unchanged [OF a] no by simp
    ultimately show False
      using assms(3) calc_keeps(4) [OF calc] changed_phase_ok(4) [OF ch] by simp
  qed
  then obtain s4 where sig: "signalConmanTERM s3 = Ok s4" and s': "s' = updateLogRotateConf E s4"
    using ch by (auto simp: changed_phase_def split: outcome.splits)
  have lat: "later s s3"
    unfolding s3 using calc_frame [OF calc] acquire_phase_later [OF a]
    by (intro rebalanceNodes_later) (auto simp: later_def)
  have cmd: "command s3 = command s"
    unfolding s3 using calc_frame [OF calc] acquire_phase_command [OF a] by auto
  have "files s3 = files s"
    unfolding s3 using calc_frame [OF calc] acquire_phase_files [OF a] by auto
  then have "files s4 = files s" using signalConmanTERM_Ok [OF sig] by auto
  moreover have "held s4 = held s'" using updateLogRotateConf_frame [of E s4] by (auto simp: s')
  moreover have "later s s4" using lat signalConmanTERM_Ok [OF sig] by auto
  moreover have "command s \<noteq> Created" using sig signalConmanTERM_panics [of s3] cmd by auto
  moreover have "command s = Running \<Longrightarrow> trace s4 = trace s3 @ [SignalConman SIGTERM]"
    using sig cmd by (auto simp: signalConmanTERM_def)
  ultimately show ?thesis using s' lat by (intro exI [of _ s4]) (auto simp: later_def)
qed

end

interpretation manager_watch: node_watcher "manager_service om E" for om E
  by unfold_locales

section \<open>The console-operator's service\<close>

lemma http_do_cong: "trace s = trace s' \<Longrightarrow> fst (http_do E req s) = fst (http_do E req s')"
  by (simp add: http_do_def Let_def)

lemma getNumActiveNodePods_cong:
  assumes "trace s = trace s'"
  shows "fst (getNumActiveNodePods E s) = fst (getNumActiveNodePods E s')"
    and "trace (snd (getNumActiveNodePods E s)) = trace (snd (getNumActiveNodePods E s'))"
  using assms by (auto simp: getNumActiveNodePods_def client_eqs split: prod.split option.split)

lemma getCurrentTargets_cong:
  "trace s = trace s' \<Longrightarrow> fst (getCurrentTargets om E s) = fst (getCurrentTargets om E s')"
  by (simp add: getCurrentTargets_def client_eqs split: prod.split)

text \<open>The calculation when both services answer.\<close>

lemma calc_both_answer:
  assumes "fst (getNumActiveNodePods E s) = (numPods, None)"
    and "fst (getCurrentTargets om E (snd (getNumActiveNodePods E s))) = (tgt, None)"
  shows "\<exists>s1. calcChangeInNodes E (manager_service om E) s =
    (case tgt of
       None \<Rightarrow> Panic NilDeref
     | Some t \<Rightarrow> Ok ((ideal_delta (int (length (currentMtnNodes s))) (ideal_num (TotalMtnNodes t) numPods),
         ideal_delta (num_rvr s) (ideal_num (TotalRvrNodes t) numPods)), s1))"
proof -
  obtain r m where u: "updateNodesPerPod E s = Ok (s\<lparr>targetRvrNodes := r, targetMtnNodes := m\<rparr>)"
    using updateNodesPerPod_Ok by blast
  let ?s = "s\<lparr>targetRvrNodes := r, targetMtnNodes := m\<rparr>"
  have "trace ?s = trace s" by simp
  note c = getNumActiveNodePods_cong [OF this, of E]
  obtain s2 where 2: "getNumActiveNodePods E ?s = ((numPods, None), s2)"
    using c(1) assms(1) by (metis prod.collapse)
  have "trace s2 = trace (snd (getNumActiveNodePods E s))" using c(2) 2 by simp
  from getCurrentTargets_cong [OF this, of om E] assms(2)
  obtain s3 where 3: "getCurrentTargets om E s2 = ((tgt, None), s3)" by (metis prod.collapse)
  show ?thesis
    by (rule exI [of _ s3], cases tgt) (simp_all add: calcChangeInNodes_def u 2 manager_service_def 3 num_rvr_def)
qed

lemma calc_null:
  assumes "fst (getNumActiveNodePods E s) = (numPods, None)"
    and "fst (getCurrentTargets om E (snd (getNumActiveNodePods E s))) = (None, None)"
  shows "calcChangeInNodes E (manager_service om E) s = Panic NilDeref"
  using calc_both_answer [OF assms] by simp

lemma calc_answered:
  assumes "fst (getNumActiveNodePods E s) = (numPods, None)"
    and "fst (getCurrentTargets om E (snd (getNumActiveNodePods E s))) = (Some t, None)"
  shows "\<exists>s1. calcChangeInNodes E (manager_service om E) s =
    Ok ((ideal_delta (int (length (currentMtnNodes s))) (ideal_num (TotalMtnNodes t) numPods),
         ideal_delta (num_rvr s) (ideal_num (TotalRvrNodes t) numPods)), s1)"
  using calc_both_answer [OF assms] by simp

section \<open>Progress\<close>

text \<open>New River nodes with names of their own all count.\<close>

lemma fold_add_node_num_rvr_exact:
  assumes "distinct (map NodeName (filter isRiver ns))"
    and "NodeName ` set (filter isRiver ns) \<inter> gm_keys (currentRvrNodes (snd cs)) = {}"
  shows "num_rvr (snd (fold add_node ns cs)) = num_rvr (snd cs) + int (length (filter isRiver ns))"
  using assms
proof (induction ns arbitrary: cs)
  case (Cons n ns)
  obtain c s where cs: "cs = (c, s)" by fastforce
  show ?case
  proof (cases "isRiver n")
    case True
    let ?cs = "(True, s\<lparr>currentRvrNodes := AList.update (NodeName n) n (currentRvrNodes s)\<rparr>)"
    have "num_rvr (snd (fold add_node ns ?cs)) = num_rvr (snd ?cs) + int (length (filter isRiver ns))"
      using Cons.prems True by (intro Cons.IH) (auto simp: cs gm_keys_update)
    moreover have "NodeName n \<notin> gm_keys (currentRvrNodes s)" using Cons.prems(2) True by (simp add: cs)
    then have "num_rvr (snd ?cs) = num_rvr s + 1" by (simp add: num_rvr_def length_update_key)
    moreover have "add_node n cs = ?cs" using True by (simp add: cs add_node_def)
    ultimately show ?thesis using True by (simp add: cs)
  next
    case False
    have same: "currentRvrNodes (snd (add_node n cs)) = currentRvrNodes s" using False by (simp add: cs add_node_def)
    then have "num_rvr (snd (fold add_node ns (add_node n cs))) = num_rvr (snd (add_node n cs)) + int (length (filter isRiver ns))"
      using Cons.prems False by (intro Cons.IH) (simp_all add: cs)
    then show ?thesis using False same by (simp add: num_rvr_def cs)
  qed
qed simp

text \<open>
  An answer to \<^verbatim>\<open>acquire\<close>, if there is one, that grants as many River nodes as asked for, none
  of which the pod has.
\<close>

definition river_granted :: "'e env_scheme \<Rightarrow> int \<Rightarrow> int \<Rightarrow> 'p node_vars_scheme \<Rightarrow> bool" where
  "river_granted E m r s \<longleftrightarrow>
     (\<forall>ns s'. acquireNewNodes E m r (podLocData s) s = Ok (ns, s') \<longrightarrow>
        int (length (filter isRiver ns)) = r \<and> distinct (map NodeName (filter isRiver ns)) \<and>
        NodeName ` set (filter isRiver ns) \<inter> gm_keys (currentRvrNodes s) = {})"

lemma round_progress:
  assumes "doGetNewNodes_locked E (manager_service om E) s = Ok s'"
    and "calcChangeInNodes E (manager_service om E) s = Ok ((dm, dr), s1)" and "0 < dr" and "0 < maxAcquireRvr s"
    and "pools_ok s" and "river_granted E (pinNumNodes dm (maxAcquireMtn s1)) (min dr (maxAcquireRvr s)) s1"
  shows "num_rvr s' = num_rvr s + min dr (maxAcquireRvr s)"
  using assms(1)
proof (rule manager_watch.round_cases)
  fix dm' dr' s1' c s2 s3
  assume "calcChangeInNodes E (manager_service om E) s = Ok ((dm', dr'), s1')"
  then have same: "dm' = dm" "dr' = dr" "s1' = s1" using assms(2) by simp_all
  have f1: "maxAcquireRvr s1 = maxAcquireRvr s" "num_rvr s1 = num_rvr s" "pools_ok s1"
    using manager_watch.calc_frame [OF assms(2)] manager_watch.calc_keeps [OF assms(2)] assms(5) by auto
  then have pin: "pinNumNodes dr (maxAcquireRvr s1) = min dr (maxAcquireRvr s)" using assms(3,4) by (simp add: pinNumNodes_def)
  assume "acquire_phase E (pinNumNodes dm' (maxAcquireMtn s1')) (pinNumNodes (if dr' = 0 then 1 else dr') (maxAcquireRvr s1')) s1' = Ok (c, s2)"
  then have a: "acquire_phase E (pinNumNodes dm (maxAcquireMtn s1)) (min dr (maxAcquireRvr s)) s1 = Ok (c, s2)"
    using assms(3) pin by (simp add: same)
  assume s3: "s3 = snd (rebalanceNodes E (if dr' = 0 then 1 else dr') dm' s2)"
    and "changed_phase E (fst (rebalanceNodes E (if dr' = 0 then 1 else dr') dm' s2) \<or> c) s3 = Ok s'"
  then have s': "num_rvr s' = num_rvr s3" by (simp add: changed_phase_ok)
  have "0 < min dr (maxAcquireRvr s)" using assms(3,4) by simp
  then obtain ns s4 where ns: "acquireNewNodes E (pinNumNodes dm (maxAcquireMtn s1)) (min dr (maxAcquireRvr s)) (podLocData s1) s1 = Ok (ns, s4)"
      and fold: "(c, s2) = fold add_node ns (False, s4)"
    using a by (auto simp: acquire_phase_def split: outcome.splits)
  have 4: "currentRvrNodes s4 = currentRvrNodes s1" using acquireNewNodes_state [OF ns] by auto
  note g = assms(6) [unfolded river_granted_def, rule_format, OF ns]
  have "num_rvr s2 = num_rvr s4 + int (length (filter isRiver ns))"
    using fold_add_node_num_rvr_exact [of ns "(False, s4)"] g 4 by (simp flip: fold)
  then have 2: "num_rvr s2 = num_rvr s + min dr (maxAcquireRvr s)" using g 4 f1(2) by (simp add: num_rvr_def)
  have "pools_ok s2" using acquire_phase_ok(1) [OF a f1(3)] .
  from rebalanceNodes_spec [OF this, of E dr dm] assms(3)
  have "num_rvr s3 = num_rvr s2" unfolding s3 same by (auto simp: num_rvr_def split: if_splits)
  with 2 s' show ?thesis by simp
qed

lemma calc_share:
  assumes "fst (getNumActiveNodePods E s) = (numPods, None)"
    and "fst (getCurrentTargets om E (snd (getNumActiveNodePods E s))) = (Some t, None)"
    and "0 \<le> TotalRvrNodes t" and "TotalRvrNodes t < 2 ^ 40" and "num_rvr s < 2 ^ 53"
  shows "\<exists>dm s1. let share = TotalRvrNodes t div max numPods 1 + 1 in
    calcChangeInNodes E (manager_service om E) s =
      Ok ((dm, if num_rvr s < share \<or> 11 * share < 10 * num_rvr s then share - num_rvr s else 0), s1)"
proof -
  have ideal: "ideal_num (TotalRvrNodes t) numPods = TotalRvrNodes t div max numPods 1 + 1"
    "0 < TotalRvrNodes t div max numPods 1 + 1" "TotalRvrNodes t div max numPods 1 + 1 \<le> 2 ^ 40"
    using ideal_num_eq [OF assms(3,4), of numPods] by simp_all
  show ?thesis
    using calc_answered [OF assms(1,2)] ideal_delta_eq [OF _ assms(5) _ ideal(3)] ideal(1,2)
    by (auto simp: Let_def num_rvr_def)
qed

text \<open>
  A round in which both services answer and console-data grants as many new River nodes as
  are asked for.
\<close>

definition river_served ::
  "'e env_scheme \<Rightarrow> OperatorManager \<Rightarrow> int \<Rightarrow> CurrentTargets \<Rightarrow> 'p rot_vars_scheme \<Rightarrow> bool" where
  "river_served E om numPods t s \<longleftrightarrow>
     pools_ok s \<and> \<not> inShutdown s \<and> fst (getNumActiveNodePods E s) = (numPods, None) \<and>
     fst (getCurrentTargets om E (snd (getNumActiveNodePods E s))) = (Some t, None) \<and>
     (\<forall>dm dr s1. calcChangeInNodes E (manager_service om E) s = Ok ((dm, dr), s1) \<longrightarrow>
        river_granted E (pinNumNodes dm (maxAcquireMtn s1)) (min dr (maxAcquireRvr s)) s1)"

lemma served_round_progress:
  assumes "river_served E om numPods t s" and "doGetNewNodes E (manager_service om E) s = Ok s'"
    and "0 \<le> TotalRvrNodes t" and "TotalRvrNodes t < 2 ^ 40" and "0 < maxAcquireRvr s"
    and "num_rvr s < TotalRvrNodes t div max numPods 1 + 1"
  shows "num_rvr s' = min (TotalRvrNodes t div max numPods 1 + 1) (num_rvr s + maxAcquireRvr s)"
proof -
  let ?share = "TotalRvrNodes t div max numPods 1 + 1"
  have "?share \<le> 2 ^ 40" using ideal_num_eq [OF assms(3,4), of numPods] by simp
  then have n: "num_rvr s < 2 ^ 53" using assms(6) by simp
  have "fst (getNumActiveNodePods E s) = (numPods, None)"
    and "fst (getCurrentTargets om E (snd (getNumActiveNodePods E s))) = (Some t, None)"
    using assms(1) by (simp_all add: river_served_def)
  from calc_share [OF this assms(3,4) n] assms(6)
  obtain dm s1 where calc: "calcChangeInNodes E (manager_service om E) s = Ok ((dm, ?share - num_rvr s), s1)"
    by (auto simp: Let_def)
  have "doGetNewNodes_locked E (manager_service om E) s = Ok s'"
    using assms(1,2) by (simp add: doGetNewNodes_def river_served_def)
  from round_progress [OF this calc] assms(1,5,6) calc show ?thesis by (simp add: river_served_def min_def)
qed

end
