(* ===== verification/Heartbeat.thy ===== *)
theory Heartbeat
  imports Node_Watch
begin

text \<open>
  The heartbeat of \<^verbatim>\<open>data.go\<close>: the pod tells console-data which nodes it monitors and
  gives up those that console-data answers it no longer owns.
\<close>

record hb_vars = rot_vars +
  lastHeartbeatTime :: string
  heartbeatIntervalSecs :: int

definition toNodeConsoleInfo :: "nodeConsoleInfo \<Rightarrow> NodeConsoleInfo" where
  "toNodeConsoleInfo ni =
     \<lparr>NodeName = NodeName ni, BmcName = BmcName ni, BmcFqdn = BmcFqdn ni, Class = Class ni,
      NID = NID ni, Role = Role ni, NodeConsoleName = []\<rparr>"

text \<open>The nodes in the order of the loop over the three maps.\<close>

definition all_values :: "'e env_scheme \<Rightarrow> string \<Rightarrow> 'p node_vars_scheme \<Rightarrow> nodeConsoleInfo list" where
  "all_values E site s =
     map (\<lambda>k. the (map_of (currentRvrNodes s) k)) (range_keys E (site @ ''.rvr'') (currentRvrNodes s) s) @
     map (\<lambda>k. the (map_of (currentPdsNodes s) k)) (range_keys E (site @ ''.pds'') (currentPdsNodes s) s) @
     map (\<lambda>k. the (map_of (currentMtnNodes s) k)) (range_keys E (site @ ''.mtn'') (currentMtnNodes s) s)"

definition heartBeatPayload :: "'e env_scheme \<Rightarrow> PodLocationDataResponse \<Rightarrow> 'p node_vars_scheme \<Rightarrow> nodeConsoleInfoHeartBeat" where
  "heartBeatPayload E loc s =
     \<lparr>CurrNodes = map toNodeConsoleInfo (all_values E ''sendSingleHeartbeat'' s), PodLocation = Xname loc\<rparr>"

definition release_dropped :: "nodeConsoleInfo list \<Rightarrow> 'p node_vars_scheme \<Rightarrow> 'p node_vars_scheme" where
  "release_dropped droppedNodes s = fold (\<lambda>ni t. snd (releaseNode (NodeName ni) t)) droppedNodes s"

definition sendSingleHeartbeat :: "'e env_scheme \<Rightarrow> 'p hb_vars_scheme \<Rightarrow> 'p hb_vars_scheme outcome" where
  "sendSingleHeartbeat E s =
     (case podLocData s of
        None \<Rightarrow> Panic NilDeref
      | Some loc \<Rightarrow>
          (let data = Json (json_heartbeat (heartBeatPayload E loc s));
               s1 = s\<lparr>lastHeartbeatTime := now E (trace s)\<rparr>
           in case postURL E (consolepod_url ''heartbeat'' s) data [] s1 of
                ((None, _, _), s2) \<Rightarrow> Ok s2
              | ((Some rb, _, _), s2) \<Rightarrow>
                  (case unmarshal_nodes rb of (droppedNodes, bad) \<Rightarrow>
                     if bad then Ok s2
                     else if droppedNodes \<noteq> [] then signalConmanTERM (release_dropped droppedNodes s2)
                     else Ok s2)))"

text \<open>One turn of \<^verbatim>\<open>doHeartbeat\<close>.\<close>

definition doHeartbeat_turn :: "'e env_scheme \<Rightarrow> 'p hb_vars_scheme \<Rightarrow> 'p hb_vars_scheme outcome" where
  "doHeartbeat_turn E s =
     (case sendSingleHeartbeat E s of
        Panic p \<Rightarrow> Panic p
      | Ok s1 \<Rightarrow> Ok (emit (Sleep (heartbeatIntervalSecs s1)) s1))"

section \<open>Lemmas\<close>

text \<open>What console-data reads from a heartbeat entry is the node itself.\<close>

lemma dec_heartbeat_node:
  "int64 (NID n) \<Longrightarrow> dec_node (json_NodeConsoleInfo (toNodeConsoleInfo n)) zero_node = (n, False)"
  by (simp add: dec_node_def dec_struct_def json_NodeConsoleInfo_def toNodeConsoleInfo_def zero_node_def
      dec_string_def dec_int_def atoi_itoa)

lemma all_values_mset: "pools_ok s \<Longrightarrow> mset (all_values E site s) = held_nodes s"
  unfolding all_values_def held_nodes_def mtn_pds_nodes_def mset_append
  by (simp only: range_values_mset pools_ok_def pool_ok_def ac_simps)

lemma release_dropped_keeps:
  "(\<And>k s. I s \<Longrightarrow> I (snd (releaseNode k s))) \<Longrightarrow> I s \<Longrightarrow> I (release_dropped ns s)"
  unfolding release_dropped_def by (induction ns arbitrary: s) simp_all

lemma release_dropped_ok [go_wf]:
  "pools_ok s \<Longrightarrow> pools_ok (release_dropped ns s)"
  "tails_held s \<Longrightarrow> tails_held (release_dropped ns s)"
  "tails_ok s \<Longrightarrow> tails_ok (release_dropped ns s)"
  by (rule release_dropped_keeps, simp_all add: releaseNode_ok)+

lemma drop_disjoint:
  assumes "pools_disjoint s"
  shows "pools_disjoint (drop_rvr x s)" and "pools_disjoint (drop_mtn x s)" and "pools_disjoint (drop_pds x s)"
    and "pools_disjoint (stopTailing x s)"
  using assms unfolding pools_disjoint_def by (simp_all add: gm_keys_delete) blast+

lemma releaseNode_disjoint: "pools_disjoint s \<Longrightarrow> pools_disjoint (snd (releaseNode x s))"
  by (simp add: releaseNode_def drop_disjoint)

lemma release_dropped_held:
  "pools_disjoint s \<Longrightarrow>
     held (release_dropped ns s) = held s - NodeName ` set ns \<and> pools_disjoint (release_dropped ns s)"
  unfolding release_dropped_def
  by (induction ns arbitrary: s) (auto simp: releaseNode_held releaseNode_disjoint)

text \<open>The request, the nodes the answer takes away, and the heartbeat in terms of them.\<close>

definition heartbeat_request :: "'e env_scheme \<Rightarrow> PodLocationDataResponse \<Rightarrow> 'p node_vars_scheme \<Rightarrow> http_request" where
  "heartbeat_request E loc s =
     Request ''POST'' (consolepod_url ''heartbeat'' s) [(''Content-Type'', ''application/json'')]
       (Some (Json (json_heartbeat (heartBeatPayload E loc s))))"

definition dropped_nodes :: "http_outcome \<Rightarrow> nodeConsoleInfo list" where
  "dropped_nodes r =
     (case r of
        Response sc b \<Rightarrow> (case unmarshal_nodes b of (ns, bad) \<Rightarrow> if bad then [] else ns)
      | _ \<Rightarrow> [])"

lemma sendSingleHeartbeat_eq:
  assumes "podLocData s = Some loc"
  shows "sendSingleHeartbeat E s =
    (let req = heartbeat_request E loc s; ns = dropped_nodes (net E (trace s) req);
         s2 = s\<lparr>lastHeartbeatTime := now E (trace s), trace := trace s @ http_events E req (trace s)\<rparr>
     in if ns = [] then Ok s2 else signalConmanTERM (release_dropped ns s2))"
proof (cases "net E (trace s) (heartbeat_request E loc s)")
  case (Response sc b)
  obtain ns bad where "unmarshal_nodes b = (ns, bad)" by fastforce
  with Response assms show ?thesis
    by (simp add: sendSingleHeartbeat_def client_eqs heartbeat_request_def dropped_nodes_def Let_def http_result_def)
qed (use assms in \<open>simp_all add: sendSingleHeartbeat_def client_eqs heartbeat_request_def dropped_nodes_def Let_def http_result_def\<close>)

lemma heartbeat_cases:
  assumes "sendSingleHeartbeat E s = Ok s'"
  obtains loc t where "podLocData s = Some loc" and "s' = s\<lparr>lastHeartbeatTime := now E (trace s), trace := trace s @ t\<rparr>"
      and "t = http_events E (heartbeat_request E loc s) (trace s)"
      and "dropped_nodes (net E (trace s) (heartbeat_request E loc s)) = []"
  | loc t ns where "podLocData s = Some loc" and "ns \<noteq> []"
    and "signalConmanTERM (release_dropped ns (s\<lparr>lastHeartbeatTime := now E (trace s), trace := trace s @ t\<rparr>)) = Ok s'"
    and "t = http_events E (heartbeat_request E loc s) (trace s)"
    and "ns = dropped_nodes (net E (trace s) (heartbeat_request E loc s))"
proof -
  obtain loc where loc: "podLocData s = Some loc"
    using assms by (auto simp: sendSingleHeartbeat_def split: option.splits)
  show thesis
  proof (cases "dropped_nodes (net E (trace s) (heartbeat_request E loc s)) = []")
    case True
    then show thesis using assms by (intro that(1) [OF loc _ refl]) (simp_all add: sendSingleHeartbeat_eq [OF loc] Let_def)
  next
    case False
    then show thesis using assms by (intro that(2) [OF loc False _ refl refl]) (simp add: sendSingleHeartbeat_eq [OF loc] Let_def)
  qed
qed

lemma hb_time_ok [simp]:
  "pools_ok (s\<lparr>lastHeartbeatTime := x\<rparr>) = pools_ok s" "tails_held (s\<lparr>lastHeartbeatTime := x\<rparr>) = tails_held s"
  "held (s\<lparr>lastHeartbeatTime := x\<rparr>) = held s" "pools_disjoint (s\<lparr>lastHeartbeatTime := x\<rparr>) = pools_disjoint s"
  "tails_ok (s\<lparr>lastHeartbeatTime := x\<rparr>) = tails_ok s"
  by (simp_all add: pools_ok_def tails_held_def held_def pools_disjoint_def tails_ok_def)

lemma heartbeat_keeps:
  assumes "sendSingleHeartbeat E s = Ok s'" and "I s"
    and "\<And>s t x. I s \<Longrightarrow> I (s\<lparr>lastHeartbeatTime := x, trace := t\<rparr>)"
    and "\<And>s t. I s \<Longrightarrow> I (s\<lparr>trace := t\<rparr>)"
    and "\<And>k s. I s \<Longrightarrow> I (snd (releaseNode k s))"
  shows "I s'"
  using assms(1)
proof (cases rule: heartbeat_cases)
  case (1 loc t)
  show ?thesis unfolding 1(2) by (rule assms(3) [OF assms(2)])
next
  case (2 loc t ns)
  let ?s = "release_dropped ns (s\<lparr>lastHeartbeatTime := now E (trace s), trace := trace s @ t\<rparr>)"
  have "I ?s" by (rule release_dropped_keeps [where I = I, OF assms(5) assms(3) [OF assms(2)]])
  moreover obtain u where "s' = ?s\<lparr>trace := trace ?s @ u\<rparr>" using signalConmanTERM_Ok [OF 2(3)] by blast
  ultimately show ?thesis using assms(4) by (simp only:)
qed

lemma sendSingleHeartbeat_ok [go_wf]:
  assumes "sendSingleHeartbeat E s = Ok s'"
  shows "pools_ok s \<Longrightarrow> pools_ok s'" and "tails_held s \<Longrightarrow> tails_held s'" and "tails_ok s \<Longrightarrow> tails_ok s'"
    and "pools_disjoint s \<Longrightarrow> pools_disjoint s'"
  by (rule heartbeat_keeps [OF assms], simp_all add: releaseNode_ok releaseNode_disjoint)+

lemma release_dropped_later [simp]: "later s s' \<Longrightarrow> later s (release_dropped ns s')"
  by (rule release_dropped_keeps) (simp_all add: releaseNode_def)

lemma release_dropped_command [simp]: "command (release_dropped ns s) = command s"
  by (rule release_dropped_keeps [where I = "\<lambda>x. command x = command s"]) (simp_all add: releaseNode_def)

lemma releaseNode_tails: "gm_keys (tailThreads (snd (releaseNode x s))) = gm_keys (tailThreads s) - {x}"
  by (simp add: releaseNode_def stopTailing_keys)

lemma release_dropped_tails:
  "gm_keys (tailThreads (release_dropped ns s)) = gm_keys (tailThreads s) - NodeName ` set ns"
  unfolding release_dropped_def by (induction ns arbitrary: s) (auto simp: releaseNode_tails)

text \<open>The request is the first event, and what is held afterwards.\<close>

lemma heartbeat_trace:
  assumes "sendSingleHeartbeat E s = Ok s'" and "podLocData s = Some loc"
  shows "\<exists>t. trace s' = trace s @ http_events E (heartbeat_request E loc s) (trace s) @ t"
  using assms(1)
proof (cases rule: heartbeat_cases)
  case (2 loc' t ns)
  let ?s = "s\<lparr>lastHeartbeatTime := now E (trace s), trace := trace s @ t\<rparr>"
  have "later ?s (release_dropped ns ?s)" by simp
  then obtain u where "trace (release_dropped ns ?s) = trace s @ t @ u" by (auto simp: later_def)
  with signalConmanTERM_Ok [OF 2(3)] 2(1,4) assms(2) show ?thesis by auto
qed (use assms(2) in auto)

lemma heartbeat_held:
  assumes "sendSingleHeartbeat E s = Ok s'" and "podLocData s = Some loc" and "pools_disjoint s"
  shows "held s' = held s - NodeName ` set (dropped_nodes (net E (trace s) (heartbeat_request E loc s)))"
  using assms(1)
proof (cases rule: heartbeat_cases)
  case (1 loc' t)
  then show ?thesis using assms(2) by simp
next
  case (2 loc' t ns)
  let ?s = "s\<lparr>lastHeartbeatTime := now E (trace s), trace := trace s @ t\<rparr>"
  have "held (release_dropped ns ?s) = held s - NodeName ` set ns"
    using release_dropped_held [of ?s ns] assms(3) by simp
  with signalConmanTERM_Ok [OF 2(3)] 2(1,5) assms(2) show ?thesis by auto
qed

end
