(* ===== verification/Sha256.thy ===== *)
theory Sha256
  imports Go_Prelude "HOL-Library.Word"
begin

text \<open>
  What \<^verbatim>\<open>creds.go\<close> uses of \<^verbatim>\<open>crypto/sha256\<close>: the digest of a string, as FIPS 180-4
  defines it.  Writing to the hash never fails, so \<^verbatim>\<open>hashString\<close> has no error branch that
  can be taken.
\<close>

unbundle bit_operations_syntax

definition sha_K :: "32 word list" where
  "sha_K =
     [0x428A2F98, 0x71374491, 0xB5C0FBCF, 0xE9B5DBA5, 0x3956C25B, 0x59F111F1, 0x923F82A4, 0xAB1C5ED5,
      0xD807AA98, 0x12835B01, 0x243185BE, 0x550C7DC3, 0x72BE5D74, 0x80DEB1FE, 0x9BDC06A7, 0xC19BF174,
      0xE49B69C1, 0xEFBE4786, 0x0FC19DC6, 0x240CA1CC, 0x2DE92C6F, 0x4A7484AA, 0x5CB0A9DC, 0x76F988DA,
      0x983E5152, 0xA831C66D, 0xB00327C8, 0xBF597FC7, 0xC6E00BF3, 0xD5A79147, 0x06CA6351, 0x14292967,
      0x27B70A85, 0x2E1B2138, 0x4D2C6DFC, 0x53380D13, 0x650A7354, 0x766A0ABB, 0x81C2C92E, 0x92722C85,
      0xA2BFE8A1, 0xA81A664B, 0xC24B8B70, 0xC76C51A3, 0xD192E819, 0xD6990624, 0xF40E3585, 0x106AA070,
      0x19A4C116, 0x1E376C08, 0x2748774C, 0x34B0BCB5, 0x391C0CB3, 0x4ED8AA4A, 0x5B9CCA4F, 0x682E6FF3,
      0x748F82EE, 0x78A5636F, 0x84C87814, 0x8CC70208, 0x90BEFFFA, 0xA4506CEB, 0xBEF9A3F7, 0xC67178F2]"

definition sha_H0 :: "32 word list" where
  "sha_H0 =
     [0x6A09E667, 0xBB67AE85, 0x3C6EF372, 0xA54FF53A, 0x510E527F, 0x9B05688C, 0x1F83D9AB, 0x5BE0CD19]"

definition rotr32 :: "nat \<Rightarrow> 32 word \<Rightarrow> 32 word" where
  "rotr32 n w = drop_bit n w OR push_bit (32 - n) w"

text \<open>Padding: the bit 1, zeros up to eight bytes short of a block, the length in bits.\<close>

definition sha_pad :: "int list \<Rightarrow> int list" where
  "sha_pad m =
     m @ [128] @ replicate ((119 - length m mod 64) mod 64) 0 @
     map (\<lambda>i. (8 * int (length m) div 256 ^ i) mod 256) [7, 6, 5, 4, 3, 2, 1, 0]"

fun be_words :: "int list \<Rightarrow> 32 word list" where
  "be_words (a # b # c # d # bs) =
     word_of_int (((a * 256 + b) * 256 + c) * 256 + d) # be_words bs"
| "be_words _ = []"

text \<open>The message schedule, kept as the last sixteen words, newest first.\<close>

definition sha_next :: "32 word list \<Rightarrow> 32 word" where
  "sha_next w =
     (let w2 = w ! 1; w7 = w ! 6; w15 = w ! 14; w16 = w ! 15;
          s0 = rotr32 7 w15 XOR rotr32 18 w15 XOR drop_bit 3 w15;
          s1 = rotr32 17 w2 XOR rotr32 19 w2 XOR drop_bit 10 w2
      in w16 + s0 + w7 + s1)"

fun sha_schedule :: "nat \<Rightarrow> 32 word list \<Rightarrow> 32 word list" where
  "sha_schedule 0 w = []"
| "sha_schedule (Suc n) w = (let x = sha_next w in x # sha_schedule n (take 16 (x # w)))"

fun sha_round :: "32 word \<times> 32 word \<Rightarrow> 32 word list \<Rightarrow> 32 word list" where
  "sha_round (k, w) [a, b, c, d, e, f, g, h] =
     (let S1 = rotr32 6 e XOR rotr32 11 e XOR rotr32 25 e;
          ch = (e AND f) XOR (NOT e AND g);
          t1 = h + S1 + ch + k + w;
          S0 = rotr32 2 a XOR rotr32 13 a XOR rotr32 22 a;
          maj = (a AND b) XOR (a AND c) XOR (b AND c)
      in [t1 + S0 + maj, a, b, c, d + t1, e, f, g])"
| "sha_round _ st = st"

definition sha_block :: "32 word list \<Rightarrow> 32 word list \<Rightarrow> 32 word list" where
  "sha_block block H =
     map2 (+) H (fold sha_round (zip sha_K (block @ sha_schedule 48 (rev block))) H)"

fun sha_blocks :: "nat \<Rightarrow> 32 word list \<Rightarrow> 32 word list \<Rightarrow> 32 word list" where
  "sha_blocks 0 ws H = H"
| "sha_blocks (Suc n) ws H = sha_blocks n (drop 16 ws) (sha_block (take 16 ws) H)"

definition be_bytes :: "32 word \<Rightarrow> int list" where
  "be_bytes w = map (\<lambda>i. (uint w div 256 ^ i) mod 256) [3, 2, 1, 0]"

definition sha256 :: "int list \<Rightarrow> int list" where
  "sha256 m =
     (let ws = be_words (sha_pad m)
      in concat (map be_bytes (sha_blocks (length ws div 16) ws sha_H0)))"

definition hashString :: "string \<Rightarrow> int list" where
  "hashString s = sha256 (map of_char s)"

section \<open>Lemmas\<close>

lemma length_sha_pad: "length (sha_pad m) mod 64 = 0"
proof -
  define r where "r = length m mod 64"
  have "length (sha_pad m) = length m + (119 - r) mod 64 + 9"
    by (simp add: sha_pad_def r_def)
  moreover have "(r + (119 - r) mod 64 + 9) mod 64 = 0"
  proof (cases "r < 56")
    case True
    then have "(119 - r) mod 64 = 55 - r" by (simp add: mod_if)
    then show ?thesis using True by simp
  next
    case False
    moreover have "r < 64" by (simp add: r_def)
    ultimately have "(119 - r) mod 64 = 119 - r" by simp
    then show ?thesis using False \<open>r < 64\<close> by simp
  qed
  ultimately show ?thesis
    by (metis (no_types, opaque_lifting) add.assoc mod_add_left_eq r_def)
qed

text \<open>A digest has 32 bytes.\<close>

lemma length_sha_round: "length (sha_round kw st) = length st"
  by (cases "(kw, st)" rule: sha_round.cases) (simp_all add: Let_def)

lemma length_fold_sha_round: "length (fold sha_round kws st) = length st"
  by (induction kws arbitrary: st) (simp_all add: length_sha_round)

lemma length_sha_blocks: "length (sha_blocks n ws H) = length H"
  by (induction n ws H rule: sha_blocks.induct) (simp_all add: sha_block_def length_fold_sha_round)

lemma length_hashString [simp]: "length (hashString s) = 32"
  by (simp add: hashString_def sha256_def Let_def length_concat comp_def be_bytes_def sum_list_triv
      length_sha_blocks sha_H0_def)

lemma hashString_nonempty [simp]: "hashString s \<noteq> []"
  by (metis length_hashString length_0_conv zero_neq_numeral)

end
