(* ===== verification/Creds.thy ===== *)
theory Creds
  imports Heartbeat Sha256
begin

text \<open>
  \<^verbatim>\<open>creds.go\<close>: the BMC passwords and the Mountain console key, both from Vault.  The
  packages \<^verbatim>\<open>hms-securestorage\<close>, \<^verbatim>\<open>hms-compcredentials\<close> and \<^verbatim>\<open>gjson\<close> are fields of the
  surroundings: whether an adapter can be made, the map of credentials a query returns
  (\<open>None\<close> for an error) and the text at a path of a response body.  \<open>io_copied\<close> is how far a
  failing \<^verbatim>\<open>io.Copy\<close> gets.  The last two globals of
  the service, the passwords and the key hash seen last, complete the state.
\<close>

record CompCredentials =
  cc_Xname :: string
  cc_URL :: string
  Username :: string
  Password :: string
  SNMPAuthPass :: string
  SNMPPrivPass :: string

definition zero_creds :: CompCredentials where
  "zero_creds = \<lparr>cc_Xname = [], cc_URL = [], Username = [], Password = [], SNMPAuthPass = [], SNMPPrivPass = []\<rparr>"

record cred_env = env +
  NewVaultAdapter_fails :: "event list \<Rightarrow> bool"
  GetCompCreds :: "event list \<Rightarrow> string list \<Rightarrow> CompCredentials gomap option"
  io_copied :: "event list \<Rightarrow> nat"
  gjson_Get :: "body \<Rightarrow> string \<Rightarrow> string"

record cred_vars = hb_vars +
  previousPasswords :: "CompCredentials gomap option" \<comment> \<open>\<open>None\<close> is the nil map\<close>
  previousPrivateKeyHash :: "int list option" \<comment> \<open>\<open>None\<close> is the nil slice\<close>

definition mountainConsoleKey :: string where
  "mountainConsoleKey = ''/app/conman.key''"

definition svcAcctTokenFile :: string where
  "svcAcctTokenFile = ''/var/run/secrets/kubernetes.io/serviceaccount/token''"

section \<open>Passwords\<close>

definition getPasswords ::
  "'e cred_env_scheme \<Rightarrow> string list \<Rightarrow> 'p pod_scheme \<Rightarrow> (CompCredentials gomap option \<times> 'p pod_scheme) outcome" where
  "getPasswords E bmcXNames s =
     (if debugOnly s then Ok (None, s)
      else if NewVaultAdapter_fails E (trace s) then Panic (LogPanic ''Error: NewVaultAdapter'')
      else
        (case GetCompCreds E (trace s) bmcXNames of
           None \<Rightarrow> Panic (LogPanic ''Error: GetCompCreds'')
         | Some ccreds \<Rightarrow> Ok (Some ccreds, emit (OsCall ''GetCompCreds'' ''hms-creds'') s)))"

text \<open>Looking up in a map that may be nil.\<close>

definition lookup_creds :: "CompCredentials gomap option \<Rightarrow> string \<Rightarrow> CompCredentials option" where
  "lookup_creds passwords nn = Option.bind passwords (\<lambda>m. map_of m nn)"

definition found_all :: "CompCredentials gomap option \<Rightarrow> string list \<Rightarrow> bool" where
  "found_all passwords bmcXNames \<longleftrightarrow> (\<forall>nn \<in> set bmcXNames. lookup_creds passwords nn \<noteq> None)"

text \<open>The loop, with the number of tries that are left.\<close>

fun password_tries ::
  "'e cred_env_scheme \<Rightarrow> string list \<Rightarrow> int \<Rightarrow> nat \<Rightarrow> CompCredentials gomap option \<Rightarrow> 'p pod_scheme \<Rightarrow>
     (CompCredentials gomap option \<times> 'p pod_scheme) outcome" where
  "password_tries E bmcXNames waitSecs 0 passwords s = Ok (passwords, s)"
| "password_tries E bmcXNames waitSecs (Suc n) passwords s =
     (case getPasswords E bmcXNames s of
        Panic p \<Rightarrow> Panic p
      | Ok (pw, s1) \<Rightarrow>
          if found_all pw bmcXNames then Ok (pw, s1)
          else password_tries E bmcXNames waitSecs n pw (emit (Sleep waitSecs) s1))"

definition getPasswordsWithRetries ::
  "'e cred_env_scheme \<Rightarrow> string list \<Rightarrow> int \<Rightarrow> int \<Rightarrow> 'p pod_scheme \<Rightarrow>
     (CompCredentials gomap option \<times> 'p pod_scheme) outcome" where
  "getPasswordsWithRetries E bmcXNames maxTries waitSecs s =
     password_tries E bmcXNames waitSecs (nat maxTries) None s"

section \<open>The Mountain console key\<close>

definition vault_base :: "'e env_scheme \<Rightarrow> string" where
  "vault_base E = (let v = getenv E ''VAULT_URL'' in if v = [] then ''http://cray-vault.vault:8200/v1'' else v)"

definition vaultBmcKeyName :: "'e env_scheme \<Rightarrow> string" where
  "vaultBmcKeyName E = (let v = getenv E ''VAULT_BMC_KEY_NAME'' in if v = [] then ''mountain-bmc-console'' else v)"

text \<open>\<^verbatim>\<open>gjson.Get(string(response), path).String()\<close>; nothing is found in an empty text.\<close>

definition gjson_string :: "'e cred_env_scheme \<Rightarrow> body option \<Rightarrow> string \<Rightarrow> string" where
  "gjson_string E response path = (case response of None \<Rightarrow> [] | Some b \<Rightarrow> gjson_Get E b path)"

type_synonym export_result = "string \<times> body option \<times> int \<times> go_error option"

definition vaultExportPrivateKey ::
  "'e cred_env_scheme \<Rightarrow> string \<Rightarrow> 'p pod_scheme \<Rightarrow> export_result \<times> 'p pod_scheme" where
  "vaultExportPrivateKey E vaultToken s =
     (case getURL E (vault_base E @ ''/transit/export/signing-key/'' @ vaultBmcKeyName E)
             [(''X-Vault-Token'', vaultToken)] s of
        ((response, responseCode, err), s1) \<Rightarrow>
          (if err \<noteq> None then ([], response, responseCode, err)
           else if responseCode = 404 then ([], response, 404, None)
           else if responseCode = 200 then
             (let pvtKey = gjson_string E response ''data.keys.1''
              in if pvtKey = [] then ([], response, responseCode, Some (ErrMissing ''data.keys.1''))
                 else (pvtKey, response, 200, None))
           else ([], response, responseCode, Some (ErrStatus responseCode)),
           s1))"

text \<open>
  The two waiting loops, one turn each: \<open>Inl\<close> leaves the loop.  Logging in ignores the error
  of the call and looks at the status only, and so does asking for the key.
\<close>

definition login_turn ::
  "'e cred_env_scheme \<Rightarrow> string \<Rightarrow> 'p pod_scheme \<Rightarrow> (string \<times> 'p pod_scheme) + 'p pod_scheme" where
  "login_turn E svcAcctToken s =
     (case postURL E (vault_base E @ ''/auth/kubernetes/login'')
             (Json (JObj [(''jwt'', JStr svcAcctToken), (''role'', JStr ''ssh-user-certs-compute'')])) [] s of
        ((response, responseCode, _), s1) \<Rightarrow>
          if responseCode = 200 then Inl (gjson_string E response ''auth.client_token'', s1)
          else Inr (emit (Sleep 15) s1))"

definition key_turn ::
  "'e cred_env_scheme \<Rightarrow> string \<Rightarrow> bool \<times> 'p cred_vars_scheme \<Rightarrow>
     (bool \<times> 'p cred_vars_scheme) + (bool \<times> 'p cred_vars_scheme)" where
  "key_turn E vaultToken rs =
     (case rs of (retVal, s) \<Rightarrow>
       (case vaultExportPrivateKey E vaultToken s of
          ((pvtKey, _, responseCode, _), s1) \<Rightarrow>
            if responseCode = 200 then
              (let newHash = hashString pvtKey
               in if previousPrivateKeyHash s1 \<noteq> Some newHash then
                    (let s2 = s1\<lparr>previousPrivateKeyHash := Some newHash\<rparr>
                     in if os_fails E (trace s2) ''WriteFile'' mountainConsoleKey \<or> is_directory (files s2 mountainConsoleKey)
                        then Inr (True, emit (OsCall ''WriteFile'' mountainConsoleKey) s2)
                        else Inl (True, write_file E mountainConsoleKey 0x180 pvtKey s2)) \<comment> \<open>octal 600\<close>
                  else Inl (retVal, s1))
            else Inr (retVal, emit (Sleep 5) s1)))"

definition fetch_key ::
  "'e cred_env_scheme \<Rightarrow> string \<Rightarrow> 'p cred_vars_scheme \<Rightarrow> (bool \<times> 'p cred_vars_scheme) option" where
  "fetch_key E svcAcctToken s =
     Option.bind (retry (login_turn E svcAcctToken) s)
       (\<lambda>(vaultToken, s1). retry (key_turn E vaultToken) (False, s1))"

text \<open>\<open>None\<close>: Vault never answers and the function never returns.\<close>

definition ensureMountainConsoleKeysPresent ::
  "'e cred_env_scheme \<Rightarrow> 'p cred_vars_scheme \<Rightarrow> (bool \<times> 'p cred_vars_scheme) option" where
  "ensureMountainConsoleKeysPresent E s =
     (if debugOnly s then Some (False, s)
      else if currentMtnNodes s = [] then Some (False, s)
      else
        (case (os_fails E (trace s) ''ReadFile'' svcAcctTokenFile, files s svcAcctTokenFile) of
           (False, Some (RegFile _ svcAcctToken)) \<Rightarrow> fetch_key E svcAcctToken s
         | _ \<Rightarrow> Some (False, s)))"

section \<open>Lemmas\<close>

lemma getPasswords_state: "getPasswords E xs s = Ok (pw, s') \<Longrightarrow> \<exists>t. s' = s\<lparr>trace := trace s @ t\<rparr>"
  by (auto simp: getPasswords_def emit_def split: if_splits option.splits intro: exI [of _ "[]"])

lemma password_tries_state:
  "password_tries E xs w n pw0 s = Ok (pw, s') \<Longrightarrow> \<exists>t. s' = s\<lparr>trace := trace s @ t\<rparr>"
proof (induction n arbitrary: pw0 s)
  case 0
  then show ?case by (auto intro: exI [of _ "[]"])
next
  case (Suc n)
  then obtain pw1 s1 where g: "getPasswords E xs s = Ok (pw1, s1)"
    by (auto split: outcome.splits)
  then obtain t where t: "s1 = s\<lparr>trace := trace s @ t\<rparr>" using getPasswords_state by blast
  show ?case
  proof (cases "found_all pw1 xs")
    case True
    then show ?thesis using Suc.prems g t by auto
  next
    case False
    then have "password_tries E xs w n pw1 (emit (Sleep w) s1) = Ok (pw, s')" using Suc.prems g by simp
    then obtain u where "s' = (emit (Sleep w) s1)\<lparr>trace := trace (emit (Sleep w) s1) @ u\<rparr>"
      using Suc.IH by blast
    then have "s' = s\<lparr>trace := trace s @ (t @ Sleep w # u)\<rparr>" by (simp add: t emit_def)
    then show ?thesis by blast
  qed
qed

text \<open>
  Fewer than all passwords come back only after every try has failed; each failed try waits.
\<close>

lemma password_tries_found:
  assumes "password_tries E xs w n pw0 s = Ok (pw, s')" and "\<not> found_all pw xs" and "0 < n"
  shows "\<exists>t. trace s' = trace s @ t \<and> length (filter ((=) (Sleep w)) t) = n"
  using assms
proof (induction n arbitrary: pw0 s)
  case (Suc n)
  obtain pw1 s1 where g: "getPasswords E xs s = Ok (pw1, s1)" using Suc.prems by (auto split: outcome.splits)
  have "trace s1 = trace s \<or> trace s1 = trace s @ [OsCall ''GetCompCreds'' ''hms-creds'']"
    using g by (auto simp: getPasswords_def split: if_splits option.splits)
  then obtain u where u: "trace s1 = trace s @ u" "filter ((=) (Sleep w)) u = []" by fastforce
  have nf: "\<not> found_all pw1 xs" using Suc.prems g by (auto split: if_splits)
  let ?s = "emit (Sleep w) s1"
  have rest: "password_tries E xs w n pw1 ?s = Ok (pw, s')" using Suc.prems g nf by simp
  show ?case
  proof (cases n)
    case 0
    then show ?thesis using rest u by (intro exI [of _ "u @ [Sleep w]"]) auto
  next
    case (Suc m)
    then obtain t where "trace s' = trace ?s @ t" "length (filter ((=) (Sleep w)) t) = n"
      using Suc.IH [OF rest Suc.prems(2)] by auto
    then show ?thesis using u by (intro exI [of _ "u @ [Sleep w] @ t"]) auto
  qed
qed simp

subsection \<open>The key\<close>

text \<open>What looking for the key may change: the trace, the key file and the remembered hash.\<close>

definition key_frame :: "'p cred_vars_scheme \<Rightarrow> 'p cred_vars_scheme \<Rightarrow> bool" where
  "key_frame s s' \<longleftrightarrow>
     (\<exists>t f h. s' = s\<lparr>files := (files s)(mountainConsoleKey := f), trace := trace s @ t, previousPrivateKeyHash := h\<rparr>)"

lemma key_frame_trace: "key_frame s (s\<lparr>trace := trace s @ t\<rparr>)"
  unfolding key_frame_def
  by (intro exI [of _ t] exI [of _ "files s mountainConsoleKey"] exI [of _ "previousPrivateKeyHash s"]) simp

lemma key_frame_refl: "key_frame s s"
  using key_frame_trace [of s "[]"] by simp

lemma key_frame_trans: "key_frame s s1 \<Longrightarrow> key_frame s1 s2 \<Longrightarrow> key_frame s s2"
  unfolding key_frame_def by (elim exE) (simp, blast)

lemma vaultExportPrivateKey_state: "\<exists>t. snd (vaultExportPrivateKey E tok s) = s\<lparr>trace := trace s @ t\<rparr>"
  by (auto simp: vaultExportPrivateKey_def client_eqs split: prod.split)

text \<open>An answer with status 200 is taken as a key, an empty one too.\<close>

lemma key_turn_cases:
  obtains (wait) t where "key_turn E tok (r, s) = Inr (r, s\<lparr>trace := trace s @ t\<rparr>)"
  | (same) t k where "key_turn E tok (r, s) = Inl (r, s\<lparr>trace := trace s @ t\<rparr>)"
      and "previousPrivateKeyHash s = Some (hashString k)"
  | (failed) t k where "key_turn E tok (r, s) =
        Inr (True, s\<lparr>trace := trace s @ t, previousPrivateKeyHash := Some (hashString k)\<rparr>)"
      and "(\<exists>h. os_fails E h ''WriteFile'' mountainConsoleKey) \<or> is_directory (files s mountainConsoleKey)"
  | (written) t k m where "key_turn E tok (r, s) =
        Inl (True, s\<lparr>files := (files s)(mountainConsoleKey \<mapsto> RegFile m k), trace := trace s @ t,
          previousPrivateKeyHash := Some (hashString k)\<rparr>)"
proof -
  obtain k rb rc err s1 where v: "vaultExportPrivateKey E tok s = ((k, rb, rc, err), s1)"
    by (metis prod_cases4 surj_pair)
  obtain t where t: "s1 = s\<lparr>trace := trace s @ t\<rparr>" using vaultExportPrivateKey_state [of E tok s] v by auto
  define s2 where "s2 = s1\<lparr>previousPrivateKeyHash := Some (hashString k)\<rparr>"
  consider "rc \<noteq> 200" | "rc = 200" "previousPrivateKeyHash s1 = Some (hashString k)"
    | "rc = 200" "previousPrivateKeyHash s1 \<noteq> Some (hashString k)"
      "os_fails E (trace s2) ''WriteFile'' mountainConsoleKey \<or> is_directory (files s2 mountainConsoleKey)"
    | "rc = 200" "previousPrivateKeyHash s1 \<noteq> Some (hashString k)"
      "\<not> (os_fails E (trace s2) ''WriteFile'' mountainConsoleKey \<or> is_directory (files s2 mountainConsoleKey))"
    by blast
  then show thesis
  proof cases
    case 1
    show thesis by (rule wait [where t = "t @ [Sleep 5]"]) (simp add: key_turn_def v 1 t emit_def)
  next
    case 2
    show thesis by (rule same [where t = t and k = k]) (use 2 in \<open>simp_all add: key_turn_def v t\<close>)
  next
    case 3
    show thesis by (rule failed [where k = k and t = "t @ [OsCall ''WriteFile'' mountainConsoleKey]"])
        (use 3 in \<open>auto simp: key_turn_def v t Let_def s2_def emit_def\<close>)
  next
    case 4
    show thesis
      by (rule written [where k = k and t = "t @ [OsCall ''Write'' mountainConsoleKey]"
            and m = "case files s mountainConsoleKey of Some i \<Rightarrow> inode_mode i | None \<Rightarrow> mkdir_mode E 0x180"])
        (use 4 in \<open>simp add: key_turn_def v t Let_def s2_def emit_def write_file_def\<close>)
  qed
qed

text \<open>The key file holds the key whose hash is remembered.\<close>

definition key_synced :: "'p cred_vars_scheme \<Rightarrow> bool" where
  "key_synced s \<longleftrightarrow>
     (\<forall>h. previousPrivateKeyHash s = Some h \<longrightarrow>
        (\<exists>m k. files s mountainConsoleKey = Some (RegFile m k) \<and> hashString k = h))"

lemma key_turn_frame:
  "key_turn E tok rs = Inl rs' \<or> key_turn E tok rs = Inr rs' \<Longrightarrow> key_frame (snd rs) (snd rs')"
proof -
  assume *: "key_turn E tok rs = Inl rs' \<or> key_turn E tok rs = Inr rs'"
  obtain r s where rs: "rs = (r, s)" by fastforce
  show ?thesis
  proof (cases rule: key_turn_cases [of E tok r s])
    case (wait t)
    then show ?thesis using * rs key_frame_trace by auto
  next
    case (same t k)
    then show ?thesis using * rs key_frame_trace by auto
  next
    case (failed t k)
    then have "snd rs' = s\<lparr>files := (files s)(mountainConsoleKey := files s mountainConsoleKey), trace := trace s @ t,
        previousPrivateKeyHash := Some (hashString k)\<rparr>" using * rs by auto
    then show ?thesis unfolding key_frame_def rs snd_conv by blast
  next
    case (written t k m)
    then have "snd rs' = s\<lparr>files := (files s)(mountainConsoleKey \<mapsto> RegFile m k), trace := trace s @ t,
        previousPrivateKeyHash := Some (hashString k)\<rparr>" using * rs by auto
    then show ?thesis unfolding key_frame_def rs snd_conv by blast
  qed
qed

lemma login_frame: "login_turn E tok s = Inl (a, s') \<or> login_turn E tok s = Inr s' \<Longrightarrow> \<exists>t. s' = s\<lparr>trace := trace s @ t\<rparr>"
  by (auto simp: login_turn_def client_eqs emit_def split: prod.splits if_splits)

lemma login_loop_frame:
  assumes "retry (login_turn E tok) s = Some (a, s')"
  shows "\<exists>t. s' = s\<lparr>trace := trace s @ t\<rparr>"
proof -
  have "\<exists>t. snd (a, s') = s\<lparr>trace := trace s @ t\<rparr>"
    using assms
  proof (rule retry_result [where I = "\<lambda>x. \<exists>t. x = s\<lparr>trace := trace s @ t\<rparr>"])
    show "\<exists>t. s = s\<lparr>trace := trace s @ t\<rparr>" by (rule exI [of _ "[]"]) simp
    show "\<exists>t. y = s\<lparr>trace := trace s @ t\<rparr>"
      if "\<exists>t. x = s\<lparr>trace := trace s @ t\<rparr>" and "login_turn E tok x = Inr y" for x y
      using that login_frame [of E tok x undefined y] by auto
    show "\<exists>t. snd r = s\<lparr>trace := trace s @ t\<rparr>"
      if "\<exists>t. x = s\<lparr>trace := trace s @ t\<rparr>" and "login_turn E tok x = Inl r" for x r
      using that login_frame [of E tok x "fst r" "snd r"] by auto
  qed
  then show ?thesis by simp
qed

text \<open>What every turn of the key loop keeps, the whole function keeps.\<close>

lemma ensure_keeps:
  assumes "ensureMountainConsoleKeysPresent E s = Some (b, s')" and "Q False s"
    and trace_ok: "\<And>r s t. Q r s \<Longrightarrow> Q r (s\<lparr>trace := trace s @ t\<rparr>)"
    and turn: "\<And>tok r s r' s'. Q r s \<Longrightarrow> key_turn E tok (r, s) = Inl (r', s') \<or> key_turn E tok (r, s) = Inr (r', s') \<Longrightarrow> Q r' s'"
  shows "Q b s'"
proof (cases "\<exists>tok. fetch_key E tok s = Some (b, s')")
  case True
  then obtain tok vt s1 where l: "retry (login_turn E tok) s = Some (vt, s1)"
    and k: "retry (key_turn E vt) (False, s1) = Some (b, s')"
    by (auto simp: fetch_key_def bind_eq_Some_conv)
  obtain t where "s1 = s\<lparr>trace := trace s @ t\<rparr>" using login_loop_frame [OF l] by blast
  then have "Q False s1" using assms(2) trace_ok by simp
  have "(\<lambda>(r, x). Q r x) (b, s')"
    using k by (rule retry_result [where I = "\<lambda>(r, x). Q r x"]) (use \<open>Q False s1\<close> in \<open>auto intro: turn\<close>)
  then show ?thesis by simp
next
  case False
  then have "(b, s') = (False, s)"
    using assms(1) by (auto simp: ensureMountainConsoleKeysPresent_def split: if_splits bool.splits option.splits inode.splits)
  then show ?thesis using assms(2) by simp
qed

lemma ensure_frame:
  assumes "ensureMountainConsoleKeysPresent E s = Some (b, s')"
  shows "key_frame s s'"
  using assms
proof (rule ensure_keeps [where Q = "\<lambda>_. key_frame s"])
  show "key_frame s (x\<lparr>trace := trace x @ t\<rparr>)" if "key_frame s x" for x t
    using that key_frame_trans key_frame_trace by blast
  show "key_frame s y"
    if "key_frame s x" and "key_turn E tok (r, x) = Inl (r', y) \<or> key_turn E tok (r, x) = Inr (r', y)" for tok r x r' y
    using that key_frame_trans key_turn_frame [of E tok "(r, x)" "(r', y)"] by auto
qed (rule key_frame_refl)

lemma ensure_false:
  assumes "ensureMountainConsoleKeysPresent E s = Some (False, s')"
  shows "files s' = files s" and "previousPrivateKeyHash s' = previousPrivateKeyHash s"
proof -
  have "\<not> False \<longrightarrow> files s' = files s \<and> previousPrivateKeyHash s' = previousPrivateKeyHash s"
    using assms
  proof (rule ensure_keeps [where Q = "\<lambda>r x. \<not> r \<longrightarrow> files x = files s \<and> previousPrivateKeyHash x = previousPrivateKeyHash s"])
    fix tok r x r' y
    assume *: "\<not> r \<longrightarrow> files x = files s \<and> previousPrivateKeyHash x = previousPrivateKeyHash s"
      and turn: "key_turn E tok (r, x) = Inl (r', y) \<or> key_turn E tok (r, x) = Inr (r', y)"
    show "\<not> r' \<longrightarrow> files y = files s \<and> previousPrivateKeyHash y = previousPrivateKeyHash s"
      by (cases rule: key_turn_cases [of E tok r x]) (use * turn in auto)
  qed simp_all
  then show "files s' = files s" and "previousPrivateKeyHash s' = previousPrivateKeyHash s" by simp_all
qed

lemma ensure_synced:
  assumes "ensureMountainConsoleKeysPresent E s = Some (b, s')" and "key_synced s"
    and ok: "\<And>h. \<not> os_fails E h ''WriteFile'' mountainConsoleKey" and dir: "\<not> is_directory (files s mountainConsoleKey)"
  shows "key_synced s'"
proof -
  let ?Q = "\<lambda>x. key_synced x \<and> \<not> is_directory (files x mountainConsoleKey)"
  from assms(1) have "?Q s'"
  proof (rule ensure_keeps [where Q = "\<lambda>_. ?Q"])
    show "?Q s" using assms(2) dir by simp
    show "?Q (x\<lparr>trace := trace x @ t\<rparr>)" if "?Q x" for x :: "'a cred_vars_scheme" and t
      using that by (simp add: key_synced_def)
    show "?Q y"
      if x: "?Q x" and turn: "key_turn E tok (r, x) = Inl (r', y) \<or> key_turn E tok (r, x) = Inr (r', y)"
      for tok r x r' y
      by (cases rule: key_turn_cases [of E tok r x]) (use x turn ok in \<open>auto simp: key_synced_def\<close>)
  qed
  then show ?thesis by simp
qed

text \<open>The login, and a turn in which Vault refuses it.\<close>

definition vault_login :: "'e cred_env_scheme \<Rightarrow> string \<Rightarrow> http_request" where
  "vault_login E tok =
     Request ''POST'' (vault_base E @ ''/auth/kubernetes/login'') [(''Content-Type'', ''application/json'')]
       (Some (Json (JObj [(''jwt'', JStr tok), (''role'', JStr ''ssh-user-certs-compute'')])))"

lemma login_refused: "fst (snd (http_result (net E (trace s) (vault_login E tok)))) \<noteq> 200 \<Longrightarrow> \<exists>s'. login_turn E tok s = Inr s'"
  by (simp add: login_turn_def client_eqs vault_login_def case_prod_beta)

text \<open>
  The function returns when a login is answered in some turn and then the key is in some
  turn.
\<close>

lemma ensure_returns:
  assumes "\<not> debugOnly s" and "currentMtnNodes s \<noteq> []"
    and "\<not> os_fails E (trace s) ''ReadFile'' svcAcctTokenFile" and "files s svcAcctTokenFile = Some (RegFile m tok)"
    and "retry_state (login_turn E tok) i s = Some x" and "login_turn E tok x = Inl (vt, s1)"
    and "retry_state (key_turn E vt) j (False, s1) = Some y" and "key_turn E vt y = Inl (b, s')"
  shows "ensureMountainConsoleKeysPresent E s = Some (b, s')"
  using assms retry_returns [OF assms(5,6)] retry_returns [OF assms(7,8)]
  by (simp add: ensureMountainConsoleKeysPresent_def fetch_key_def)

lemma key_frame_ok:
  assumes "key_frame s s'"
  shows "pools_ok s' = pools_ok s" and "tails_held s' = tails_held s" and "tails_ok s' = tails_ok s"
    and "held s' = held s" and "pools_disjoint s' = pools_disjoint s" and "later s s'" and "command s' = command s"
    and "debugOnly s' = debugOnly s"
  using assms unfolding key_frame_def
  by (elim exE, simp add: pools_ok_def tails_held_def tails_ok_def held_def pools_disjoint_def later_def)+

end
