(* ===== verification/Conman_Config.thy ===== *)
theory Conman_Config
  imports Creds
begin

text \<open>
  The configuration half of \<^verbatim>\<open>conman.go\<close>: \<^verbatim>\<open>willUpdateConfig\<close>, \<^verbatim>\<open>updateConfigFile\<close>,
  \<^verbatim>\<open>configConman\<close> and one turn of \<^verbatim>\<open>runConman\<close>.  The lines that are logged while the file
  is written are part of the trace, because they must not carry passwords.
\<close>

definition baseConfFile :: string where
  "baseConfFile = ''/app/conman_base.conf''"

definition confFile :: string where
  "confFile = ''/etc/conman.conf''"

section \<open>The update flag\<close>

text \<open>What reading an open file yields; a directory can be opened but not read.\<close>

definition read_data :: "'e env_scheme \<Rightarrow> string \<Rightarrow> 'p pod_scheme \<Rightarrow> string option" where
  "read_data E path s =
     (case files s path of
        Some (RegFile _ c) \<Rightarrow> if os_fails E (trace s) ''Read'' path then None else Some c
      | _ \<Rightarrow> None)"

text \<open>
  The decision and the offset at which the file is left: the start, unless seeking back
  fails.
\<close>

definition willUpdateConfig :: "'e env_scheme \<Rightarrow> 'p pod_scheme \<Rightarrow> (bool \<times> nat) outcome" where
  "willUpdateConfig E s =
     (case read_data E baseConfFile s of
        None \<Rightarrow> Ok (False, 0)
      | Some c \<Rightarrow>
          if length c < 50 then Ok (False, length c)
          else
            (let buff = take 50 c; ss = ''UPDATE_CONFIG='';
                 off = (if os_fails E (trace s) ''Seek'' baseConfFile then 50 else 0)
             in case strings_Index buff ss of
                  None \<Rightarrow> Ok (False, off)
                | Some pos \<Rightarrow>
                    if pos > 0 then
                      (case byte_at (pos + length ss) buff of
                         Panic p \<Rightarrow> Panic p
                       | Ok v \<Rightarrow> Ok (v \<noteq> CHR ''F'' \<and> v \<noteq> CHR ''f'', off))
                    else Ok (False, off)))"

section \<open>The lines of the file\<close>

abbreviation dquote :: char where
  "dquote \<equiv> CHR 0x22"

definition rvr_line :: "nodeConsoleInfo \<Rightarrow> string \<Rightarrow> string \<Rightarrow> string" where
  "rvr_line n user pass =
     ''console name='' @ [dquote] @ NodeName n @ [dquote] @ '' dev='' @ [dquote] @ ''ipmi:'' @ BmcFqdn n @ [dquote] @
     '' ipmiopts='' @ [dquote] @ ''U:'' @ user @ '',P:'' @ pass @ '',W:solpayloadsize'' @ [dquote, newline]"

definition pds_line :: "nodeConsoleInfo \<Rightarrow> string \<Rightarrow> string \<Rightarrow> string" where
  "pds_line n user pass =
     ''console name='' @ [dquote] @ NodeName n @ [dquote] @ '' dev='' @ [dquote] @ ''/usr/bin/ssh-pwd-console '' @
     BmcFqdn n @ '' '' @ user @ '' '' @ pass @ [dquote, newline]"

definition mtn_line :: "nodeConsoleInfo \<Rightarrow> string" where
  "mtn_line n =
     ''console name='' @ [dquote] @ NodeName n @ [dquote] @ '' dev='' @ [dquote] @ ''/usr/bin/ssh-key-console '' @
     NodeName n @ [dquote, newline]"

text \<open>A node with what is logged for it and what is written.\<close>

record config_line =
  cl_log :: "string list"
  cl_out :: string

definition creds_line ::
  "(nodeConsoleInfo \<Rightarrow> string \<Rightarrow> string \<Rightarrow> string) \<Rightarrow> CompCredentials gomap option \<Rightarrow> nodeConsoleInfo \<Rightarrow> config_line" where
  "creds_line line passwords n =
     (let found = lookup_creds passwords (BmcName n);
          creds = (case found of Some c \<Rightarrow> c | None \<Rightarrow> zero_creds)
      in \<lparr>cl_log = (if found = None then [''No creds record returned for '' @ BmcName n] else []) @
            [line n (Username creds) ''REDACTED''],
          cl_out = line n (Username creds) (Password creds)\<rparr>)"

definition key_line :: "nodeConsoleInfo \<Rightarrow> config_line" where
  "key_line n = \<lparr>cl_log = [mtn_line n], cl_out = mtn_line n\<rparr>"

definition append_file :: "string \<Rightarrow> string \<Rightarrow> 'p pod_scheme \<Rightarrow> 'p pod_scheme" where
  "append_file path out s =
     emit (OsCall ''WriteString'' path)
       (s\<lparr>files := (files s)(path := map_option (\<lambda>i. RegFile (inode_mode i) (inode_data i @ out)) (files s path))\<rparr>)"

fun write_lines :: "'e env_scheme \<Rightarrow> config_line list \<Rightarrow> 'p pod_scheme \<Rightarrow> 'p pod_scheme outcome" where
  "write_lines E [] s = Ok s"
| "write_lines E (l # ls) s =
     (let s1 = fold (\<lambda>x. emit (LogPrint x)) (cl_log l) s
      in if os_fails E (trace s1) ''WriteString'' confFile then Panic (LogPanic ''WriteString'')
         else write_lines E ls (append_file confFile (cl_out l) s1))"

section \<open>updateConfigFile\<close>

definition pool_values :: "'e env_scheme \<Rightarrow> string \<Rightarrow> nodeConsoleInfo gomap \<Rightarrow> 'p pod_scheme \<Rightarrow> nodeConsoleInfo list" where
  "pool_values E site m s = map (\<lambda>k. the (map_of m k)) (range_keys E site m s)"

definition creds_xnames :: "'e env_scheme \<Rightarrow> string \<Rightarrow> 'p node_vars_scheme \<Rightarrow> string list" where
  "creds_xnames E site s =
     map BmcName (pool_values E (site @ ''.rvr'') (currentRvrNodes s) s) @
     map BmcName (pool_values E (site @ ''.pds'') (currentPdsNodes s) s)"

definition config_lines :: "'e env_scheme \<Rightarrow> CompCredentials gomap option \<Rightarrow> 'p node_vars_scheme \<Rightarrow> config_line list" where
  "config_lines E passwords s =
     map (creds_line rvr_line passwords) (pool_values E ''updateConfigFile.rvr'' (currentRvrNodes s) s) @
     map (creds_line pds_line passwords) (pool_values E ''updateConfigFile.pds'' (currentPdsNodes s) s) @
     map key_line (pool_values E ''updateConfigFile.mtn'' (currentMtnNodes s) s)"

definition io_Copy :: "'e cred_env_scheme \<Rightarrow> nat \<Rightarrow> 'p pod_scheme \<Rightarrow> 'p pod_scheme" where
  "io_Copy E off s =
     (case read_data E baseConfFile s of
        None \<Rightarrow> s
      | Some c \<Rightarrow>
          append_file confFile
            (if os_fails E (trace s) ''Copy'' confFile then take (io_copied E (trace s)) (drop off c) else drop off c) s)"

definition write_config :: "'e cred_env_scheme \<Rightarrow> nat \<Rightarrow> 'p cred_vars_scheme \<Rightarrow> 'p cred_vars_scheme outcome" where
  "write_config E off s =
     (case open_trunc E confFile 0x180 s of \<comment> \<open>octal 600\<close>
        None \<Rightarrow> Panic (LogPanic ''Unable to open config file to write'')
      | Some s1 \<Rightarrow>
          (let s2 = io_Copy E off s1
           in case getPasswordsWithRetries E (creds_xnames E ''updateConfigFile.names'' s2) 15 10 s2 of
                Panic p \<Rightarrow> Panic p
              | Ok (passwords, s3) \<Rightarrow>
                  (let s4 = s3\<lparr>previousPasswords := passwords\<rparr>
                   in write_lines E (config_lines E passwords s4) s4)))"

definition updateConfigFile :: "'e cred_env_scheme \<Rightarrow> bool \<Rightarrow> 'p cred_vars_scheme \<Rightarrow> 'p cred_vars_scheme outcome" where
  "updateConfigFile E forceUpdate s =
     (if os_fails E (trace s) ''Open'' baseConfFile \<or> files s baseConfFile = None
      then Panic (LogPanic ''Unable to open base config file'')
      else if forceUpdate then write_config E 0 s
      else
        (case willUpdateConfig E s of
           Panic p \<Rightarrow> Panic p
         | Ok (upd, off) \<Rightarrow> if upd then write_config E off s else Ok s))"

section \<open>configConman and runConman\<close>

definition aggregate_all :: "'e env_scheme \<Rightarrow> 'p node_vars_scheme \<Rightarrow> 'p node_vars_scheme" where
  "aggregate_all E s = fold (\<lambda>nn t. snd (aggregateFile nn t)) (all_keys E ''configConman'' s) s"

definition configConman ::
  "'e cred_env_scheme \<Rightarrow> bool \<Rightarrow> 'p cred_vars_scheme \<Rightarrow> (bool \<times> 'p cred_vars_scheme) outcome option" where
  "configConman E forceConfigUpdate s =
     (case updateConfigFile E forceConfigUpdate s of
        Panic p \<Rightarrow> Some (Panic p)
      | Ok s1 \<Rightarrow>
          map_option
            (\<lambda>(_, s2).
               Ok (length (currentMtnNodes s2) + length (currentRvrNodes s2) + length (currentPdsNodes s2) > 0, s2))
            (ensureMountainConsoleKeysPresent E (aggregate_all E s1)))"

text \<open>
  One turn of \<^verbatim>\<open>runConman\<close>, the configuration forced in the first; the process is left to
  exit before the turn ends.
\<close>

definition runConman_turn :: "'e cred_env_scheme \<Rightarrow> bool \<Rightarrow> 'p cred_vars_scheme \<Rightarrow> 'p cred_vars_scheme outcome option" where
  "runConman_turn E forceConfigUpdate s =
     (case configConman E forceConfigUpdate s of
        None \<Rightarrow> None
      | Some (Panic p) \<Rightarrow> Some (Panic p)
      | Some (Ok (hasNodes, s1)) \<Rightarrow>
          Some
            (case (if debugOnly s1 then Ok (emit (Sleep 25) s1)
                   else if \<not> hasNodes then Ok (emit (Sleep 30) s1)
                   else executeConman E s1) of
               Panic p \<Rightarrow> Panic p
             | Ok s2 \<Rightarrow> Ok (emit (Sleep 10) s2)))"

section \<open>Lemmas\<close>

text \<open>The log lines of a trace.\<close>

definition logged :: "event list \<Rightarrow> string list" where
  "logged t = concat (map (\<lambda>e. case e of LogPrint x \<Rightarrow> [x] | _ \<Rightarrow> []) t)"

lemma logged_simps [simp]:
  "logged [] = []" "logged (t @ u) = logged t @ logged u" "logged (OsCall a b # t) = logged t"
  "logged (Sleep n # t) = logged t" "logged (map LogPrint xs) = xs"
  by (simp_all add: logged_def) (induction xs, simp_all)

lemma write_lines_spec:
  assumes "write_lines E ls s = Ok s'" and "files s confFile = Some (RegFile m c)"
  shows "\<exists>t. s' = s\<lparr>files := (files s)(confFile \<mapsto> RegFile m (c @ concat (map cl_out ls))), trace := trace s @ t\<rparr> \<and>
    logged t = concat (map cl_log ls)"
  using assms
proof (induction ls arbitrary: s c)
  case Nil
  have same: "(files s)(confFile \<mapsto> RegFile m c) = files s" using Nil(2) by (metis fun_upd_triv)
  then show ?case using Nil(1) by (intro exI [of _ "[]"]) simp
next
  case (Cons l ls)
  define s1 where "s1 = append_file confFile (cl_out l) (s\<lparr>trace := trace s @ map LogPrint (cl_log l)\<rparr>)"
  have "write_lines E ls s1 = Ok s'"
    using Cons.prems(1) by (simp add: fold_emit s1_def Let_def split: if_splits)
  moreover have s1: "s1 = s\<lparr>files := (files s)(confFile \<mapsto> RegFile m (c @ cl_out l)),
      trace := trace s @ map LogPrint (cl_log l) @ [OsCall ''WriteString'' confFile]\<rparr>"
    using Cons.prems(2) by (simp add: s1_def append_file_def emit_def)
  moreover have "files s1 confFile = Some (RegFile m (c @ cl_out l))" by (simp add: s1)
  ultimately obtain t where "s' = s1\<lparr>files := (files s1)(confFile \<mapsto> RegFile m ((c @ cl_out l) @ concat (map cl_out ls))),
      trace := trace s1 @ t\<rparr>" and t: "logged t = concat (map cl_log ls)"
    using Cons.IH by blast
  then have "s' = s\<lparr>files := (files s)(confFile \<mapsto> RegFile m (c @ concat (map cl_out (l # ls)))),
      trace := trace s @ (map LogPrint (cl_log l) @ [OsCall ''WriteString'' confFile] @ t)\<rparr>"
    by (simp add: s1)
  moreover have "logged (map LogPrint (cl_log l) @ [OsCall ''WriteString'' confFile] @ t) = concat (map cl_log (l # ls))"
    by (simp add: t)
  ultimately show ?case by blast
qed

text \<open>What the configuration may change: the trace, the file and the remembered passwords.\<close>

definition config_frame :: "'p cred_vars_scheme \<Rightarrow> 'p cred_vars_scheme \<Rightarrow> bool" where
  "config_frame s s' \<longleftrightarrow>
     (\<exists>t f p. s' = s\<lparr>files := (files s)(confFile := f), trace := trace s @ t, previousPasswords := p\<rparr>)"

lemma config_frame_refl: "config_frame s s"
  unfolding config_frame_def
  by (intro exI [of _ "[]"] exI [of _ "files s confFile"] exI [of _ "previousPasswords s"]) simp

lemma config_frame_ok:
  assumes "config_frame s s'"
  shows "pools_ok s' = pools_ok s" and "tails_held s' = tails_held s" and "tails_ok s' = tails_ok s"
    and "held s' = held s" and "pools_disjoint s' = pools_disjoint s" and "later s s'" and "command s' = command s"
    and "debugOnly s' = debugOnly s" and "tailThreads s' = tailThreads s"
  using assms unfolding config_frame_def
  by (elim exE, simp add: pools_ok_def tails_held_def tails_ok_def held_def pools_disjoint_def later_def)+

text \<open>The text the base file contributes.\<close>

definition base_text :: "'e cred_env_scheme \<Rightarrow> nat \<Rightarrow> 'p pod_scheme \<Rightarrow> string" where
  "base_text E off s =
     (case read_data E baseConfFile s of
        None \<Rightarrow> []
      | Some c \<Rightarrow> if os_fails E (trace s) ''Copy'' confFile then take (io_copied E (trace s)) (drop off c) else drop off c)"

lemma confFile_neq [simp]: "confFile \<noteq> baseConfFile" "baseConfFile \<noteq> confFile"
  by (simp_all add: confFile_def baseConfFile_def)

lemma io_Copy_spec:
  assumes "files s confFile = Some (RegFile m [])"
  shows "\<exists>t. io_Copy E off s = s\<lparr>files := (files s)(confFile \<mapsto> RegFile m (base_text E off s)), trace := trace s @ t\<rparr> \<and> logged t = []"
proof (cases "read_data E baseConfFile s")
  case None
  have "(files s)(confFile \<mapsto> RegFile m []) = files s" using assms by (metis fun_upd_triv)
  then show ?thesis by (intro exI [of _ "[]"]) (simp add: io_Copy_def base_text_def None)
next
  case (Some c)
  then show ?thesis
    by (intro exI [of _ "[OsCall ''WriteString'' confFile]"])
      (simp add: io_Copy_def base_text_def append_file_def emit_def assms)
qed

lemma password_tries_logged:
  "password_tries E xs w n pw0 s = Ok (pw, s') \<Longrightarrow> \<exists>t. s' = s\<lparr>trace := trace s @ t\<rparr> \<and> logged t = []"
proof (induction n arbitrary: pw0 s)
  case 0
  then show ?case by (auto intro: exI [of _ "[]"])
next
  case (Suc n)
  then obtain pw1 s1 where g: "getPasswords E xs s = Ok (pw1, s1)" by (auto split: outcome.splits)
  then obtain t where t: "s1 = s\<lparr>trace := trace s @ t\<rparr>" "logged t = []"
    by (auto simp: getPasswords_def emit_def split: if_splits option.splits intro: that [of "[]"] that)
  show ?case
  proof (cases "found_all pw1 xs")
    case True
    then show ?thesis using Suc.prems g t by auto
  next
    case False
    then have "password_tries E xs w n pw1 (emit (Sleep w) s1) = Ok (pw, s')" using Suc.prems g by simp
    then obtain u where "s' = (emit (Sleep w) s1)\<lparr>trace := trace (emit (Sleep w) s1) @ u\<rparr>" "logged u = []"
      using Suc.IH by blast
    then show ?thesis using t by (intro exI [of _ "t @ Sleep w # u"]) (simp add: emit_def)
  qed
qed

lemma pool_values_mset: "gm_distinct m \<Longrightarrow> mset (pool_values E site m s) = mset (map snd m)"
  unfolding pool_values_def by (rule range_values_mset)

text \<open>
  The file after a rewrite: what was copied of the base file, then a line for every River,
  every Paradise and every Mountain node, with the passwords that are remembered; the log
  has the same lines with the passwords blanked.
\<close>

lemma write_config_spec:
  assumes "write_config E off s = Ok s'" and "pools_ok s"
  shows "\<exists>t m b pw rs ps ms. s' = s\<lparr>files := (files s)(confFile \<mapsto>
        RegFile m (b @ concat (map (cl_out \<circ> creds_line rvr_line pw) rs) @
          concat (map (cl_out \<circ> creds_line pds_line pw) ps) @ concat (map mtn_line ms))),
      trace := trace s @ t, previousPasswords := pw\<rparr> \<and>
    mset rs = mset (map snd (currentRvrNodes s)) \<and> mset ps = mset (map snd (currentPdsNodes s)) \<and>
    mset ms = mset (map snd (currentMtnNodes s)) \<and>
    logged t = concat (map (cl_log \<circ> creds_line rvr_line pw) rs) @ concat (map (cl_log \<circ> creds_line pds_line pw) ps) @
      map mtn_line ms"
proof -
  obtain s1 where "open_trunc E confFile 0x180 s = Some s1"
    using assms(1) by (auto simp: write_config_def split: option.splits)
  then obtain m where s1: "s1 = s\<lparr>files := (files s)(confFile \<mapsto> RegFile m []), trace := trace s @ [OsCall ''OpenFile'' confFile]\<rparr>"
    by (auto simp: open_trunc_def emit_def split: if_splits)
  then have f1: "files s1 confFile = Some (RegFile m [])" by simp
  define b where "b = base_text E off s1"
  obtain t2 where s2: "io_Copy E off s1 = s1\<lparr>files := (files s1)(confFile \<mapsto> RegFile m b), trace := trace s1 @ t2\<rparr>" "logged t2 = []"
    using io_Copy_spec [OF f1, of E off] b_def by blast
  let ?s2 = "io_Copy E off s1"
  let ?xs = "creds_xnames E ''updateConfigFile.names'' ?s2"
  obtain pw s3 where p: "getPasswordsWithRetries E ?xs 15 10 ?s2 = Ok (pw, s3)"
    and w: "write_lines E (config_lines E pw (s3\<lparr>previousPasswords := pw\<rparr>)) (s3\<lparr>previousPasswords := pw\<rparr>) = Ok s'"
    using assms(1) \<open>open_trunc E confFile 0x180 s = Some s1\<close>
    by (auto simp: write_config_def Let_def split: outcome.splits)
  obtain t3 where s3: "s3 = ?s2\<lparr>trace := trace ?s2 @ t3\<rparr>" "logged t3 = []"
    using password_tries_logged p unfolding getPasswordsWithRetries_def by blast
  define s4 where "s4 = s3\<lparr>previousPasswords := pw\<rparr>"
  have f4: "files s4 confFile = Some (RegFile m b)" by (simp add: s4_def s3 s2)
  obtain t4 where s': "s' = s4\<lparr>files := (files s4)(confFile \<mapsto> RegFile m (b @ concat (map cl_out (config_lines E pw s4)))),
      trace := trace s4 @ t4\<rparr>" "logged t4 = concat (map cl_log (config_lines E pw s4))"
    using write_lines_spec [OF w [folded s4_def] f4] by blast
  define rs ps ms where "rs = pool_values E ''updateConfigFile.rvr'' (currentRvrNodes s4) s4"
    and "ps = pool_values E ''updateConfigFile.pds'' (currentPdsNodes s4) s4"
    and "ms = pool_values E ''updateConfigFile.mtn'' (currentMtnNodes s4) s4"
  have s4: "s4 = s\<lparr>files := (files s)(confFile \<mapsto> RegFile m b),
      trace := trace s @ [OsCall ''OpenFile'' confFile] @ t2 @ t3, previousPasswords := pw\<rparr>"
    unfolding s4_def s3(1) s2(1) by (simp add: s1)
  have d: "gm_distinct (currentRvrNodes s4)" "gm_distinct (currentPdsNodes s4)" "gm_distinct (currentMtnNodes s4)"
    using assms(2) by (simp_all add: s4 pools_ok_def pool_ok_def)
  have ms: "mset rs = mset (map snd (currentRvrNodes s))" "mset ps = mset (map snd (currentPdsNodes s))"
    "mset ms = mset (map snd (currentMtnNodes s))"
    unfolding rs_def ps_def ms_def pool_values_mset [OF d(1)] pool_values_mset [OF d(2)] pool_values_mset [OF d(3)]
    by (simp_all add: s4)
  have lines: "config_lines E pw s4 = map (creds_line rvr_line pw) rs @ map (creds_line pds_line pw) ps @ map key_line ms"
    by (simp add: config_lines_def rs_def ps_def ms_def)
  have outs: "concat (map cl_out (config_lines E pw s4)) = concat (map (cl_out \<circ> creds_line rvr_line pw) rs) @
      concat (map (cl_out \<circ> creds_line pds_line pw) ps) @ concat (map mtn_line ms)"
    by (simp add: lines key_line_def comp_def)
  have logs: "logged t4 = concat (map (cl_log \<circ> creds_line rvr_line pw) rs) @
      concat (map (cl_log \<circ> creds_line pds_line pw) ps) @ map mtn_line ms"
    unfolding s'(2) lines by (simp add: key_line_def comp_def)
  define t where "t = [OsCall ''OpenFile'' confFile] @ t2 @ t3 @ t4"
  have "s' = s\<lparr>files := (files s)(confFile \<mapsto> RegFile m (b @ concat (map cl_out (config_lines E pw s4)))),
      trace := trace s @ t, previousPasswords := pw\<rparr>"
    unfolding s'(1) t_def by (simp add: s4)
  moreover have "logged t = logged t4" by (simp add: t_def s2 s3)
  ultimately show ?thesis using ms logs unfolding outs by metis
qed

lemma updateConfigFile_cases:
  assumes "updateConfigFile E f s = Ok s'"
  obtains (rewritten) off where "write_config E off s = Ok s'" | (skipped) "s' = s" and "\<not> f"
proof (cases f)
  case True
  then have "write_config E 0 s = Ok s'" using assms by (simp add: updateConfigFile_def split: if_splits)
  then show thesis by (rule rewritten)
next
  case False
  then obtain upd off where "willUpdateConfig E s = Ok (upd, off)"
    and "(if upd then write_config E off s else Ok s) = Ok s'"
    using assms by (simp add: updateConfigFile_def split: if_splits outcome.splits prod.splits)
  then show thesis using False rewritten skipped by (cases upd) simp_all
qed

lemma updateConfigFile_frame:
  assumes "updateConfigFile E f s = Ok s'" and "pools_ok s"
  shows "config_frame s s'"
  using assms(1)
proof (cases rule: updateConfigFile_cases)
  case (rewritten off)
  then show ?thesis using write_config_spec [OF rewritten assms(2)] unfolding config_frame_def by (elim exE conjE) blast
next
  case skipped
  then show ?thesis by (simp only: config_frame_refl)
qed

lemma aggregateFile_frame:
  "\<exists>n tt ts t. snd (aggregateFile k s) = s\<lparr>nextCtx := n, tailThreads := tt, tailers := ts, trace := trace s @ t\<rparr>"
proof (cases "gm_has k (tailThreads s)")
  case True
  then show ?thesis
    by (intro exI [of _ "nextCtx s"] exI [of _ "tailThreads s"] exI [of _ "tailers s"] exI [of _ "[]"])
      (simp add: aggregateFile_def)
qed (auto simp: aggregateFile_def Let_def emit_def)

lemma aggregateFile_pools [simp]:
  "currentRvrNodes (snd (aggregateFile k s)) = currentRvrNodes s"
  "currentMtnNodes (snd (aggregateFile k s)) = currentMtnNodes s"
  "currentPdsNodes (snd (aggregateFile k s)) = currentPdsNodes s"
  by (simp_all add: aggregateFile_def Let_def emit_def)

lemma aggregateFile_command [simp]: "command (snd (aggregateFile k s)) = command s"
  by (simp add: aggregateFile_def Let_def emit_def)

lemma aggregate_all_keeps:
  "(\<And>k s. I s \<Longrightarrow> I (snd (aggregateFile k s))) \<Longrightarrow> I s \<Longrightarrow> I (aggregate_all E s)"
proof -
  assume step: "\<And>k s. I s \<Longrightarrow> I (snd (aggregateFile k s))" and "I s"
  have "I (fold (\<lambda>nn t. snd (aggregateFile nn t)) ks s)" for ks
    using \<open>I s\<close> by (induction ks arbitrary: s) (simp_all add: step)
  then show ?thesis by (simp add: aggregate_all_def)
qed

lemma aggregate_all_pools [simp]:
  "currentRvrNodes (aggregate_all E s) = currentRvrNodes s"
  "currentMtnNodes (aggregate_all E s) = currentMtnNodes s"
  "currentPdsNodes (aggregate_all E s) = currentPdsNodes s"
  by (rule aggregate_all_keeps [where I = "\<lambda>x. _ x = _ s"], simp_all)+

lemma aggregate_all_ok [simp]:
  "pools_ok (aggregate_all E s) = pools_ok s" "held (aggregate_all E s) = held s"
  "pools_disjoint (aggregate_all E s) = pools_disjoint s"
  by (simp_all add: pools_ok_def held_def pools_disjoint_def)

lemma aggregate_all_tails:
  "gm_keys (tailThreads (aggregate_all E s)) = gm_keys (tailThreads s) \<union> held s"
proof -
  have "gm_keys (tailThreads (fold (\<lambda>nn t. snd (aggregateFile nn t)) ks s)) = gm_keys (tailThreads s) \<union> set ks" for ks
    by (induction ks arbitrary: s) (auto simp: aggregateFile_keys)
  then show ?thesis by (simp add: aggregate_all_def)
qed

lemma aggregate_all_tails_ok [go_wf]: "tails_ok s \<Longrightarrow> tails_ok (aggregate_all E s)"
  by (rule aggregate_all_keeps) (simp_all add: tails_ok_aggregateFile)

lemma held_empty: "held s = {} \<longleftrightarrow> length (currentMtnNodes s) + length (currentRvrNodes s) + length (currentPdsNodes s) = 0"
  by (auto simp: held_def)

lemma key_frame_tails: "key_frame s s' \<Longrightarrow> tailThreads s' = tailThreads s"
  by (auto simp: key_frame_def)

lemma configConman_spec:
  assumes "configConman E f s = Some (Ok (b, s'))" and "pools_ok s"
  shows "pools_ok s'" and "held s' = held s" and "pools_disjoint s' = pools_disjoint s"
    and "b \<longleftrightarrow> held s \<noteq> {}" and "gm_keys (tailThreads s') = gm_keys (tailThreads s) \<union> held s"
    and "tails_ok s \<Longrightarrow> tails_ok s'" and "command s' = command s"
proof -
  obtain s1 k where u: "updateConfigFile E f s = Ok s1"
    and e: "ensureMountainConsoleKeysPresent E (aggregate_all E s1) = Some (k, s')"
    and b: "b \<longleftrightarrow> length (currentMtnNodes s') + length (currentRvrNodes s') + length (currentPdsNodes s') > 0"
    using assms(1) by (auto simp: configConman_def split: outcome.splits)
  note c = config_frame_ok [OF updateConfigFile_frame [OF u assms(2)]]
  note kf = key_frame_ok [OF ensure_frame [OF e]]
  show "pools_ok s'" "held s' = held s" "pools_disjoint s' = pools_disjoint s" using c kf assms(2) by simp_all
  then show "b \<longleftrightarrow> held s \<noteq> {}" using b held_empty [of s'] by auto
  show "gm_keys (tailThreads s') = gm_keys (tailThreads s) \<union> held s"
    using key_frame_tails [OF ensure_frame [OF e]] c by (simp add: aggregate_all_tails)
  show "tails_ok s \<Longrightarrow> tails_ok s'" using c kf aggregate_all_tails_ok by simp
  have "command (aggregate_all E s1) = command s1"
    by (rule aggregate_all_keeps [where I = "\<lambda>x. command x = command s1"]) simp_all
  then show "command s' = command s" using c kf by simp
qed

section \<open>Passwords stay out of the trace\<close>

text \<open>The same surroundings with other passwords.\<close>

definition mask_map :: "(CompCredentials \<Rightarrow> string) \<Rightarrow> CompCredentials gomap \<Rightarrow> CompCredentials gomap" where
  "mask_map f m = map (\<lambda>(k, c). (k, c\<lparr>Password := f c\<rparr>)) m"

definition with_passwords :: "(CompCredentials \<Rightarrow> string) \<Rightarrow> 'e cred_env_scheme \<Rightarrow> 'e cred_env_scheme" where
  "with_passwords f E = E\<lparr>GetCompCreds := \<lambda>h xs. map_option (mask_map f) (GetCompCreds E h xs)\<rparr>"

lemma with_passwords_simps [simp]:
  "os_fails (with_passwords f E) = os_fails E" "range_order (with_passwords f E) = range_order E"
  "umask (with_passwords f E) = umask E" "io_copied (with_passwords f E) = io_copied E"
  "NewVaultAdapter_fails (with_passwords f E) = NewVaultAdapter_fails E"
  "GetCompCreds (with_passwords f E) h xs = map_option (mask_map f) (GetCompCreds E h xs)"
  by (simp_all add: with_passwords_def)

lemma with_passwords_ops [simp]:
  "range_keys (with_passwords f E) site m s = range_keys E site m s"
  "read_data (with_passwords f E) p s = read_data E p s"
  "open_trunc (with_passwords f E) p perm s = open_trunc E p perm s"
  "io_Copy (with_passwords f E) off s = io_Copy E off s"
  "willUpdateConfig (with_passwords f E) s = willUpdateConfig E s"
  unfolding range_keys_def read_data_def open_trunc_def io_Copy_def willUpdateConfig_def mkdir_mode_def
    with_passwords_simps by (rule refl)+

lemma with_passwords_values [simp]:
  "pool_values (with_passwords f E) site m s = pool_values E site m s"
  "creds_xnames (with_passwords f E) site s = creds_xnames E site s"
  by (simp_all add: pool_values_def creds_xnames_def)

lemma map_of_mask: "map_of (mask_map f m) k = map_option (\<lambda>c. c\<lparr>Password := f c\<rparr>) (map_of m k)"
  by (induction m) (auto simp: mask_map_def)

lemma lookup_mask:
  "lookup_creds (map_option (mask_map f) pw) k = map_option (\<lambda>c. c\<lparr>Password := f c\<rparr>) (lookup_creds pw k)"
  by (cases pw) (simp_all add: lookup_creds_def map_of_mask)

lemma found_all_mask [simp]: "found_all (map_option (mask_map f) pw) xs = found_all pw xs"
  by (simp add: found_all_def lookup_mask)

lemma getPasswords_mask:
  "getPasswords (with_passwords f E) xs s = map_outcome (\<lambda>(pw, s'). (map_option (mask_map f) pw, s')) (getPasswords E xs s)"
  by (simp add: getPasswords_def split: option.split)

lemma password_tries_mask:
  "password_tries (with_passwords f E) xs w n (map_option (mask_map f) pw) s =
     map_outcome (\<lambda>(pw, s'). (map_option (mask_map f) pw, s')) (password_tries E xs w n pw s)"
proof (induction n arbitrary: pw s)
  case (Suc n)
  show ?case
  proof (cases "getPasswords E xs s")
    case (Ok r)
    obtain pw1 s1 where "r = (pw1, s1)" by fastforce
    then show ?thesis using Ok Suc.IH by (simp add: getPasswords_mask)
  qed (simp add: getPasswords_mask)
qed simp

lemma creds_line_mask [simp]:
  "cl_log (creds_line line (map_option (mask_map f) pw) n) = cl_log (creds_line line pw n)"
  by (cases "lookup_creds pw (BmcName n)") (simp_all add: creds_line_def lookup_mask Let_def)

lemma write_lines_trace:
  assumes "os_fails E = os_fails E'" and "trace s = trace s'" and "map cl_log ls = map cl_log ls'"
  shows "map_outcome trace (write_lines E ls s) = map_outcome trace (write_lines E' ls' s')"
  using assms(2,3)
proof (induction ls arbitrary: s s' ls')
  case (Cons l ls)
  then obtain l' ls'' where ls': "ls' = l' # ls''" and eq: "cl_log l' = cl_log l" "map cl_log ls = map cl_log ls''"
    by (cases ls') auto
  show ?case unfolding ls'
    using Cons.IH [OF _ eq(2)] Cons.prems(1)
    by (simp add: Let_def fold_emit eq(1) assms(1) append_file_def)
qed simp

lemma range_keys_trace: "trace s = trace s' \<Longrightarrow> range_keys E site m s = range_keys E site m s'"
  by (simp add: range_keys_def)

lemma config_lines_mask:
  "map cl_log (config_lines (with_passwords f E) (map_option (mask_map f) pw) s) = map cl_log (config_lines E pw s)"
  by (simp add: config_lines_def)

lemma config_lines_prev:
  "config_lines E pw (s\<lparr>previousPasswords := p\<rparr>) = config_lines E pw s"
  by (simp add: config_lines_def pool_values_def range_keys_def)

lemma write_config_mask:
  "map_outcome trace (write_config (with_passwords f E) off s) = map_outcome trace (write_config E off s)"
proof (cases "open_trunc E confFile 0x180 s")
  case (Some s1)
  let ?s2 = "io_Copy E off s1"
  let ?xs = "creds_xnames E ''updateConfigFile.names'' ?s2"
  have gp: "getPasswordsWithRetries (with_passwords f E) ?xs 15 10 ?s2 =
      map_outcome (\<lambda>(pw, s'). (map_option (mask_map f) pw, s')) (getPasswordsWithRetries E ?xs 15 10 ?s2)"
    using password_tries_mask [of f E ?xs 10 "nat 15" None ?s2] by (simp add: getPasswordsWithRetries_def)
  show ?thesis
  proof (cases "getPasswordsWithRetries E ?xs 15 10 ?s2")
    case (Ok ps)
    obtain pw s3 where ps: "ps = (pw, s3)" by fastforce
    show ?thesis
      by (simp add: write_config_def Some gp Ok ps Let_def config_lines_prev)
        (rule write_lines_trace, simp_all add: config_lines_mask)
  qed (simp add: write_config_def Some gp Let_def)
qed (simp add: write_config_def)

lemma updateConfigFile_mask:
  "map_outcome trace (updateConfigFile (with_passwords f E) force s) = map_outcome trace (updateConfigFile E force s)"
  by (simp add: updateConfigFile_def write_config_mask split: outcome.split prod.split)

end
