(* ===== verification/Log_Rotation.thy ===== *)
theory Log_Rotation
  imports Conman_Config
begin

text \<open>
  The rest of \<^verbatim>\<open>logRotation.go\<close>: the settings from the environment, the time stamps in
  the state file of \<^verbatim>\<open>logrotate\<close>, and one rotation.  The program \<^verbatim>\<open>logrotate\<close> itself is a
  field of the surroundings: what it makes of the file system.  So is the lookup in the
  local time zone that \<^verbatim>\<open>time.Date\<close> makes: offset, start and end of the zone in force.
  Years and the like are not large enough to overflow a time.
\<close>

record rot_env = cred_env +
  zone_lookup :: "int \<Rightarrow> int \<times> int \<times> int"
  logrotate :: "event list \<Rightarrow> (string \<Rightarrow> inode option) \<Rightarrow> (string \<Rightarrow> inode option)"

section \<open>Settings\<close>

definition isTrue :: "string \<Rightarrow> bool" where
  "isTrue str =
     (let lStr = strings_ToLower str
      in length lStr = 1 \<and> (hd lStr = CHR ''t'' \<or> hd lStr = CHR ''1'') \<or> length lStr > 1 \<and> lStr = ''true'')"

definition env_int :: "'e env_scheme \<Rightarrow> string \<Rightarrow> int \<Rightarrow> int" where
  "env_int E name old =
     (let val = getenv E name
      in if val = [] then old else (case atoi val of (n, None) \<Rightarrow> n | _ \<Rightarrow> old))"

definition logRotate :: "'e env_scheme \<Rightarrow> 'p rot_vars_scheme \<Rightarrow> 'p rot_vars_scheme" where
  "logRotate E s =
     (let s1 = snd (ensureDirPresent E logRotDir 0x1ED s); \<comment> \<open>octal 755\<close>
          s2 = (if getenv E ''LOG_ROTATE_ENABLE'' \<noteq> [] then s1\<lparr>logRotEnabled := isTrue (getenv E ''LOG_ROTATE_ENABLE'')\<rparr> else s1);
          s3 = (if getenv E ''LOG_ROTATE_FILE_SIZE'' \<noteq> [] then s2\<lparr>logRotConFileSize := getenv E ''LOG_ROTATE_FILE_SIZE''\<rparr> else s2);
          s4 = s3\<lparr>logRotCheckFreqSec := env_int E ''LOG_ROTATE_SEC_FREQ'' (logRotCheckFreqSec s3)\<rparr>;
          s5 = s4\<lparr>logRotConNumRotate := env_int E ''LOG_ROTATE_NUM_KEEP'' (logRotConNumRotate s4)\<rparr>
      in doInitialConfFileUpdate E s5)"

section \<open>Sscanf and time.Date\<close>

text \<open>
  What \<^verbatim>\<open>Sscanf\<close> does for \<^verbatim>\<open>%d\<close>: spaces are skipped, a newline is an error, then a
  sign and at least one digit, and the value must fit.  A literal must match exactly.
\<close>

fun skip_space :: "string \<Rightarrow> string option" where
  "skip_space [] = Some []"
| "skip_space (c # cs) =
     (if c = newline then None else if is_space c then skip_space cs else Some (c # cs))"

definition is_digit :: "char \<Rightarrow> bool" where
  "is_digit c \<longleftrightarrow> digit_val c \<noteq> None"

definition scan_sign :: "string \<Rightarrow> string \<times> string" where
  "scan_sign s = (case s of [] \<Rightarrow> ([], []) | c # cs \<Rightarrow> if c = CHR ''+'' \<or> c = CHR ''-'' then ([c], cs) else ([], s))"

definition scan_int :: "string \<Rightarrow> (int \<times> string) option" where
  "scan_int s =
     Option.bind (skip_space s)
       (\<lambda>t. case scan_sign t of (sg, u) \<Rightarrow>
          (let ds = takeWhile is_digit u
           in if ds = [] then None
              else (case atoi (sg @ ds) of (n, None) \<Rightarrow> Some (n, dropWhile is_digit u) | _ \<Rightarrow> None)))"

definition scan_lit :: "char \<Rightarrow> string \<Rightarrow> string option" where
  "scan_lit c s = (case s of [] \<Rightarrow> None | d # ds \<Rightarrow> if d = c then Some ds else None)"

text \<open>The numbers of a format that alternates \<^verbatim>\<open>%d\<close> with one literal character.\<close>

fun scan_ints :: "char list \<Rightarrow> string \<Rightarrow> int list option" where
  "scan_ints [] s = map_option (\<lambda>(n, _). [n]) (scan_int s)"
| "scan_ints (c # cs) s =
     Option.bind (scan_int s) (\<lambda>(n, s1). Option.bind (scan_lit c s1) (\<lambda>s2. map_option ((#) n) (scan_ints cs s2)))"

definition timestamp_seps :: "char list" where
  "timestamp_seps = ''---::''"

text \<open>Seconds since 1970: \<^verbatim>\<open>time.Date\<close> first brings each part into its range.\<close>

definition leap_year :: "int \<Rightarrow> bool" where
  "leap_year y \<longleftrightarrow> y mod 4 = 0 \<and> (y mod 100 \<noteq> 0 \<or> y mod 400 = 0)"

definition days_before_year :: "int \<Rightarrow> int" where
  "days_before_year y = 365 * y + (y - 1) div 4 - (y - 1) div 100 + (y - 1) div 400"

definition days_before_month :: "int list" where
  "days_before_month = [0, 31, 59, 90, 120, 151, 181, 212, 243, 273, 304, 334]"

definition civil_seconds :: "int \<Rightarrow> int \<Rightarrow> int \<Rightarrow> int \<Rightarrow> int \<Rightarrow> int \<Rightarrow> int" where
  "civil_seconds year month day hour mi sec =
     (let y = year + (month - 1) div 12; m = (month - 1) mod 12;
          mi1 = mi + sec div 60; s1 = sec mod 60;
          h1 = hour + mi1 div 60; m1 = mi1 mod 60;
          d1 = day + h1 div 24; h2 = h1 mod 24;
          days = days_before_year y - days_before_year 1970 + days_before_month ! nat m +
            (if leap_year y \<and> m \<ge> 2 then 1 else 0) + (d1 - 1)
      in days * 86400 + h2 * 3600 + m1 * 60 + s1)"

definition time_Date :: "'e rot_env_scheme \<Rightarrow> int list \<Rightarrow> int" where
  "time_Date E ns =
     (let unix = civil_seconds (ns ! 0) (ns ! 1) (ns ! 2) (ns ! 3) (ns ! 4) (ns ! 5)
      in case zone_lookup E unix of (off, st, en) \<Rightarrow>
           if off \<noteq> 0 then
             (let utc = unix - off
              in if utc < st \<or> utc \<ge> en then unix - fst (zone_lookup E utc) else unix - off)
           else unix)"

definition zero_time :: int where
  "zero_time = - 62135596800"

section \<open>The state file\<close>

abbreviation filePrefix :: string where
  "filePrefix \<equiv> ''/var/log/conman/console.''"

definition scan_timestamp :: "'e rot_env_scheme \<Rightarrow> string \<Rightarrow> string \<Rightarrow> bool \<Rightarrow> string \<times> int \<times> bool \<times> bool" where
  "scan_timestamp E nodeName timeStampStr isCon =
     (case scan_ints timestamp_seps timeStampStr of
        None \<Rightarrow> (nodeName, zero_time, False, False)
      | Some ns \<Rightarrow> (nodeName, time_Date E ns, isCon, \<not> isCon))"

definition parseTimestamp :: "'e rot_env_scheme \<Rightarrow> string \<Rightarrow> string \<Rightarrow> (string \<times> int \<times> bool \<times> bool) outcome" where
  "parseTimestamp E aggFile line =
     (case strings_Index line filePrefix of
        Some pos \<Rightarrow>
          (let nodeStPos = pos + length filePrefix
           in case strings_Index (drop nodeStPos line) [dquote] of
                None \<Rightarrow> Ok ([], zero_time, False, False)
              | Some q \<Rightarrow>
                  (case slice_from (nodeStPos + q + 2) line of
                     Panic p \<Rightarrow> Panic p
                   | Ok timeStampStr \<Rightarrow> Ok (scan_timestamp E (take q (drop nodeStPos line)) timeStampStr True)))
      | None \<Rightarrow>
          (case strings_Index line aggFile of
             None \<Rightarrow> Ok ([], zero_time, False, False)
           | Some pos \<Rightarrow>
               (case slice_from (length aggFile + pos + 2) line of
                  Panic p \<Rightarrow> Panic p
                | Ok timeStampStr \<Rightarrow> Ok (scan_timestamp E ''consoleAgg.log'' timeStampStr False))))"

type_synonym stamps = "int gomap"

text \<open>One line: the stamps and the two flags afterwards.\<close>

definition stamp_line ::
  "'e rot_env_scheme \<Rightarrow> string \<Rightarrow> string \<Rightarrow> stamps \<times> bool \<times> bool \<Rightarrow> (stamps \<times> bool \<times> bool) outcome" where
  "stamp_line E aggFile line acc =
     (case acc of (fileStamp, conChanged, aggChanged) \<Rightarrow>
       (case parseTimestamp E aggFile line of
          Panic p \<Rightarrow> Panic p
        | Ok (fileName, fd, isCon, isAgg) \<Rightarrow>
            Ok (if (isCon \<or> isAgg) \<and> map_of fileStamp fileName \<noteq> Some fd
                then (AList.update fileName fd fileStamp, conChanged \<or> isCon, aggChanged \<or> \<not> isCon)
                else acc)))"

fun stamp_lines ::
  "'e rot_env_scheme \<Rightarrow> string \<Rightarrow> string list \<Rightarrow> stamps \<times> bool \<times> bool \<Rightarrow> (stamps \<times> bool \<times> bool) outcome" where
  "stamp_lines E aggFile [] acc = Ok acc"
| "stamp_lines E aggFile (line # lines) acc =
     (case stamp_line E aggFile line acc of
        Panic p \<Rightarrow> Panic p
      | Ok acc1 \<Rightarrow> stamp_lines E aggFile lines acc1)"

definition readLogRotTimestamps ::
  "'e rot_env_scheme \<Rightarrow> stamps \<Rightarrow> 'p agg_vars_scheme \<Rightarrow> (stamps \<times> bool \<times> bool) outcome" where
  "readLogRotTimestamps E fileStamp s =
     (case (os_fails E (trace s) ''Open'' logRotStateFile, files s logRotStateFile) of
        (False, Some (RegFile _ content)) \<Rightarrow>
          stamp_lines E (conAggLogFile s) (read_lines content) (fileStamp, False, False)
      | _ \<Rightarrow> Ok (fileStamp, False, False))"

section \<open>Rotating\<close>

definition run_logrotate :: "'e rot_env_scheme \<Rightarrow> 'p pod_scheme \<Rightarrow> 'p pod_scheme" where
  "run_logrotate E s =
     emit (OsCall ''logrotate'' logRotConfFile) (s\<lparr>files := logrotate E (trace s) (files s)\<rparr>)"

definition rotateLogsOnce ::
  "'e rot_env_scheme \<Rightarrow> stamps \<Rightarrow> 'p conman_vars_scheme \<Rightarrow> (stamps \<times> 'p conman_vars_scheme) outcome" where
  "rotateLogsOnce E fileStamp s =
     (let s1 = run_logrotate E s
      in case readLogRotTimestamps E fileStamp s1 of
           Panic p \<Rightarrow> Panic p
         | Ok (fileStamp1, conChanged, aggChanged) \<Rightarrow>
             if conChanged \<or> aggChanged then
               (let s2 = emit (Sleep 5) s1
                in case (if conChanged then signalConmanHUP E s2 else Ok s2) of
                     Panic p \<Rightarrow> Panic p
                   | Ok s3 \<Rightarrow> Ok (fileStamp1, if aggChanged then respinAggLog E s3 else s3))
             else Ok (fileStamp1, s1))"

text \<open>\<^verbatim>\<open>doLogRotate\<close>: what comes before its loop, with the period, and one turn.\<close>

definition rotate_period :: "'p rot_vars_scheme \<Rightarrow> int" where
  "rotate_period s = (if logRotCheckFreqSec s > 0 then logRotCheckFreqSec s else 300)"

definition doLogRotate_init ::
  "'e rot_env_scheme \<Rightarrow> 'p rot_vars_scheme \<Rightarrow> (stamps \<times> int \<times> 'p rot_vars_scheme) outcome" where
  "doLogRotate_init E s =
     (let s1 = emit (Sleep 120) s
      in case readLogRotTimestamps E [] s1 of
           Panic p \<Rightarrow> Panic p
         | Ok (fileStamp, _, _) \<Rightarrow> Ok (fileStamp, rotate_period s1, s1))"

definition doLogRotate_turn ::
  "'e rot_env_scheme \<Rightarrow> int \<Rightarrow> stamps \<Rightarrow> 'p rot_vars_scheme \<Rightarrow> (stamps \<times> 'p rot_vars_scheme) outcome" where
  "doLogRotate_turn E sleepSecs fileStamp s =
     (case (if logRotEnabled s then rotateLogsOnce E fileStamp s else Ok (fileStamp, s)) of
        Panic p \<Rightarrow> Panic p
      | Ok (fileStamp1, s1) \<Rightarrow> Ok (fileStamp1, emit (Sleep sleepSecs) s1))"

section \<open>Lemmas\<close>

subsection \<open>Scanning what was printed\<close>

fun print_ints :: "char list \<Rightarrow> int list \<Rightarrow> string" where
  "print_ints [] ns = itoa (hd ns)"
| "print_ints (c # cs) ns = itoa (hd ns) @ c # print_ints cs (tl ns)"

lemma digit_char_props: "d < 10 \<Longrightarrow> is_digit (digit_char d) \<and> \<not> is_space (digit_char d) \<and> digit_char d \<noteq> newline \<and>
    digit_char d \<noteq> CHR ''+'' \<and> digit_char d \<noteq> CHR ''-''"
  using digit_cases [of d] by (auto simp: digit_char_def is_digit_def digit_val_def is_space_def)

lemma nat_digits_props:
  assumes "c \<in> set (nat_digits n)"
  shows "is_digit c" and "\<not> is_space c" and "c \<noteq> newline" and "c \<noteq> CHR ''+''" and "c \<noteq> CHR ''-''"
proof -
  obtain d where "d < 10" and c: "c = digit_char d" using nat_digits_digit [OF assms] by (elim exE conjE)
  note digit_char_props [OF this(1)]
  then show "is_digit c" and "\<not> is_space c" and "c \<noteq> newline" and "c \<noteq> CHR ''+''" and "c \<noteq> CHR ''-''"
    unfolding c by simp_all
qed

lemma takeWhile_nat_digits:
  assumes "rest = [] \<or> \<not> is_digit (hd rest)"
  shows "takeWhile is_digit (nat_digits n @ rest) = nat_digits n" and "dropWhile is_digit (nat_digits n @ rest) = rest"
  using assms nat_digits_props(1) by (auto simp: takeWhile_append dropWhile_append takeWhile_eq_all_conv; cases rest; auto)+

lemma scan_int_itoa:
  assumes "int64 n" and "rest = [] \<or> \<not> is_digit (hd rest)"
  shows "scan_int (itoa n @ rest) = Some (n, rest)"
proof (cases "n < 0")
  case True
  have "skip_space (CHR ''-'' # xs) = Some (CHR ''-'' # xs)" for xs by (simp add: is_space_def)
  then show ?thesis
    using True assms atoi_itoa [OF assms(1)] takeWhile_nat_digits [OF assms(2)]
    by (simp add: scan_int_def itoa_def scan_sign_def Let_def)
next
  case False
  obtain c cs where d: "nat_digits (nat n) = c # cs" by (cases "nat_digits (nat n)") auto
  then have c: "\<not> is_space c" "c \<noteq> newline" "c \<noteq> CHR ''+''" "c \<noteq> CHR ''-''"
    using nat_digits_props [of c "nat n"] by auto
  have "skip_space (nat_digits (nat n) @ rest) = Some (nat_digits (nat n) @ rest)"
    and "scan_sign (nat_digits (nat n) @ rest) = ([], nat_digits (nat n) @ rest)"
    using c by (simp_all add: d scan_sign_def)
  then show ?thesis
    using False assms atoi_itoa [OF assms(1)] takeWhile_nat_digits [OF assms(2)]
    by (simp add: scan_int_def itoa_def Let_def)
qed

lemma scan_ints_print:
  assumes "\<forall>c \<in> set seps. \<not> is_digit c" and "length ns = Suc (length seps)" and "\<forall>n \<in> set ns. int64 n"
    and "rest = [] \<or> \<not> is_digit (hd rest)"
  shows "scan_ints seps (print_ints seps ns @ rest) = Some ns"
  using assms
proof (induction seps arbitrary: ns)
  case Nil
  then obtain n where "ns = [n]" by (cases ns) auto
  with Nil show ?case by (simp add: scan_int_itoa)
next
  case (Cons c seps)
  then obtain n ns' where ns: "ns = n # ns'" by (cases ns) auto
  have "scan_int (itoa n @ c # print_ints seps ns' @ rest) = Some (n, c # print_ints seps ns' @ rest)"
    using Cons.prems ns by (intro scan_int_itoa) auto
  moreover have "scan_ints seps (print_ints seps ns' @ rest) = Some ns'"
    using Cons ns by simp
  ultimately show ?case by (simp add: ns scan_lit_def)
qed

text \<open>A line of the state file as \<^verbatim>\<open>logrotate\<close> writes it.\<close>

definition state_line :: "string \<Rightarrow> int list \<Rightarrow> string" where
  "state_line x ns = [dquote] @ console_log x @ [dquote] @ '' '' @ print_ints timestamp_seps ns @ [newline]"

lemma newline_not_digit [simp]: "\<not> is_digit newline"
  by (simp add: is_digit_def digit_val_def)

lemma timestamp_seps_not_digit: "\<forall>c \<in> set timestamp_seps. \<not> is_digit c"
  by (simp add: timestamp_seps_def is_digit_def digit_val_def)

lemma parse_state_line:
  assumes "dquote \<notin> set x" and "length ns = 6" and "\<forall>n \<in> set ns. int64 n"
  shows "parseTimestamp E agg (state_line x ns) = Ok (x, time_Date E ns, True, False)"
proof -
  define ts where "ts = print_ints timestamp_seps ns @ [newline]"
  have line: "state_line x ns = dquote # filePrefix @ x @ dquote # '' '' @ ts"
    by (simp add: state_line_def console_log_def ts_def)
  have pos: "strings_Index (state_line x ns) filePrefix = Some 1"
    unfolding line by simp
  have rest: "drop (1 + length filePrefix) (state_line x ns) = x @ dquote # '' '' @ ts"
    unfolding line by simp
  have q: "strings_Index (x @ dquote # '' '' @ ts) [dquote] = Some (length x)"
    using assms(1) by (rule strings_Index_byte)
  have "scan_ints timestamp_seps ts = Some ns"
    unfolding ts_def by (rule scan_ints_print) (use assms timestamp_seps_not_digit in \<open>simp_all add: timestamp_seps_def\<close>)
  then have "scan_timestamp E x ts True = (x, time_Date E ns, True, False)"
    by (simp add: scan_timestamp_def)
  moreover have "slice_from (1 + length filePrefix + length x + 2) (state_line x ns) = Ok ts"
    unfolding line by (simp add: slice_from_def)
  ultimately show ?thesis
    unfolding parseTimestamp_def pos option.case Let_def rest q by simp
qed

subsection \<open>Reading the state file again\<close>

text \<open>What a line says about a file, if anything.\<close>

definition line_stamp :: "'e rot_env_scheme \<Rightarrow> string \<Rightarrow> string \<Rightarrow> (string \<times> int) option" where
  "line_stamp E agg line =
     (case parseTimestamp E agg line of
        Ok (n, fd, isCon, isAgg) \<Rightarrow> if isCon \<or> isAgg then Some (n, fd) else None
      | Panic _ \<Rightarrow> None)"

definition settled :: "'e rot_env_scheme \<Rightarrow> string \<Rightarrow> stamps \<Rightarrow> string list \<Rightarrow> bool" where
  "settled E agg m ls \<longleftrightarrow> (\<forall>l \<in> set ls. \<forall>n fd. line_stamp E agg l = Some (n, fd) \<longrightarrow> map_of m n = Some fd)"

definition no_panic :: "'e rot_env_scheme \<Rightarrow> string \<Rightarrow> string list \<Rightarrow> bool" where
  "no_panic E agg ls \<longleftrightarrow> (\<forall>l \<in> set ls. \<forall>p. parseTimestamp E agg l \<noteq> Panic p)"

lemma stamp_line_cases:
  assumes "stamp_line E agg l (m, c, a) = Ok (m', c', a')"
  obtains (none) "line_stamp E agg l = None" and "m' = m" and "c' = c" and "a' = a"
  | (old) n fd where "line_stamp E agg l = Some (n, fd)" and "map_of m n = Some fd" and "m' = m" and "c' = c" and "a' = a"
  | (new) n fd where "line_stamp E agg l = Some (n, fd)" and "map_of m n \<noteq> Some fd" and "m' = AList.update n fd m"
      and "c' \<or> a'"
proof -
  obtain n fd ic ia where p: "parseTimestamp E agg l = Ok (n, fd, ic, ia)"
    using assms by (auto simp: stamp_line_def split: outcome.splits)
  consider "\<not> (ic \<or> ia)" | "ic \<or> ia" "map_of m n = Some fd" | "ic \<or> ia" "map_of m n \<noteq> Some fd" by blast
  then show thesis
  proof cases
    case 1
    then show thesis using assms by (intro none) (simp_all add: stamp_line_def line_stamp_def p)
  next
    case 2
    then show thesis using assms by (intro old [of n fd]) (simp_all add: stamp_line_def line_stamp_def p)
  next
    case 3
    then show thesis using assms by (intro new [of n fd]) (auto simp: stamp_line_def line_stamp_def p)
  qed
qed

text \<open>Entries of files that the lines do not name stay as they are.\<close>

lemma stamp_lines_other:
  assumes "stamp_lines E agg ls (m, c, a) = Ok (m', c', a')" and "\<forall>l \<in> set ls. \<forall>fd. line_stamp E agg l \<noteq> Some (n, fd)"
  shows "map_of m' n = map_of m n"
  using assms
proof (induction ls arbitrary: m c a)
  case (Cons l ls)
  then obtain m1 c1 a1 where l: "stamp_line E agg l (m, c, a) = Ok (m1, c1, a1)"
    and ls: "stamp_lines E agg ls (m1, c1, a1) = Ok (m', c', a')" by (auto split: outcome.splits)
  from l have "map_of m1 n = map_of m n"
    by (cases rule: stamp_line_cases) (use Cons.prems(2) in \<open>auto simp: update_conv'\<close>)
  with Cons.IH [OF ls] Cons.prems(2) show ?case by simp
qed simp

lemma stamp_lines_settles:
  assumes "stamp_lines E agg ls (m, c, a) = Ok (m', c', a')"
    and "distinct (map fst (List.map_filter (line_stamp E agg) ls))"
  shows "settled E agg m' ls"
  using assms
proof (induction ls arbitrary: m c a)
  case Nil
  then show ?case by (simp add: settled_def)
next
  case (Cons l ls)
  then obtain m1 c1 a1 where l: "stamp_line E agg l (m, c, a) = Ok (m1, c1, a1)"
    and ls: "stamp_lines E agg ls (m1, c1, a1) = Ok (m', c', a')" by (auto split: outcome.splits)
  have IH: "settled E agg m' ls"
    using Cons.IH [OF ls] Cons.prems(2) by (auto simp: map_filter_simps split: option.splits)
  have "map_of m' n = Some fd" if n: "line_stamp E agg l = Some (n, fd)" for n fd
  proof -
    have "map_of m1 n = Some fd"
      using l by (cases rule: stamp_line_cases) (use n in \<open>auto simp: update_conv'\<close>)
    moreover have "\<forall>k \<in> set ls. \<forall>fd'. line_stamp E agg k \<noteq> Some (n, fd')"
      using Cons.prems(2) n by (force simp: map_filter_simps map_filter_def image_iff)
    ultimately show ?thesis using stamp_lines_other [OF ls] by simp
  qed
  with IH show ?case by (simp add: settled_def)
qed

lemma settled_again:
  assumes "settled E agg m ls" and "no_panic E agg ls"
  shows "stamp_lines E agg ls (m, c, a) = Ok (m, c, a)"
  using assms
proof (induction ls)
  case (Cons l ls)
  obtain n fd ic ia where p: "parseTimestamp E agg l = Ok (n, fd, ic, ia)"
    using Cons.prems(2) by (cases "parseTimestamp E agg l") (auto simp: no_panic_def)
  have "ic \<or> ia \<Longrightarrow> map_of m n = Some fd"
    using Cons.prems(1) p by (auto simp: settled_def line_stamp_def)
  then have "stamp_line E agg l (m, c, a) = Ok (m, c, a)" by (auto simp: stamp_line_def p)
  then show ?case using Cons by (simp add: settled_def no_panic_def)
qed simp

lemma stamp_lines_no_panic: "stamp_lines E agg ls acc = Ok r \<Longrightarrow> no_panic E agg ls"
proof (induction ls arbitrary: acc)
  case (Cons l ls)
  obtain m c a where acc: "acc = (m, c, a)" by (cases acc) auto
  from Cons.prems obtain acc1 where "stamp_line E agg l acc = Ok acc1" "stamp_lines E agg ls acc1 = Ok r"
    by (auto split: outcome.splits)
  with Cons.IH show ?case by (auto simp: no_panic_def stamp_line_def acc split: outcome.splits)
qed (simp add: no_panic_def)

subsection \<open>Frames\<close>

lemma respinAggLog_frame:
  "\<exists>f t l a. respinAggLog E s = s\<lparr>files := f, trace := trace s @ t, conAggLogger := l, aggLines := a\<rparr>"
proof -
  have refl: "\<exists>f t l a. x = x\<lparr>files := f, trace := trace x @ t, conAggLogger := l, aggLines := a\<rparr>" for x :: "'a agg_vars_scheme"
    by (intro exI [of _ "files x"] exI [of _ "[]"] exI [of _ "conAggLogger x"] exI [of _ "aggLines x"]) simp
  show ?thesis
  proof (cases "strings_LastIndex (conAggLogFile s) ''/''")
    case None
    then show ?thesis using refl [of s] by (simp add: respinAggLog_def)
  next
    case (Some pos)
    obtain ok s1 where d: "ensureDirPresent E (take pos (conAggLogFile s)) 0x1F6 s = (ok, s1)" by fastforce
    then obtain f t where s1: "s1 = s\<lparr>files := f, trace := trace s @ t\<rparr>"
      using ensureDirPresent_frame [of E "take pos (conAggLogFile s)" "0x1F6" s] by auto
    show ?thesis
    proof (cases "ok \<and> open_trunc E (conAggLogFile s1) 0x180 s1 \<noteq> None")
      case True
      then obtain s2 where 2: "open_trunc E (conAggLogFile s1) 0x180 s1 = Some s2" by blast
      from open_trunc_Some [OF this] obtain m where
        "s2 = s1\<lparr>files := (files s1)(conAggLogFile s1 \<mapsto> RegFile m []), trace := trace s1 @ [OsCall ''OpenFile'' (conAggLogFile s1)]\<rparr>"
        by blast
      then have "respinAggLog E s = s\<lparr>files := f(conAggLogFile s \<mapsto> RegFile m []),
          trace := trace s @ (t @ [OsCall ''OpenFile'' (conAggLogFile s), AggPrint ''Starting aggregation log'']),
          conAggLogger := Some (conAggLogFile s), aggLines := [log_entry ''Starting aggregation log'']\<rparr>"
        using True 2 by (simp add: respinAggLog_def Some d agg_print_def emit_def s1)
      then show ?thesis by blast
    next
      case False
      then have "respinAggLog E s = s1" by (cases ok) (auto simp: respinAggLog_def Some d)
      then show ?thesis unfolding s1
        by (intro exI [of _ f] exI [of _ t] exI [of _ "conAggLogger s"] exI [of _ "aggLines s"]) simp
    qed
  qed
qed

lemma respinAggLog_ok:
  "pools_ok (respinAggLog E s) = pools_ok s" "tails_held (respinAggLog E s) = tails_held s"
  "held (respinAggLog E s) = held s" "tails_ok (respinAggLog E s) = tails_ok s"
  "pools_disjoint (respinAggLog E s) = pools_disjoint s"
  using respinAggLog_frame [of E s]
  by (elim exE, simp add: pools_ok_def tails_held_def held_def pools_disjoint_def tails_ok_def)+

lemma rotateLogsOnce_cases:
  assumes "rotateLogsOnce E st s = Ok (st', s')"
  obtains (quiet) t f where "s' = s\<lparr>files := f, trace := trace s @ t\<rparr>"
  | (respun) t f where "s' = respinAggLog E (s\<lparr>files := f, trace := trace s @ t\<rparr>)"
proof -
  define s1 where "s1 = run_logrotate E s"
  obtain f t where s1: "s1 = s\<lparr>files := f, trace := trace s @ t\<rparr>"
    by (simp add: s1_def run_logrotate_def emit_def)
  obtain m c a where r: "readLogRotTimestamps E st s1 = Ok (m, c, a)"
    using assms by (auto simp: rotateLogsOnce_def s1_def Let_def split: outcome.splits)
  show thesis
  proof (cases "c \<or> a")
    case False
    then have "s' = s1" using assms r by (simp add: rotateLogsOnce_def s1_def [symmetric] Let_def)
    then show thesis unfolding s1 by (rule quiet)
  next
    case True
    define s2 where "s2 = emit (Sleep 5) s1"
    obtain s3 where "(if c then signalConmanHUP E s2 else Ok s2) = Ok s3" and s': "s' = (if a then respinAggLog E s3 else s3)"
      using assms r True by (auto simp: rotateLogsOnce_def s1_def [symmetric] Let_def s2_def split: outcome.splits if_splits)
    then obtain u where "s3 = s2\<lparr>trace := trace s2 @ u\<rparr>"
      using signalConmanHUP_Ok [of E s2 s3] by (cases c) (auto intro: that [of "[]"])
    then have s3: "s3 = s\<lparr>files := f, trace := trace s @ (t @ [Sleep 5] @ u)\<rparr>"
      by (simp add: s2_def s1 emit_def)
    show thesis
    proof (cases a)
      case True
      then have "s' = respinAggLog E s3" using s' by simp
      then show thesis unfolding s3 by (rule respun)
    next
      case False
      then have "s' = s3" using s' by simp
      then show thesis unfolding s3 by (rule quiet)
    qed
  qed
qed

lemma rotateLogsOnce_ok:
  assumes "rotateLogsOnce E st s = Ok (st', s')"
  shows "pools_ok s' = pools_ok s" and "tails_held s' = tails_held s" and "held s' = held s"
    and "tails_ok s' = tails_ok s" and "pools_disjoint s' = pools_disjoint s"
  using assms by (cases rule: rotateLogsOnce_cases; simp add: respinAggLog_ok)+

end
