(* ===== verification/Monitor.thy ===== *)
theory Monitor
  imports Conman_Config
begin

text \<open>
  \<^verbatim>\<open>monitor.go\<close>: every few minutes the credentials are compared with those conman was
  configured with, and the permissions of the log files are repaired.  The functions that
  take the mutex do so one after the other, so each is an atomic step of its own; the
  composition is the run in which nothing happens in between.
\<close>

definition monitorIntervalSecs :: int where
  "monitorIntervalSecs = 300"

section \<open>Credentials\<close>

text \<open>A missing previous entry compares as the zero value.\<close>

definition creds_changed :: "CompCredentials gomap option \<Rightarrow> CompCredentials gomap option \<Rightarrow> string \<Rightarrow> bool" where
  "creds_changed currentPasswords prevPasswords xname =
     (case lookup_creds currentPasswords xname of
        None \<Rightarrow> False
      | Some currentCreds \<Rightarrow>
          (let previousCreds = (case lookup_creds prevPasswords xname of Some c \<Rightarrow> c | None \<Rightarrow> zero_creds)
           in Username currentCreds \<noteq> Username previousCreds \<or> Password currentCreds \<noteq> Password previousCreds))"

definition checkIfRiverPasswordsChanged ::
  "'e cred_env_scheme \<Rightarrow> 'p cred_vars_scheme \<Rightarrow> (bool \<times> 'p cred_vars_scheme) outcome" where
  "checkIfRiverPasswordsChanged E s =
     (if previousPasswords s = None then Ok (False, s)
      else
        (let xnames = creds_xnames E ''checkIfRiverPasswordsChanged'' s
         in case getPasswords E xnames s of
              Panic p \<Rightarrow> Panic p
            | Ok (currentPasswords, s1) \<Rightarrow>
                Ok (\<exists>xname \<in> set xnames. creds_changed currentPasswords (previousPasswords s1) xname, s1)))"

definition checkIfMountainConsoleKeysChanged ::
  "'e cred_env_scheme \<Rightarrow> 'p cred_vars_scheme \<Rightarrow> (bool \<times> 'p cred_vars_scheme) option" where
  "checkIfMountainConsoleKeysChanged E s = ensureMountainConsoleKeysPresent E s"

section \<open>Permissions\<close>

definition set_mode :: "32 word \<Rightarrow> inode \<Rightarrow> inode" where
  "set_mode m i = (case i of RegFile _ c \<Rightarrow> RegFile m c | Directory _ \<Rightarrow> Directory m)"

text \<open>
  Modes here are the permission bits.  If \<^verbatim>\<open>Chmod\<close> fails nothing is changed and the
  failure is ignored.
\<close>

definition checkItemPermissions :: "'e env_scheme \<Rightarrow> string \<Rightarrow> 32 word \<Rightarrow> 'p pod_scheme \<Rightarrow> 'p pod_scheme" where
  "checkItemPermissions E itemName mode s =
     (if os_fails E (trace s) ''Stat'' itemName then s
      else
        (case files s itemName of
           None \<Rightarrow> s
         | Some i \<Rightarrow>
             if inode_mode i AND mode \<noteq> mode then
               (let newMod = inode_mode i OR mode
                in emit (ChmodCall itemName newMod)
                     (if os_fails E (trace s) ''Chmod'' itemName then s
                      else s\<lparr>files := (files s)(itemName \<mapsto> set_mode newMod i)\<rparr>))
             else s))"

definition checkLogFiles :: "'e env_scheme \<Rightarrow> 'p node_vars_scheme \<Rightarrow> 'p node_vars_scheme" where
  "checkLogFiles E s =
     fold (\<lambda>nn. checkItemPermissions E (console_log nn) 0x1B6) (getCurrNodeXnames E s) \<comment> \<open>octal 666\<close>
       (checkItemPermissions E ''/var/log/console'' 0x1FF \<comment> \<open>octal 777\<close>
         (checkItemPermissions E ''/var/log/conman.old'' 0x1FF
           (checkItemPermissions E ''/var/log/conman'' 0x1FF s)))"

section \<open>One check\<close>

definition checkForChanges ::
  "'e cred_env_scheme \<Rightarrow> 'p cred_vars_scheme \<Rightarrow> 'p cred_vars_scheme outcome option" where
  "checkForChanges E s =
     (case checkIfMountainConsoleKeysChanged E s of
        None \<Rightarrow> None
      | Some (keys, s1) \<Rightarrow>
          Some
            (case checkIfRiverPasswordsChanged E s1 of
               Panic p \<Rightarrow> Panic p
             | Ok (pws, s2) \<Rightarrow>
                 (let s3 = checkLogFiles E s2
                  in if keys \<or> pws then signalConmanTERM s3 else Ok s3)))"

definition doMonitor_turn ::
  "'e cred_env_scheme \<Rightarrow> 'p cred_vars_scheme \<Rightarrow> 'p cred_vars_scheme outcome option" where
  "doMonitor_turn E s =
     (case checkForChanges E s of
        None \<Rightarrow> None
      | Some (Panic p) \<Rightarrow> Some (Panic p)
      | Some (Ok s1) \<Rightarrow> Some (Ok (emit (Sleep monitorIntervalSecs) s1)))"

section \<open>Lemmas\<close>

lemma inode_mode_set [simp]: "inode_mode (set_mode m i) = m"
  by (cases i) (simp_all add: set_mode_def)

lemma inode_data_set: "set_mode m (RegFile m' c) = RegFile m c"
  by (simp add: set_mode_def)

text \<open>What a permission check may change: modes and the trace, nothing else.\<close>

definition same_contents :: "(string \<Rightarrow> inode option) \<Rightarrow> (string \<Rightarrow> inode option) \<Rightarrow> bool" where
  "same_contents f g \<longleftrightarrow> (\<forall>p. map_option (set_mode 0) (g p) = map_option (set_mode 0) (f p))"

definition chmod_frame :: "'p pod_scheme \<Rightarrow> 'p pod_scheme \<Rightarrow> bool" where
  "chmod_frame s s' \<longleftrightarrow> (\<exists>f t. s' = s\<lparr>files := f, trace := trace s @ t\<rparr> \<and> same_contents (files s) f)"

lemma set_mode_twice [simp]: "set_mode m (set_mode n i) = set_mode m i"
  by (cases i) (simp_all add: set_mode_def)

lemma chmod_frameI: "s' = s\<lparr>files := f, trace := trace s @ t\<rparr> \<Longrightarrow> same_contents (files s) f \<Longrightarrow> chmod_frame s s'"
  unfolding chmod_frame_def by blast

lemma chmod_frame_refl: "chmod_frame s s"
  by (rule chmod_frameI [where f = "files s" and t = "[]"]) (simp_all add: same_contents_def)

lemma chmod_frame_trans: "chmod_frame s s1 \<Longrightarrow> chmod_frame s1 s2 \<Longrightarrow> chmod_frame s s2"
  unfolding chmod_frame_def
  by (elim exE conjE, intro exI conjI) (simp, simp add: same_contents_def)

lemma checkItemPermissions_frame: "chmod_frame s (checkItemPermissions E p mode s)"
proof -
  consider (same) "checkItemPermissions E p mode s = s"
    | (failed) t where "checkItemPermissions E p mode s = s\<lparr>files := files s, trace := trace s @ t\<rparr>"
    | (changed) i m t where "files s p = Some i" and
        "checkItemPermissions E p mode s = s\<lparr>files := (files s)(p \<mapsto> set_mode m i), trace := trace s @ t\<rparr>"
    by (cases "files s p") (fastforce simp: checkItemPermissions_def Let_def emit_def)+
  then show ?thesis
  proof cases
    case same
    then show ?thesis by (simp only: chmod_frame_refl)
  next
    case (failed t)
    then show ?thesis by (rule chmod_frameI) (simp add: same_contents_def)
  next
    case (changed i m t)
    show ?thesis by (rule chmod_frameI [OF changed(2)]) (simp add: same_contents_def changed(1))
  qed
qed

lemma fold_checkItem_frame: "chmod_frame s (fold (\<lambda>nn. checkItemPermissions E (g nn) mode) ns s)"
proof (induction ns arbitrary: s)
  case (Cons n ns)
  then show ?case using chmod_frame_trans checkItemPermissions_frame by fastforce
qed (simp add: chmod_frame_refl)

lemma checkLogFiles_frame: "chmod_frame s (checkLogFiles E s)"
  unfolding checkLogFiles_def
  by (rule chmod_frame_trans [OF _ fold_checkItem_frame], rule chmod_frame_trans [OF _ checkItemPermissions_frame],
      rule chmod_frame_trans [OF _ checkItemPermissions_frame], rule checkItemPermissions_frame)

lemma chmod_frame_ok:
  assumes "chmod_frame s s'"
  shows "pools_ok s' = pools_ok s" and "tails_held s' = tails_held s" and "tails_ok s' = tails_ok s"
    and "held s' = held s" and "pools_disjoint s' = pools_disjoint s" and "later s s'"
  using assms unfolding chmod_frame_def by (elim exE conjE, simp add: later_def)+

text \<open>A path that exists has all the bits of a mode.\<close>

definition has_mode :: "string \<Rightarrow> 32 word \<Rightarrow> 'p pod_scheme \<Rightarrow> bool" where
  "has_mode p mode s \<longleftrightarrow> (\<forall>i. files s p = Some i \<longrightarrow> inode_mode i AND mode = mode)"

lemma word_absorb: "(m OR b) AND b = (b :: 32 word)"
  by (simp add: bit_eq_iff bit_simps)

lemma word_absorb_keep: "m AND b = b \<Longrightarrow> (m OR c) AND b = (b :: 32 word)"
  by (simp add: bit_eq_iff bit_simps) blast

lemma check_sets_mode:
  assumes "\<And>h. \<not> os_fails E h ''Stat'' p" and "\<And>h. \<not> os_fails E h ''Chmod'' p"
  shows "has_mode p mode (checkItemPermissions E p mode s)"
  using assms
  by (auto simp: has_mode_def checkItemPermissions_def Let_def word_absorb split: option.split)

lemma check_keeps_mode: "has_mode p mode s \<Longrightarrow> has_mode p mode (checkItemPermissions E q mode' s)"
  by (auto simp: has_mode_def checkItemPermissions_def Let_def word_absorb_keep split: option.split)

lemma fold_check_keeps_mode:
  "has_mode p mode s \<Longrightarrow> has_mode p mode (fold (\<lambda>nn. checkItemPermissions E (g nn) mode') ns s)"
  by (induction ns arbitrary: s) (simp_all add: check_keeps_mode)

lemma fold_check_sets_mode:
  assumes "\<And>h p. \<not> os_fails E h ''Stat'' p" and "\<And>h p. \<not> os_fails E h ''Chmod'' p" and "n \<in> set ns"
  shows "has_mode (g n) mode (fold (\<lambda>nn. checkItemPermissions E (g nn) mode) ns s)"
  using assms(3)
proof (induction ns arbitrary: s)
  case (Cons k ns)
  show ?case
  proof (cases "n = k")
    case True
    then show ?thesis
      using check_sets_mode [of E "g n" mode s] assms(1,2) by (simp add: fold_check_keeps_mode)
  next
    case False
    then show ?thesis using Cons by simp
  qed
qed simp

lemma getCurrNodeXnames_set [simp]: "set (getCurrNodeXnames E s) = held s"
  by (auto simp: getCurrNodeXnames_def held_def)

lemma checkLogFiles_modes:
  assumes "\<And>h p. \<not> os_fails E h ''Stat'' p" and "\<And>h p. \<not> os_fails E h ''Chmod'' p"
  shows "x \<in> held s \<Longrightarrow> has_mode (console_log x) 0x1B6 (checkLogFiles E s)"
    and "d \<in> {''/var/log/conman'', ''/var/log/conman.old'', ''/var/log/console''} \<Longrightarrow> has_mode d 0x1FF (checkLogFiles E s)"
proof -
  show "x \<in> held s \<Longrightarrow> has_mode (console_log x) 0x1B6 (checkLogFiles E s)"
    unfolding checkLogFiles_def by (rule fold_check_sets_mode [OF assms]) simp_all
  show "d \<in> {''/var/log/conman'', ''/var/log/conman.old'', ''/var/log/console''} \<Longrightarrow> has_mode d 0x1FF (checkLogFiles E s)"
    unfolding checkLogFiles_def
    by (rule fold_check_keeps_mode) (auto intro: check_keeps_mode check_sets_mode [OF assms])
qed

end
