(* ===== verification/Zombies.thy ===== *)
theory Zombies
  imports Pod_State
begin

text \<open>
  \<^verbatim>\<open>zombies.go\<close>: the service is the first process of its container and has to collect
  the exit states of orphaned children.  It finds them in the output of \<^verbatim>\<open>ps\<close>; whether the
  command itself failed is only logged, what it printed is read all the same.
\<close>

definition zombie_pid :: "string \<Rightarrow> int option" where
  "zombie_pid readLine =
     (let cols = strings_Fields readLine
      in if length cols \<ge> 2 \<and> cols ! 1 = ''Z'' then
           (case atoi (cols ! 0) of (zPid, None) \<Rightarrow> Some zPid | _ \<Rightarrow> None)
         else None)"

definition findZombies :: "'e env_scheme \<Rightarrow> 'p pod_scheme \<Rightarrow> int list \<times> 'p pod_scheme" where
  "findZombies E s =
     (List.map_filter zombie_pid (read_lines (ps_output E (trace s))), emit (OsCall ''ps'' ''-eo pid,stat'') s)"

text \<open>
  Attaching to a process cannot fail on Unix; waiting can, and is then given up.  Every zombie
  gets a goroutine of its own for this.
\<close>

definition killZombie :: "int \<Rightarrow> 'p pod_scheme \<Rightarrow> 'p pod_scheme" where
  "killZombie pid s = emit (OsCall ''Wait'' (itoa pid)) s"

definition watchForZombies_turn :: "'e env_scheme \<Rightarrow> 'p pod_scheme \<Rightarrow> 'p pod_scheme" where
  "watchForZombies_turn E s =
     (case findZombies E s of (zombies, s1) \<Rightarrow> emit (Sleep 30) (fold (\<lambda>zombie. emit (StartReaper zombie)) zombies s1))"

section \<open>Lemmas\<close>

text \<open>A table as \<^verbatim>\<open>ps -eo pid,stat\<close> prints it: padded columns.\<close>

definition ps_line :: "nat \<Rightarrow> int \<times> string \<Rightarrow> nat \<Rightarrow> string" where
  "ps_line lead row trail =
     replicate lead CHR '' '' @ itoa (fst row) @ '' '' @ snd row @ replicate trail CHR '' '' @ [newline]"

lemma fields_spaces [simp]: "fields_acc [] (replicate n CHR '' '' @ cs) = fields_acc [] cs"
  by (induction n) (simp_all add: is_space_def)

lemma fields_word:
  "\<forall>c \<in> set w. \<not> is_space c \<Longrightarrow> is_space d \<Longrightarrow> w \<noteq> [] \<or> acc \<noteq> [] \<Longrightarrow>
     fields_acc acc (w @ d # cs) = (rev acc @ w) # fields_acc [] cs"
  by (induction w arbitrary: acc) auto

lemma digit_char_not_space: "d < 10 \<Longrightarrow> \<not> is_space (digit_char d)"
  using digit_cases [of d] by (auto simp: digit_char_def is_space_def)

lemma itoa_not_space: "c \<in> set (itoa n) \<Longrightarrow> \<not> is_space c"
  using digit_char_not_space by (auto simp: itoa_def is_space_def split: if_splits dest!: nat_digits_digit)

lemma itoa_nonempty [simp]: "itoa n \<noteq> []"
  by (simp add: itoa_def)

lemma fields_ps_line:
  assumes "st \<noteq> []" and "\<forall>c \<in> set st. \<not> is_space c"
  shows "strings_Fields (ps_line i (pid, st) j) = [itoa pid, st]"
proof -
  have "fields_acc [] (itoa pid @ '' '' @ st @ replicate j CHR '' '' @ [newline]) =
      itoa pid # fields_acc [] (st @ replicate j CHR '' '' @ [newline])"
    using fields_word [of "itoa pid" "CHR '' ''" "[]" "st @ replicate j CHR '' '' @ [newline]"] itoa_not_space
    by (simp add: is_space_def)
  moreover have "fields_acc [] (st @ replicate j CHR '' '' @ [newline]) = [st]"
  proof (cases j)
    case 0
    then show ?thesis using fields_word [of st newline "[]" "[]"] assms by (simp add: is_space_def)
  next
    case (Suc k)
    then show ?thesis
      using fields_word [of st "CHR '' ''" "[]" "replicate k CHR '' '' @ [newline]"] assms
      by (simp add: is_space_def)
  qed
  ultimately show ?thesis by (simp add: strings_Fields_def ps_line_def)
qed

lemma zombie_pid_ps_line:
  assumes "st \<noteq> []" and "\<forall>c \<in> set st. \<not> is_space c" and "int64 pid"
  shows "zombie_pid (ps_line i (pid, st) j) = (if st = ''Z'' then Some pid else None)"
  using assms by (simp add: zombie_pid_def fields_ps_line atoi_itoa)

definition ps_table :: "(nat \<times> (int \<times> string) \<times> nat) list \<Rightarrow> string" where
  "ps_table rows = ''    PID STAT'' @ newline # concat (map (\<lambda>(i, row, j). ps_line i row j) rows)"

definition ps_row_ok :: "nat \<times> (int \<times> string) \<times> nat \<Rightarrow> bool" where
  "ps_row_ok r = (case r of (i, (pid, st), j) \<Rightarrow> int64 pid \<and> st \<noteq> [] \<and> (\<forall>c \<in> set st. \<not> is_space c))"

lemma read_ps_lines:
  assumes "\<forall>r \<in> set rows. ps_row_ok r"
  shows "read_lines (concat (map (\<lambda>(i, row, j). ps_line i row j) rows)) = map (\<lambda>(i, row, j). ps_line i row j) rows"
  using assms
proof (induction rows)
  case (Cons r rows)
  obtain i pid st j where r: "r = (i, (pid, st), j)" by (metis surj_pair)
  let ?l = "replicate i CHR '' '' @ itoa pid @ '' '' @ st @ replicate j CHR '' ''"
  have sp: "is_space newline" by (simp add: is_space_def)
  then have "newline \<notin> set st" using Cons.prems by (auto simp: r ps_row_ok_def)
  moreover have "newline \<notin> set (itoa pid)" using sp itoa_not_space by blast
  ultimately have "newline \<notin> set ?l" by simp
  then have "read_lines (?l @ newline # rest) = (?l @ [newline]) # read_lines rest" for rest
    by (rule read_lines_Cons)
  then have "read_lines (ps_line i (pid, st) j @ rest) = ps_line i (pid, st) j # read_lines rest" for rest
    by (simp add: ps_line_def)
  then show ?case using Cons r by simp
qed simp

lemma zombies_in_table:
  assumes "\<forall>r \<in> set rows. ps_row_ok r"
  shows "List.map_filter zombie_pid (map (\<lambda>(i, row, j). ps_line i row j) rows) =
    map (\<lambda>(i, row, j). fst row) (filter (\<lambda>(i, row, j). snd row = ''Z'') rows)"
  using assms
proof (induction rows)
  case (Cons r rows)
  obtain i pid st j where r: "r = (i, (pid, st), j)" by (metis surj_pair)
  have "zombie_pid (ps_line i (pid, st) j) = (if st = ''Z'' then Some pid else None)"
    using Cons.prems r by (intro zombie_pid_ps_line) (auto simp: ps_row_ok_def)
  then show ?case using Cons r by (simp add: map_filter_simps)
qed (simp add: map_filter_simps)

lemma findZombies_table:
  assumes "ps_output E (trace s) = ps_table rows" and "\<forall>r \<in> set rows. ps_row_ok r"
  shows "fst (findZombies E s) = map (\<lambda>(i, row, j). fst row) (filter (\<lambda>(i, row, j). snd row = ''Z'') rows)"
proof -
  have "read_lines (ps_table rows) = (''    PID STAT'' @ [newline]) # map (\<lambda>(i, row, j). ps_line i row j) rows"
    using read_lines_Cons [of "''    PID STAT''"] read_ps_lines [OF assms(2)] by (simp add: ps_table_def)
  moreover have "zombie_pid (''    PID STAT'' @ [newline]) = None"
    by (simp add: zombie_pid_def strings_Fields_def is_space_def)
  ultimately show ?thesis
    by (simp add: findZombies_def assms(1) map_filter_simps zombies_in_table [OF assms(2)])
qed

end
