(* ===== verification/Health.thy ===== *)
theory Health
  imports Heartbeat
begin

text \<open>
  The three handlers of \<^verbatim>\<open>health.go\<close>.  They read the globals without the mutex and change
  none of them; a handler is a function from the response written so far to the response.
\<close>

record HealthResponse =
  NumMtnConnected :: string
  NumRvrConnected :: string
  TargetNumMtn :: string
  TargetNumRvr :: string
  LastHeartbeat :: string

definition json_HealthResponse :: "HealthResponse \<Rightarrow> json" where
  "json_HealthResponse h =
     JObj [(''num_mtn'', JStr (NumMtnConnected h)), (''num_rvr'', JStr (NumRvrConnected h)),
           (''target_mtn'', JStr (TargetNumMtn h)), (''target_rvr'', JStr (TargetNumRvr h)),
           (''last_heartbeat'', JStr (LastHeartbeat h))]"

definition health_stats :: "'p hb_vars_scheme \<Rightarrow> HealthResponse" where
  "health_stats s =
     \<lparr>NumMtnConnected = itoa (int (length (currentMtnNodes s)) + int (length (currentPdsNodes s))),
      NumRvrConnected = itoa (int (length (currentRvrNodes s))),
      TargetNumMtn = itoa (targetMtnNodes s), TargetNumRvr = itoa (targetRvrNodes s),
      LastHeartbeat = lastHeartbeatTime s\<rparr>"

text \<open>The guard all three handlers begin with.\<close>

definition method_not_allowed :: "string \<Rightarrow> response_writer \<Rightarrow> response_writer" where
  "method_not_allowed meth w =
     sendJSONError (Header_Set ''Allow'' ''GET'' w) 405 (''('' @ meth @ '') Not Allowed'')"

definition doHealth :: "'p hb_vars_scheme \<Rightarrow> string \<Rightarrow> response_writer \<Rightarrow> response_writer" where
  "doHealth s meth w =
     (if meth \<noteq> ''GET'' then method_not_allowed meth w
      else
        Encode (json_HealthResponse (health_stats s))
          (Header_Set ''Content-Type'' ''application/json'' (WriteHeader 200 w)))"

definition doLiveness :: "string \<Rightarrow> response_writer \<Rightarrow> response_writer" where
  "doLiveness meth w = (if meth \<noteq> ''GET'' then method_not_allowed meth w else WriteHeader 204 w)"

definition doReadiness :: "string \<Rightarrow> response_writer \<Rightarrow> response_writer" where
  "doReadiness meth w = (if meth \<noteq> ''GET'' then method_not_allowed meth w else WriteHeader 204 w)"

text \<open>
  The paths that \<^verbatim>\<open>main\<close> registers with \<^verbatim>\<open>http.DefaultServeMux\<close>.  None of them ends with a
  slash, so each is matched exactly; \<open>None\<close> is a path that reaches no handler of the
  service.
\<close>

definition serve :: "'p hb_vars_scheme \<Rightarrow> string \<Rightarrow> string \<Rightarrow> response_writer option" where
  "serve s path meth =
     (if path = ''/console-node/liveness'' then Some (doLiveness meth new_writer)
      else if path = ''/console-node/readiness'' then Some (doReadiness meth new_writer)
      else if path = ''/console-node/health'' then Some (doHealth s meth new_writer)
      else None)"

section \<open>Lemmas\<close>

lemma WriteHeader_sent: "rw_sent (WriteHeader sc w) = (case rw_sent w of None \<Rightarrow> Some (sc, rw_header w) | Some r \<Rightarrow> Some r)"
  by (cases "rw_sent w") (simp_all add: WriteHeader_def)

lemma doHealth_get:
  "rw_sent (doHealth s ''GET'' new_writer) = Some (200, []) \<and>
   rw_body (doHealth s ''GET'' new_writer) = [json_HealthResponse (health_stats s)]"
  by (simp add: doHealth_def Encode_def Header_Set_def WriteHeader_def new_writer_def Let_def)

lemma probes_get:
  "doLiveness ''GET'' new_writer = new_writer\<lparr>rw_sent := Some (204, [])\<rparr>"
  "doReadiness ''GET'' new_writer = new_writer\<lparr>rw_sent := Some (204, [])\<rparr>"
  by (simp_all add: doLiveness_def doReadiness_def WriteHeader_def new_writer_def)

end
