(* ===== verification/Debug_Logs.thy ===== *)
theory Debug_Logs
  imports Log_Rotate_Conf
begin

text \<open>
  \<^verbatim>\<open>createTestLogFile\<close> of \<^verbatim>\<open>data.go\<close>, which writes fake console lines where there are no
  consoles.  It runs as a goroutine that opens its file once and then writes to it forever.
  What it writes goes to the file it has opened, also after the file was moved away, so the
  lines belong to the goroutine and not to the path; they are kept without the date and time
  that the logger puts before each of them.
\<close>

record test_log =
  tl_xname :: string
  tl_file :: "string option" \<comment> \<open>the path that was opened; \<open>None\<close> is a nil file, which takes no writes\<close>
  tl_cnt :: int
  tl_lines :: "string list"

definition createTestLogFile_open ::
  "'e env_scheme \<Rightarrow> string \<Rightarrow> bool \<Rightarrow> 'p pod_scheme \<Rightarrow> test_log option \<times> 'p pod_scheme" where
  "createTestLogFile_open E xname respin s =
     (let filename = console_log xname
      in if respin \<and> \<not> os_fails E (trace s) ''Stat'' filename \<and> files s filename \<noteq> None then (None, s)
         else
           (case open_trunc E filename 0x180 s of \<comment> \<open>octal 600\<close>
              None \<Rightarrow> (Some \<lparr>tl_xname = xname, tl_file = None, tl_cnt = 0, tl_lines = []\<rparr>, s)
            | Some s1 \<Rightarrow> (Some \<lparr>tl_xname = xname, tl_file = Some filename, tl_cnt = 0, tl_lines = []\<rparr>, s1)))"

definition test_line :: "string \<Rightarrow> int \<Rightarrow> string" where
  "test_line xname lineCnt =
     xname @ '', '' @ itoa lineCnt @
     '': ASAS:LDL:KJFSADSDfDSLKJYUIYHIUNMNKJHSDFKJHDSLKJDFHLKJDSFHASKAJUHSDAASDLKJFHLKJHADSLKJDSHFLKJDHFSD:OUISDFLKDJFHASLJKFHDKJFH''"

definition test_print :: "string \<Rightarrow> test_log \<Rightarrow> test_log" where
  "test_print str w = (if tl_file w = None then w else w\<lparr>tl_lines := tl_lines w @ [log_entry str]\<rparr>)"

fun test_lines :: "nat \<Rightarrow> test_log \<Rightarrow> test_log" where
  "test_lines 0 w = w"
| "test_lines (Suc n) w =
     test_lines n ((test_print (test_line (tl_xname w) (tl_cnt w)) w)\<lparr>tl_cnt := add64 (tl_cnt w) 1\<rparr>)"

definition createTestLogFile_turn :: "test_log \<Rightarrow> 'p pod_scheme \<Rightarrow> test_log \<times> 'p pod_scheme" where
  "createTestLogFile_turn w s = (test_lines 10 (test_print ''Start new write:'' w), emit (Sleep 1) s)"

section \<open>Lemmas\<close>

lemma createTestLogFile_open_frame:
  "\<exists>f t. snd (createTestLogFile_open E x respin s) = s\<lparr>files := f, trace := trace s @ t\<rparr>"
proof -
  have same: "\<exists>f t. s = s\<lparr>files := f, trace := trace s @ t\<rparr>" by (intro exI [of _ "files s"] exI [of _ "[]"]) simp
  show ?thesis
  proof (cases "snd (createTestLogFile_open E x respin s) = s")
    case False
    then have "open_trunc E (console_log x) 0x180 s = Some (snd (createTestLogFile_open E x respin s))"
      by (auto simp: createTestLogFile_open_def Let_def split: if_splits option.splits)
    from open_trunc_Some [OF this] show ?thesis by blast
  qed (use same in simp)
qed

text \<open>What a goroutine with an open file has written after some turns: ten numbered lines each.\<close>

definition test_block :: "string \<Rightarrow> nat \<Rightarrow> string list" where
  "test_block x j =
     log_entry ''Start new write:'' # map (\<lambda>i. log_entry (test_line x (int (10 * j + i)))) [0..<10]"

fun test_turns :: "nat \<Rightarrow> test_log \<times> 'p pod_scheme \<Rightarrow> test_log \<times> 'p pod_scheme" where
  "test_turns 0 ws = ws"
| "test_turns (Suc k) ws = case_prod createTestLogFile_turn (test_turns k ws)"

lemma test_lines_eq:
  assumes "tl_file w = Some f" and "0 \<le> tl_cnt w" and "tl_cnt w + int n < 2 ^ 63"
  shows "test_lines n w = w\<lparr>tl_cnt := tl_cnt w + int n,
    tl_lines := tl_lines w @ map (\<lambda>i. log_entry (test_line (tl_xname w) (tl_cnt w + int i))) [0..<n]\<rparr>"
  using assms
proof (induction n arbitrary: w)
  case (Suc n)
  let ?w = "(test_print (test_line (tl_xname w) (tl_cnt w)) w)\<lparr>tl_cnt := add64 (tl_cnt w) 1\<rparr>"
  have "int64 (tl_cnt w + 1)" using Suc.prems by (simp add: int64_def)
  then have w: "?w = w\<lparr>tl_cnt := tl_cnt w + 1, tl_lines := tl_lines w @ [log_entry (test_line (tl_xname w) (tl_cnt w))]\<rparr>"
    using Suc.prems by (simp add: test_print_def add64_id)
  have "test_lines n ?w = ?w\<lparr>tl_cnt := tl_cnt ?w + int n,
      tl_lines := tl_lines ?w @ map (\<lambda>i. log_entry (test_line (tl_xname ?w) (tl_cnt ?w + int i))) [0..<n]\<rparr>"
    by (rule Suc.IH) (use Suc.prems in \<open>simp_all add: w\<close>)
  moreover have "map (\<lambda>i. log_entry (test_line x (c + int i))) [0..<Suc n] =
      log_entry (test_line x c) # map (\<lambda>i. log_entry (test_line x (c + 1 + int i))) [0..<n]" for x c
    by (simp add: upt_conv_Cons map_Suc_upt [symmetric] ac_simps del: upt_Suc)
  ultimately show ?case by (simp add: w ac_simps)
qed simp

lemma test_turns_eq:
  assumes "tl_file w = Some f" and "tl_cnt w = 0" and "tl_lines w = []" and "10 * int k < 2 ^ 63"
  shows "\<exists>t. test_turns k (w, s) =
    (w\<lparr>tl_cnt := 10 * int k, tl_lines := concat (map (test_block (tl_xname w)) [0..<k])\<rparr>, s\<lparr>trace := t\<rparr>)"
  using assms(4)
proof (induction k)
  case 0
  then show ?case using assms(2,3) by (intro exI [of _ "trace s"]) simp
next
  case (Suc k)
  then obtain t where t: "test_turns k (w, s) =
      (w\<lparr>tl_cnt := 10 * int k, tl_lines := concat (map (test_block (tl_xname w)) [0..<k])\<rparr>, s\<lparr>trace := t\<rparr>)"
    by (auto simp: algebra_simps)
  let ?w = "w\<lparr>tl_cnt := 10 * int k, tl_lines := concat (map (test_block (tl_xname w)) [0..<k]) @ [log_entry ''Start new write:'']\<rparr>"
  have "test_lines 10 ?w = ?w\<lparr>tl_cnt := tl_cnt ?w + int 10,
      tl_lines := tl_lines ?w @ map (\<lambda>i. log_entry (test_line (tl_xname ?w) (tl_cnt ?w + int i))) [0..<10]\<rparr>"
    by (rule test_lines_eq) (use assms(1) Suc.prems in simp_all)
  also have "\<dots> = w\<lparr>tl_cnt := 10 * int (Suc k), tl_lines := concat (map (test_block (tl_xname w)) [0..<Suc k])\<rparr>"
    by (simp add: test_block_def algebra_simps del: upt_rec_numeral)
  finally have "test_lines 10 ?w = \<dots>" .
  then have "test_turns (Suc k) (w, s) =
      (w\<lparr>tl_cnt := 10 * int (Suc k), tl_lines := concat (map (test_block (tl_xname w)) [0..<Suc k])\<rparr>, s\<lparr>trace := t @ [Sleep 1]\<rparr>)"
    using assms(1) by (simp add: t createTestLogFile_turn_def test_print_def emit_def del: upt_Suc)
  then show ?case by blast
qed

end
