(* ===== verification/Pod_Main.thy ===== *)
theory Pod_Main
  imports Log_Rotation Monitor Zombies Health Debug_Logs
begin

text \<open>
  The start and the end of \<^verbatim>\<open>main\<close> in \<^verbatim>\<open>consoleNodeMain.go\<close>, and \<^verbatim>\<open>setPodName\<close>.  Between
  them \<^verbatim>\<open>main\<close> starts the goroutines and waits for a signal; what those do is in their own
  theories and how they interleave in \<open>Threads\<close>.
\<close>

section \<open>setPodName\<close>

definition pod_id :: "string \<Rightarrow> string \<Rightarrow> string" where
  "pod_id name old =
     (case strings_LastIndex name ''-'' of
        Some pos \<Rightarrow> if pos > 0 then drop (pos + 1) name else old
      | None \<Rightarrow> old)"

definition setPodName :: "'e env_scheme \<Rightarrow> 'p agg_vars_scheme \<Rightarrow> 'p agg_vars_scheme" where
  "setPodName E s =
     (let val = getenv E ''MY_POD_NAME'';
          name = (if val \<noteq> [] then val else ''cray-console-node-'' @ itoa (rand_Intn E 2000 + 1000))
      in s\<lparr>podName := name,
           podID := (if length name > 0 then pod_id name (podID s) else podID s),
           conAggLogFile := conAggLogFileBase @ name @ ''.log''\<rparr>)"

section \<open>Starting\<close>

definition read_settings :: "'e env_scheme \<Rightarrow> bool \<Rightarrow> 'p hb_vars_scheme \<Rightarrow> 'p hb_vars_scheme" where
  "read_settings E debugFlag s =
     (let s1 = s\<lparr>debugOnly := (debugFlag \<or> getenv E ''DEBUG'' = ''TRUE'')\<rparr>;
          s2 = s1\<lparr>heartbeatIntervalSecs := readSingleEnvVarInt E ''HEARTBEAT_SEND_FREQ_SEC'' (heartbeatIntervalSecs s1) 5 300\<rparr>;
          s3 = s2\<lparr>newNodeLookupSec := readSingleEnvVarInt E ''NODE_UPDATE_FREQ_SEC'' (newNodeLookupSec s2) 10 600\<rparr>;
          s4 = s3\<lparr>maxAcquireMtn := readSingleEnvVarInt E ''MAX_ACQUIRE_PER_UPDATE_MTN'' (maxAcquireMtn s3) 5 2000\<rparr>
      in s4\<lparr>maxAcquireRvr := readSingleEnvVarInt E ''MAX_ACQUIRE_PER_UPDATE_RVR'' (maxAcquireRvr s4) 5 4000\<rparr>)"

text \<open>
  Up to the first goroutine.  \<open>None\<close>: the operator never says where the pod runs.  The mode
  of the log directory is written \<^verbatim>\<open>666\<close> in the source, in decimal.
\<close>

definition main_start :: "'e env_scheme \<Rightarrow> bool \<Rightarrow> 'p hb_vars_scheme \<Rightarrow> 'p hb_vars_scheme option" where
  "main_start E debugFlag s =
     (let s1 = read_settings E debugFlag s;
          s2 = snd (ensureDirPresent E ''/var/log/conman'' 666 s1);
          s3 = setPodName E s2
      in map_option (\<lambda>s4. logRotate E (respinAggLog E s4))
           (setPodLocation (manager_service NewOperatorService E) s3))"

section \<open>Stopping\<close>

definition main_stop :: "'e env_scheme \<Rightarrow> 'p node_vars_scheme \<Rightarrow> 'p node_vars_scheme" where
  "main_stop E s = releaseAllNodes E (s\<lparr>inShutdown := True\<rparr>)"

text \<open>The globals as they are initialised.\<close>

definition initial_vars :: "(string \<Rightarrow> inode option) \<Rightarrow> cred_vars" where
  "initial_vars fs =
     \<lparr>trace = [], files = fs, debugOnly = False, podName = [], podID = [],
      podLocData = Some \<lparr>PodName = [], Alias = [], Xname = []\<rparr>, inShutdown = False,
      conAggLogger = None, aggLines = [], conAggLogFile = [],
      tailThreads = [], tailers = [], tailing = [], cancelled = [], nextCtx = 0,
      currentMtnNodes = [], currentRvrNodes = [], currentPdsNodes = [],
      targetRvrNodes = -1, targetMtnNodes = -1, maxAcquireRvr = 500, maxAcquireMtn = 200, newNodeLookupSec = 30,
      command = NoCommand,
      logRotEnabled = True, logRotCheckFreqSec = 600, logRotConFileSize = ''5M'', logRotConNumRotate = 2,
      logRotAggFileSize = ''20M'', logRotAggNumRotate = 1,
      lastHeartbeatTime = ''None'', heartbeatIntervalSecs = 30,
      previousPasswords = None, previousPrivateKeyHash = None\<rparr>"

text \<open>No node yet, no tail, no process: so it is when the goroutines are started.\<close>

definition fresh_vars :: "'p conman_vars_scheme \<Rightarrow> bool" where
  "fresh_vars v \<longleftrightarrow>
     command v = NoCommand \<and> \<not> inShutdown v \<and> currentRvrNodes v = [] \<and> currentMtnNodes v = [] \<and>
     currentPdsNodes v = [] \<and> tailThreads v = [] \<and> tailers v = [] \<and> targetRvrNodes v = -1 \<and> targetMtnNodes v = -1"

section \<open>Lemmas\<close>

lemma fresh_vars_frame [simp]:
  "fresh_vars (s\<lparr>files := f\<rparr>) = fresh_vars s" "fresh_vars (s\<lparr>trace := t\<rparr>) = fresh_vars s"
  "fresh_vars (s\<lparr>podLocData := p\<rparr>) = fresh_vars s" "fresh_vars (s\<lparr>conAggLogger := l\<rparr>) = fresh_vars s"
  "fresh_vars (s\<lparr>aggLines := a\<rparr>) = fresh_vars s" "fresh_vars (setPodName E s) = fresh_vars s"
  by (simp_all add: fresh_vars_def setPodName_def Let_def)

lemma fresh_vars_ops [simp]:
  "fresh_vars (snd (ensureDirPresent E d perm s)) = fresh_vars s" "fresh_vars (respinAggLog E s) = fresh_vars s"
  "fresh_vars (updateLogRotateConf E v) = fresh_vars v"
  using ensureDirPresent_frame [of E d perm s] respinAggLog_frame [of E s] updateLogRotateConf_frame [of E v] by auto

lemma fresh_vars_settings [simp]:
  "fresh_vars (s\<lparr>debugOnly := b\<rparr>) = fresh_vars s" "fresh_vars (h\<lparr>heartbeatIntervalSecs := n\<rparr>) = fresh_vars h"
  "fresh_vars (s\<lparr>newNodeLookupSec := n\<rparr>) = fresh_vars s" "fresh_vars (s\<lparr>maxAcquireMtn := n\<rparr>) = fresh_vars s"
  "fresh_vars (s\<lparr>maxAcquireRvr := n\<rparr>) = fresh_vars s" "fresh_vars (v\<lparr>logRotEnabled := b\<rparr>) = fresh_vars v"
  "fresh_vars (v\<lparr>logRotConFileSize := x\<rparr>) = fresh_vars v" "fresh_vars (v\<lparr>logRotCheckFreqSec := n\<rparr>) = fresh_vars v"
  "fresh_vars (v\<lparr>logRotConNumRotate := n\<rparr>) = fresh_vars v"
  by (simp_all add: fresh_vars_def)

lemma fresh_vars_start [simp]:
  "fresh_vars (read_settings E dbg h) = fresh_vars h" "fresh_vars (logRotate E v) = fresh_vars v"
  by (simp_all add: read_settings_def logRotate_def doInitialConfFileUpdate_def Let_def)

lemma main_start_fresh:
  assumes "main_start E dbg s = Some s'" and "fresh_vars s"
  shows "fresh_vars s'"
proof -
  let ?s3 = "setPodName E (snd (ensureDirPresent E ''/var/log/conman'' 666 (read_settings E dbg s)))"
  obtain s4 where 4: "setPodLocation (manager_service NewOperatorService E) ?s3 = Some s4"
    and s': "s' = logRotate E (respinAggLog E s4)"
    using assms(1) by (auto simp: main_start_def Let_def)
  obtain u p where "s4 = ?s3\<lparr>trace := trace ?s3 @ u, podLocData := p\<rparr>"
    using manager.setPodLocation_frame [OF 4] by blast
  then have "fresh_vars s4" using assms(2) by simp
  then show ?thesis by (simp add: s')
qed
end
