(* ===== verification/Threads.thy ===== *)
theory Threads
  imports Pod_Main
begin

text \<open>
  The goroutines that \<^verbatim>\<open>main\<close> starts, interleaved.  A step is what one goroutine does
  while it holds \<^verbatim>\<open>currNodesMutex\<close>, or one access to the shared globals without it; the
  position of each goroutine between its steps is part of the state.  A goroutine whose wait
  for Vault never ends keeps the mutex for good, and whoever needs it waits for it.  A panic
  in any goroutine ends the process, and so does a signal that \<^verbatim>\<open>main\<close> does not receive.  The
  handlers of \<^verbatim>\<open>health.go\<close> change no global and are no steps.
\<close>

datatype watch_pc = WIdle | WChecked \<comment> \<open>\<^verbatim>\<open>inShutdown\<close> was read and false\<close>

datatype conman_pc = CConfig bool | CCreate | CStart | CWait | CClear

datatype monitor_pc = MKeys | MPasswords bool | MFiles bool | MSignal bool

text \<open>
  Where \<^verbatim>\<open>main\<close> is: the goroutines are started, the signals are registered, a signal was
  received, the nodes are released, \<^verbatim>\<open>main\<close> has returned.
\<close>

datatype main_pc = Starting | Serving | Stopping | Stopped | Ended

primrec pc_rank :: "main_pc \<Rightarrow> nat" where
  "pc_rank Starting = 0"
| "pc_rank Serving = 1"
| "pc_rank Stopping = 2"
| "pc_rank Stopped = 3"
| "pc_rank Ended = 4"

instantiation main_pc :: linorder
begin

definition less_eq_main_pc :: "main_pc \<Rightarrow> main_pc \<Rightarrow> bool" where
  "less_eq_main_pc x y \<longleftrightarrow> pc_rank x \<le> pc_rank y"

definition less_main_pc :: "main_pc \<Rightarrow> main_pc \<Rightarrow> bool" where
  "less_main_pc x y \<longleftrightarrow> pc_rank x < pc_rank y"

instance
proof
  fix x y :: main_pc
  show "x \<le> y \<Longrightarrow> y \<le> x \<Longrightarrow> x = y" by (cases x; cases y) (simp_all add: less_eq_main_pc_def)
qed (auto simp: less_eq_main_pc_def less_main_pc_def)

end

datatype os_signal = SigInt | SigTerm | SigKill

text \<open>A goroutine of \<^verbatim>\<open>createTestLogFile\<close>: just started, or writing.\<close>

datatype test_goroutine = TestNew string | TestRun test_log

record system =
  vars :: cred_vars
  wpc :: watch_pc
  cpc :: conman_pc
  mpc :: monitor_pc
  main_at :: main_pc
  rot_at :: "(int \<times> stamps) option" \<comment> \<open>the period and the times seen, once the loop of \<^verbatim>\<open>doLogRotate\<close> runs\<close>
  kill_on :: bool \<comment> \<open>\<^verbatim>\<open>killTails\<close> was started and has not returned\<close>
  reapers :: "int list" \<comment> \<open>the goroutines of \<^verbatim>\<open>killZombie\<close>\<close>
  testers :: "test_goroutine list" \<comment> \<open>the goroutines of \<^verbatim>\<open>createTestLogFile\<close>\<close>
  sigs :: "os_signal list" \<comment> \<open>the channel of signals, which has room for one\<close>
  stuck :: bool \<comment> \<open>\<^verbatim>\<open>currNodesMutex\<close> is held by a goroutine that will not return\<close>
  crashed :: bool \<comment> \<open>ended by a panic or by a signal that was not received\<close>

datatype action =
  WatchCheck | WatchRound | Beat | ConmanStep | MonitorStep | Rotate | Tail "nat \<times> string" tail_input
| Zombie | Reap int | Test nat | Kill | Listen | Signal os_signal | StopFlag | StopRelease | Exit

section \<open>The steps of each goroutine\<close>

text \<open>\<open>None\<close>: not enabled here, or never returning.\<close>

type_synonym 'a attempt = "'a outcome option"

definition on_vars :: "cred_vars outcome \<Rightarrow> (cred_vars \<Rightarrow> system) \<Rightarrow> system outcome" where
  "on_vars r f = (case r of Panic p \<Rightarrow> Panic p | Ok v \<Rightarrow> Ok (f v))"

definition watch_check :: "system \<Rightarrow> system attempt" where
  "watch_check S =
     (if wpc S = WIdle then
        Some (Ok (if inShutdown (vars S) then S\<lparr>vars := emit (Sleep (newNodeLookupSec (vars S))) (vars S)\<rparr>
                  else S\<lparr>wpc := WChecked\<rparr>))
      else None)"

definition watch_round :: "'e rot_env_scheme \<Rightarrow> system \<Rightarrow> system attempt" where
  "watch_round E S =
     (if wpc S = WChecked then
        Some (on_vars (doGetNewNodes_locked E (manager_service NewOperatorService E) (vars S))
          (\<lambda>v. S\<lparr>vars := emit (Sleep (newNodeLookupSec v)) v, wpc := WIdle\<rparr>))
      else None)"

definition beat :: "'e rot_env_scheme \<Rightarrow> system \<Rightarrow> system attempt" where
  "beat E S = Some (on_vars (doHeartbeat_turn E (vars S)) (\<lambda>v. S\<lparr>vars := v\<rparr>))"

text \<open>A step that starts goroutines says so in the trace.\<close>

definition new_reapers :: "event list \<Rightarrow> int list" where
  "new_reapers es = List.map_filter (\<lambda>e. case e of StartReaper pid \<Rightarrow> Some pid | _ \<Rightarrow> None) es"

definition new_testers :: "event list \<Rightarrow> test_goroutine list" where
  "new_testers es = List.map_filter (\<lambda>e. case e of StartTestLog nn \<Rightarrow> Some (TestNew nn) | _ \<Rightarrow> None) es"

definition spawn :: "cred_vars \<Rightarrow> system \<Rightarrow> system" where
  "spawn v S =
     (let es = drop (length (trace (vars S))) (trace v)
      in S\<lparr>vars := v, reapers := reapers S @ new_reapers es, testers := testers S @ new_testers es\<rparr>)"

text \<open>\<^verbatim>\<open>runConman\<close> and \<^verbatim>\<open>executeConman\<close>, with the life of \<^verbatim>\<open>command\<close>.\<close>

definition after_config :: "system \<Rightarrow> bool \<Rightarrow> cred_vars \<Rightarrow> system" where
  "after_config S hasNodes v =
     (if debugOnly v then S\<lparr>vars := emit (Sleep 10) (emit (Sleep 25) v), cpc := CConfig False\<rparr>
      else if \<not> hasNodes then S\<lparr>vars := emit (Sleep 10) (emit (Sleep 30) v), cpc := CConfig False\<rparr>
      else S\<lparr>vars := v, cpc := CCreate\<rparr>)"

definition conman_step :: "'e rot_env_scheme \<Rightarrow> system \<Rightarrow> system attempt" where
  "conman_step E S =
     (case cpc S of
        CConfig force \<Rightarrow>
          (case configConman E force (vars S) of
             None \<Rightarrow> None
           | Some (Panic p) \<Rightarrow> Some (Panic p)
           | Some (Ok (hasNodes, v)) \<Rightarrow> Some (Ok (after_config S hasNodes v)))
      | CCreate \<Rightarrow> Some (Ok (S\<lparr>vars := conman_create (vars S), cpc := CStart\<rparr>))
      | CStart \<Rightarrow> Some (on_vars (conman_start E (vars S)) (\<lambda>v. S\<lparr>vars := v, cpc := CWait\<rparr>))
      | CWait \<Rightarrow> Some (Ok (S\<lparr>vars := conman_wait E (vars S), cpc := CClear\<rparr>))
      | CClear \<Rightarrow> Some (Ok (S\<lparr>vars := emit (Sleep 10) (conman_clear (vars S)), cpc := CConfig False\<rparr>)))"

definition monitor_step :: "'e rot_env_scheme \<Rightarrow> system \<Rightarrow> system attempt" where
  "monitor_step E S =
     (case mpc S of
        MKeys \<Rightarrow>
          map_option (\<lambda>(b, v). Ok (S\<lparr>vars := v, mpc := MPasswords b\<rparr>)) (checkIfMountainConsoleKeysChanged E (vars S))
      | MPasswords b \<Rightarrow>
          Some (case checkIfRiverPasswordsChanged E (vars S) of
                  Panic p \<Rightarrow> Panic p
                | Ok (c, v) \<Rightarrow> Ok (S\<lparr>vars := v, mpc := MFiles (b \<or> c)\<rparr>))
      | MFiles b \<Rightarrow> Some (Ok (S\<lparr>vars := checkLogFiles E (vars S), mpc := MSignal b\<rparr>))
      | MSignal b \<Rightarrow>
          Some (on_vars (if b then signalConmanTERM (vars S) else Ok (vars S))
            (\<lambda>v. S\<lparr>vars := emit (Sleep monitorIntervalSecs) v, mpc := MKeys\<rparr>)))"

definition rotate_step :: "'e rot_env_scheme \<Rightarrow> system \<Rightarrow> system attempt" where
  "rotate_step E S =
     Some (case rot_at S of
             None \<Rightarrow>
               (case doLogRotate_init E (vars S) of
                  Panic p \<Rightarrow> Panic p
                | Ok (st, sleepSecs, v) \<Rightarrow> Ok (S\<lparr>vars := v, rot_at := Some (sleepSecs, st)\<rparr>))
           | Some (sleepSecs, st) \<Rightarrow>
               (case doLogRotate_turn E sleepSecs st (vars S) of
                  Panic p \<Rightarrow> Panic p
                | Ok (st', v) \<Rightarrow> Ok ((spawn v S)\<lparr>rot_at := Some (sleepSecs, st')\<rparr>)))"

definition tail_step :: "nat \<times> string \<Rightarrow> tail_input \<Rightarrow> system \<Rightarrow> system attempt" where
  "tail_step t i S =
     (if tail_enabled t i (vars S)
      then Some (on_vars (watch_step t i (vars S)) (\<lambda>v. S\<lparr>vars := v\<rparr>))
      else None)"

definition kill_step :: "'e rot_env_scheme \<Rightarrow> system \<Rightarrow> system attempt" where
  "kill_step E S =
     (if kill_on S then
        Some (Ok (S\<lparr>vars := snd (killTails_pass E (vars S)), kill_on := fst (killTails_pass E (vars S))\<rparr>))
      else None)"

definition zombie_step :: "'e rot_env_scheme \<Rightarrow> system \<Rightarrow> system attempt" where
  "zombie_step E S = Some (Ok (spawn (watchForZombies_turn E (vars S)) S))"

definition reap_step :: "int \<Rightarrow> system \<Rightarrow> system attempt" where
  "reap_step pid S =
     (if pid \<in> set (reapers S) then
        Some (Ok (S\<lparr>vars := killZombie pid (vars S), reapers := remove1 pid (reapers S)\<rparr>))
      else None)"

text \<open>The only caller starts \<^verbatim>\<open>createTestLogFile\<close> to respin a log.\<close>

definition test_step :: "'e rot_env_scheme \<Rightarrow> nat \<Rightarrow> system \<Rightarrow> system attempt" where
  "test_step E i S =
     (if i < length (testers S) then
        Some (Ok (case testers S ! i of
          TestNew xname \<Rightarrow>
            (case createTestLogFile_open E xname True (vars S) of
               (None, v) \<Rightarrow> S\<lparr>vars := v, testers := take i (testers S) @ drop (Suc i) (testers S)\<rparr>
             | (Some w, v) \<Rightarrow> S\<lparr>vars := v, testers := (testers S)[i := TestRun w]\<rparr>)
        | TestRun w \<Rightarrow>
            (case createTestLogFile_turn w (vars S) of
               (w', v) \<Rightarrow> S\<lparr>vars := v, testers := (testers S)[i := TestRun w']\<rparr>)))
      else None)"

text \<open>
  \<^verbatim>\<open>signal.Notify\<close> comes after the goroutines were started: until then a signal ends the
  process at once.  A kill does so at any time.  Later signals wait in the channel, or are
  dropped when one waits there already.
\<close>

definition listen :: "system \<Rightarrow> system attempt" where
  "listen S = (if main_at S = Starting then Some (Ok (S\<lparr>main_at := Serving\<rparr>)) else None)"

definition deliver :: "os_signal \<Rightarrow> system \<Rightarrow> system attempt" where
  "deliver sig S =
     Some (Ok (if sig = SigKill \<or> main_at S = Starting then S\<lparr>crashed := True\<rparr>
               else if sigs S = [] then S\<lparr>sigs := [sig]\<rparr>
               else S))"

definition stop_flag :: "system \<Rightarrow> system attempt" where
  "stop_flag S =
     (if main_at S = Serving \<and> sigs S \<noteq> [] then
        Some (Ok (S\<lparr>vars := (vars S)\<lparr>inShutdown := True\<rparr>, main_at := Stopping, sigs := tl (sigs S)\<rparr>))
      else None)"

definition stop_release :: "'e rot_env_scheme \<Rightarrow> system \<Rightarrow> system attempt" where
  "stop_release E S =
     (if main_at S = Stopping then Some (Ok (S\<lparr>vars := releaseAllNodes E (vars S), main_at := Stopped\<rparr>)) else None)"

definition exit_main :: "system \<Rightarrow> system attempt" where
  "exit_main S = (if main_at S = Stopped then Some (Ok (S\<lparr>main_at := Ended\<rparr>)) else None)"

fun act :: "'e rot_env_scheme \<Rightarrow> action \<Rightarrow> system \<Rightarrow> system attempt" where
  "act E WatchCheck S = watch_check S"
| "act E WatchRound S = watch_round E S"
| "act E Beat S = beat E S"
| "act E ConmanStep S = conman_step E S"
| "act E MonitorStep S = monitor_step E S"
| "act E Rotate S = rotate_step E S"
| "act E (Tail t i) S = tail_step t i S"
| "act E Zombie S = zombie_step E S"
| "act E (Reap pid) S = reap_step pid S"
| "act E (Test i) S = test_step E i S"
| "act E Kill S = kill_step E S"
| "act E Listen S = listen S"
| "act E (Signal sig) S = deliver sig S"
| "act E StopFlag S = stop_flag S"
| "act E StopRelease S = stop_release E S"
| "act E Exit S = exit_main S"

definition alive :: "system \<Rightarrow> bool" where
  "alive S \<longleftrightarrow> \<not> crashed S \<and> main_at S \<noteq> Ended"

text \<open>The steps that take \<^verbatim>\<open>currNodesMutex\<close>.\<close>

definition needs_lock :: "action \<Rightarrow> system \<Rightarrow> bool" where
  "needs_lock a S =
     (case a of
        WatchRound \<Rightarrow> True
      | Beat \<Rightarrow> True
      | ConmanStep \<Rightarrow> (case cpc S of CConfig _ \<Rightarrow> True | _ \<Rightarrow> False)
      | MonitorStep \<Rightarrow>
          (case mpc S of
             MKeys \<Rightarrow> True
           | MPasswords _ \<Rightarrow> previousPasswords (vars S) \<noteq> None
           | MFiles _ \<Rightarrow> True
           | MSignal _ \<Rightarrow> False)
      | StopRelease \<Rightarrow> True
      | _ \<Rightarrow> False)"

definition may_run :: "action \<Rightarrow> system \<Rightarrow> bool" where
  "may_run a S \<longleftrightarrow> alive S \<and> \<not> (stuck S \<and> needs_lock a S)"

text \<open>
  A wait for Vault that does not end, judged by the answers it would get: the goroutine has
  done what it does before the wait and holds the mutex.
\<close>

definition wait_forever :: "'e rot_env_scheme \<Rightarrow> action \<Rightarrow> system \<Rightarrow> system option" where
  "wait_forever E a S =
     (case a of
        ConmanStep \<Rightarrow>
          (case cpc S of
             CConfig force \<Rightarrow>
               (case updateConfigFile E force (vars S) of
                  Panic _ \<Rightarrow> None
                | Ok v \<Rightarrow>
                    if configConman E force (vars S) = None then Some (S\<lparr>vars := aggregate_all E v, stuck := True\<rparr>) else None)
           | _ \<Rightarrow> None)
      | MonitorStep \<Rightarrow>
          (if mpc S = MKeys \<and> checkIfMountainConsoleKeysChanged E (vars S) = None then Some (S\<lparr>stuck := True\<rparr>) else None)
      | _ \<Rightarrow> None)"

inductive step :: "'e rot_env_scheme \<Rightarrow> system \<Rightarrow> system \<Rightarrow> bool" for E where
  step_ok: "may_run a S \<Longrightarrow> act E a S = Some (Ok S') \<Longrightarrow> step E S S'"
| step_panic: "may_run a S \<Longrightarrow> act E a S = Some (Panic p) \<Longrightarrow> step E S (S\<lparr>crashed := True\<rparr>)"
| step_wait: "may_run a S \<Longrightarrow> wait_forever E a S = Some S' \<Longrightarrow> step E S S'"

inductive_cases stepE: "step E S S'"

text \<open>What \<^verbatim>\<open>main\<close> leaves when it has started the goroutines.\<close>

definition launch :: "cred_vars \<Rightarrow> system" where
  "launch v =
     \<lparr>vars = v, wpc = WIdle, cpc = CConfig True, mpc = MKeys, main_at = Starting, rot_at = None,
      kill_on = debugOnly v, reapers = [], testers = [], sigs = [],
      stuck = False, crashed = False\<rparr>"

text \<open>The goroutines have just been started.\<close>

definition started :: "system \<Rightarrow> bool" where
  "started S \<longleftrightarrow>
     fresh_vars (vars S) \<and> wpc S = WIdle \<and> cpc S = CConfig True \<and> mpc S = MKeys \<and> main_at S = Starting \<and>
     rot_at S = None \<and> reapers S = [] \<and> testers S = [] \<and> sigs S = [] \<and>
     \<not> stuck S \<and> \<not> crashed S"

definition reachable :: "'e rot_env_scheme \<Rightarrow> system \<Rightarrow> bool" where
  "reachable E S \<longleftrightarrow> (\<exists>S0. started S0 \<and> (step E)\<^sup>*\<^sup>* S0 S)"

end
