(* ===== verification/Thread_Invariant.thy ===== *)
theory Thread_Invariant
  imports Threads
begin

text \<open>
  What every interleaving of the goroutines keeps: the invariant of the whole system; that
  nothing is held again once all nodes were released; and that nothing moves any more once a
  goroutine waits for Vault forever with the mutex held.
\<close>

section \<open>Invariants of step relations\<close>

locale step_invariant =
  fixes R :: "'s \<Rightarrow> 's \<Rightarrow> bool" and I :: "'s \<Rightarrow> bool"
  assumes keeps: "I x \<Longrightarrow> R x y \<Longrightarrow> I y"
begin

lemma along: "R\<^sup>*\<^sup>* x y \<Longrightarrow> I x \<Longrightarrow> I y"
  by (induction rule: rtranclp_induct) (auto intro: keeps)

end

text \<open>The node maps, the tails and the process agree with where the goroutines are.\<close>

definition command_at :: "conman_pc \<Rightarrow> cmd_state" where
  "command_at pc = (case pc of CConfig _ \<Rightarrow> NoCommand | CCreate \<Rightarrow> NoCommand | CStart \<Rightarrow> Created | CWait \<Rightarrow> Running | CClear \<Rightarrow> Exited)"

definition system_ok :: "system \<Rightarrow> bool" where
  "system_ok S \<longleftrightarrow>
     pools_ok (vars S) \<and> tails_held (vars S) \<and> tails_ok (vars S) \<and> ints_ok (vars S) \<and>
     command (vars S) = command_at (cpc S) \<and> (inShutdown (vars S) \<longleftrightarrow> Stopping \<le> main_at S)"

section \<open>Steps that only write\<close>

text \<open>Most goroutines change no more than files, the trace and the aggregation log.\<close>

definition log_frame :: "cred_vars \<Rightarrow> cred_vars \<Rightarrow> bool" where
  "log_frame v v' \<longleftrightarrow> (\<exists>f t l a. v' = v\<lparr>files := f, trace := t, conAggLogger := l, aggLines := a\<rparr>)"

lemma log_frame_trace: "log_frame v (v\<lparr>trace := t\<rparr>)"
  unfolding log_frame_def
  by (intro exI [of _ "files v"] exI [of _ t] exI [of _ "conAggLogger v"] exI [of _ "aggLines v"]) simp

lemma log_frame_files: "log_frame v (v\<lparr>files := f, trace := t\<rparr>)"
  unfolding log_frame_def
  by (intro exI [of _ f] exI [of _ t] exI [of _ "conAggLogger v"] exI [of _ "aggLines v"]) simp

lemma log_frame_refl: "log_frame v v"
  using log_frame_trace [of v "trace v"] by simp

lemma log_frame_trans: "log_frame v v' \<Longrightarrow> log_frame v' v'' \<Longrightarrow> log_frame v v''"
  unfolding log_frame_def by (elim exE) (simp, blast)

lemma log_frame_emit: "log_frame v v' \<Longrightarrow> log_frame v (emit e v')"
  using log_frame_trans log_frame_trace [of v' "trace v' @ [e]"] by (simp add: emit_def)

lemma log_frame_respin: "log_frame v (respinAggLog E v)"
  using respinAggLog_frame [of E v] unfolding log_frame_def by blast

lemma log_frame_rotate_init: "doLogRotate_init E v = Ok (st, n, v') \<Longrightarrow> log_frame v v'"
  by (auto simp: doLogRotate_init_def Let_def emit_def log_frame_refl log_frame_trace log_frame_files split: outcome.splits)

lemma log_frame_rotate: "doLogRotate_turn E n st v = Ok (st', v') \<Longrightarrow> log_frame v v'"
proof -
  assume "doLogRotate_turn E n st v = Ok (st', v')"
  then obtain v1 where 1: "(if logRotEnabled v then rotateLogsOnce E st v else Ok (st, v)) = Ok (st', v1)" "v' = emit (Sleep n) v1"
    by (auto simp: doLogRotate_turn_def split: outcome.splits)
  have "log_frame v v1"
  proof (cases "logRotEnabled v")
    case True
    then have "rotateLogsOnce E st v = Ok (st', v1)" using 1 by simp
    then show ?thesis
      by (cases rule: rotateLogsOnce_cases) (auto intro: log_frame_files log_frame_trans [OF log_frame_files log_frame_respin])
  qed (use 1 log_frame_refl in simp)
  then show ?thesis using 1(2) log_frame_emit by simp
qed

lemma log_frame_signal: "signalConmanTERM v = Ok v' \<Longrightarrow> log_frame v v'"
  using signalConmanTERM_Ok log_frame_trace by blast

lemma log_frame_zombie: "log_frame v (watchForZombies_turn E v)"
  using log_frame_trace by (simp add: watchForZombies_turn_def findZombies_def fold_emit emit_def)

lemma log_frame_reap: "log_frame v (killZombie pid v)"
  by (simp add: killZombie_def log_frame_emit log_frame_refl)

lemma log_frame_test:
  "log_frame v (snd (createTestLogFile_open E x respin v))" "log_frame v (snd (createTestLogFile_turn w v))"
  using createTestLogFile_open_frame [of E x respin v] log_frame_files
  by (auto simp: createTestLogFile_turn_def log_frame_emit log_frame_refl)

section \<open>Every step keeps the invariant\<close>

text \<open>The part about the globals; \<open>H\<close> bounds the nodes that are held.\<close>

definition vars_ok :: "string set \<Rightarrow> cmd_state \<Rightarrow> bool \<Rightarrow> cred_vars \<Rightarrow> bool" where
  "vars_ok H c sd v \<longleftrightarrow> held v \<subseteq> H \<and> pools_ok v \<and> tails_held v \<and> tails_ok v \<and>
     ints_ok v \<and> command v = c \<and> inShutdown v = sd"

lemma vars_okD: "vars_ok H c sd v \<Longrightarrow> pools_ok v" "vars_ok H c sd v \<Longrightarrow> tails_held v" "vars_ok H c sd v \<Longrightarrow> tails_ok v"
    "vars_ok H c sd v \<Longrightarrow> command v = c" "vars_ok H c sd v \<Longrightarrow> inShutdown v = sd" "vars_ok H c sd v \<Longrightarrow> ints_ok v"
  by (simp_all add: vars_ok_def)

text \<open>Everything the invariant looks at.\<close>

lemma vars_ok_cong:
  assumes "currentRvrNodes v' = currentRvrNodes v" and "currentMtnNodes v' = currentMtnNodes v"
    and "currentPdsNodes v' = currentPdsNodes v" and "tailThreads v' = tailThreads v" and "tailers v' = tailers v"
    and "cancelled v' = cancelled v" and "nextCtx v' = nextCtx v" and "command v' = command v" and "inShutdown v' = inShutdown v"
    and "targetRvrNodes v' = targetRvrNodes v" and "targetMtnNodes v' = targetMtnNodes v"
  shows "vars_ok H c sd v' = vars_ok H c sd v"
  by (simp add: vars_ok_def pools_ok_def tails_held_def held_def tails_ok_def ints_ok_def assms)

lemma vars_ok_updates [simp]:
  "vars_ok H c sd (v\<lparr>trace := t\<rparr>) = vars_ok H c sd v" "vars_ok H c sd (v\<lparr>files := f\<rparr>) = vars_ok H c sd v"
  "vars_ok H c sd (v\<lparr>lastHeartbeatTime := x\<rparr>) = vars_ok H c sd v" "vars_ok H c sd (v\<lparr>previousPasswords := pw\<rparr>) = vars_ok H c sd v"
  "vars_ok H c sd (v\<lparr>previousPrivateKeyHash := h\<rparr>) = vars_ok H c sd v" "vars_ok H c sd (emit e v) = vars_ok H c sd v"
  "vars_ok H c sd (v\<lparr>tailing := ts\<rparr>) = vars_ok H c sd v"
  "vars_ok H c sd (v\<lparr>conAggLogger := l\<rparr>) = vars_ok H c sd v" "vars_ok H c sd (v\<lparr>aggLines := a\<rparr>) = vars_ok H c sd v"
  by (rule vars_ok_cong, simp_all add: emit_def)+

lemma vars_ok_command [simp]: "vars_ok H c sd (v\<lparr>command := c'\<rparr>) \<longleftrightarrow> c = c' \<and> vars_ok H (command v) sd v"
proof -
  have "tails_ok (v\<lparr>command := c'\<rparr>) = tails_ok v" by (rule tails_ok_cong) simp_all
  moreover have "ints_ok (v\<lparr>command := c'\<rparr>) = ints_ok v" by (rule ints_ok_cong) simp_all
  ultimately show ?thesis by (auto simp: vars_ok_def pools_ok_def tails_held_def held_def)
qed

lemma vars_ok_shutdown [simp]: "vars_ok H c sd (v\<lparr>inShutdown := b\<rparr>) \<longleftrightarrow> sd = b \<and> vars_ok H c (inShutdown v) v"
proof -
  have "tails_ok (v\<lparr>inShutdown := b\<rparr>) = tails_ok v" by (rule tails_ok_cong) simp_all
  moreover have "ints_ok (v\<lparr>inShutdown := b\<rparr>) = ints_ok v" by (rule ints_ok_cong) simp_all
  ultimately show ?thesis by (auto simp: vars_ok_def pools_ok_def tails_held_def held_def)
qed

lemma vars_ok_targets:
  assumes "vars_ok H c sd v" and "ints_ok v \<Longrightarrow> ints_ok (v\<lparr>targetRvrNodes := r, targetMtnNodes := m\<rparr>)"
  shows "vars_ok H c sd (v\<lparr>trace := t, targetRvrNodes := r, targetMtnNodes := m\<rparr>)"
proof -
  let ?v = "v\<lparr>targetRvrNodes := r, targetMtnNodes := m\<rparr>"
  have "tails_ok ?v = tails_ok v" by (rule tails_ok_cong) simp_all
  then have "vars_ok H c sd ?v" using assms by (simp add: vars_ok_def pools_ok_def tails_held_def held_def)
  moreover have "v\<lparr>trace := t, targetRvrNodes := r, targetMtnNodes := m\<rparr> = ?v\<lparr>trace := t\<rparr>" by simp
  ultimately show ?thesis by (simp only: vars_ok_updates(1))
qed

lemma inShutdown_frame [simp]:
  "inShutdown (stopTailing k v) = inShutdown v" "inShutdown (drop_rvr k v) = inShutdown v"
  "inShutdown (drop_mtn k v) = inShutdown v" "inShutdown (drop_pds k v) = inShutdown v"
  "inShutdown (releaseNodes E ns v) = inShutdown v"
  by (simp_all add: stopTailing_frame drop_rvr_def drop_mtn_def drop_pds_def releaseNodes_eq)

lemma drop_held: "held (drop_rvr k v) \<subseteq> held v" "held (drop_mtn k v) \<subseteq> held v" "held (drop_pds k v) \<subseteq> held v"
    "held (stopTailing k v) = held v" "held (releaseNodes E ns v) = held v"
  by (auto simp: held_def gm_keys_delete)

lemma vars_ok_drops:
  "vars_ok H c sd v \<Longrightarrow> vars_ok H c sd (drop_rvr k v)" "vars_ok H c sd v \<Longrightarrow> vars_ok H c sd (drop_mtn k v)"
  "vars_ok H c sd v \<Longrightarrow> vars_ok H c sd (drop_pds k v)" "vars_ok H c sd v \<Longrightarrow> vars_ok H c sd (stopTailing k v)"
  "vars_ok H c sd v \<Longrightarrow> vars_ok H c sd (releaseNodes E ns v)"
  unfolding vars_ok_def
  by (simp_all add: ints_ok_drops drop_pools_ok drop_tails_held drop_tails_ok tails_held_stopTailing tails_ok_stopTailing
      drop_held order_trans [OF drop_held(1)] order_trans [OF drop_held(2)] order_trans [OF drop_held(3)])

lemma vars_ok_add_node: "int64 (NID n) \<Longrightarrow> vars_ok UNIV c sd (snd cs) \<Longrightarrow> vars_ok UNIV c sd (snd (add_node n cs))"
  using add_node_ok [of cs n] ints_ok_add [of n cs] by (cases cs) (auto simp: vars_ok_def add_node_def)

lemma vars_ok_round:
  "doGetNewNodes_locked E (manager_service om E) v = Ok v' \<Longrightarrow> vars_ok UNIV c sd v \<Longrightarrow> vars_ok UNIV c sd v'"
  by (erule manager_watch.round_keeps [where I = "vars_ok UNIV c sd"]) (simp_all add: vars_ok_drops vars_ok_add_node vars_ok_targets)

lemma vars_ok_beat: "doHeartbeat_turn E v = Ok v' \<Longrightarrow> vars_ok H c sd v \<Longrightarrow> vars_ok H c sd v'"
proof -
  assume "doHeartbeat_turn E v = Ok v'" and ok: "vars_ok H c sd v"
  then obtain v1 where 1: "sendSingleHeartbeat E v = Ok v1" "v' = emit (Sleep (heartbeatIntervalSecs v1)) v1"
    by (auto simp: doHeartbeat_turn_def split: outcome.splits)
  have "vars_ok H c sd (snd (releaseNode k s))" if "vars_ok H c sd s" for k s
    using that by (simp add: releaseNode_def vars_ok_drops)
  then have "vars_ok H c sd v1" by (intro heartbeat_keeps [where I = "vars_ok H c sd", OF 1(1) ok]) simp_all
  then show ?thesis using 1(2) by simp
qed

lemma vars_ok_log: "log_frame v v' \<Longrightarrow> vars_ok H c sd v' = vars_ok H c sd v"
  by (auto simp: log_frame_def)

lemma vars_ok_key: "key_frame v v' \<Longrightarrow> vars_ok H c sd v' = vars_ok H c sd v"
  by (auto simp: key_frame_def)

lemma vars_ok_config_frame: "config_frame v v' \<Longrightarrow> vars_ok H c sd v' = vars_ok H c sd v"
  by (auto simp: config_frame_def)

lemma vars_ok_chmod: "chmod_frame v v' \<Longrightarrow> vars_ok H c sd v' = vars_ok H c sd v"
  by (auto simp: chmod_frame_def)

lemma aggregateFile_ints: "ints_ok (snd (aggregateFile k v)) = ints_ok v"
  by (rule ints_ok_cong) (simp_all add: aggregateFile_def Let_def emit_def)

lemma vars_ok_aggregate:
  assumes "vars_ok H c sd v"
  shows "vars_ok H c sd (aggregate_all E v)"
proof -
  have "command (aggregate_all E v) = command v"
    by (rule aggregate_all_keeps [where I = "\<lambda>x. command x = command v"]) simp_all
  moreover have "inShutdown (aggregate_all E v) = inShutdown v"
    by (rule aggregate_all_keeps [where I = "\<lambda>x. inShutdown x = inShutdown v"])
      (simp_all add: aggregateFile_def Let_def)
  moreover have "tails_held (aggregate_all E v)"
    using vars_okD(2) [OF assms] by (auto simp: tails_held_def aggregate_all_tails)
  moreover have "ints_ok (aggregate_all E v)"
    by (rule aggregate_all_keeps [where I = ints_ok])
      (simp_all add: aggregateFile_ints vars_okD(6) [OF assms])
  ultimately show ?thesis using assms aggregate_all_tails_ok [of v E] by (simp add: vars_ok_def)
qed

lemma vars_ok_updateConfig:
  assumes "updateConfigFile E f v = Ok v'" and "vars_ok H c sd v"
  shows "vars_ok H c sd (aggregate_all E v')"
  using vars_ok_aggregate vars_ok_config_frame [OF updateConfigFile_frame [OF assms(1)]] assms(2) vars_okD(1) by blast

lemma vars_ok_config:
  assumes "configConman E f v = Some (Ok (b, v'))" and "vars_ok H c sd v"
  shows "vars_ok H c sd v'"
proof -
  obtain v1 k where u: "updateConfigFile E f v = Ok v1"
    and e: "ensureMountainConsoleKeysPresent E (aggregate_all E v1) = Some (k, v')"
    using assms(1) by (auto simp: configConman_def split: outcome.splits)
  show ?thesis using vars_ok_key [OF ensure_frame [OF e]] vars_ok_updateConfig [OF u assms(2)] by blast
qed

lemma vars_ok_end: "vars_ok H c sd v \<Longrightarrow> vars_ok H c sd (v\<lparr>tailers := removeAll t (tailers v)\<rparr>)"
proof -
  let ?v = "v\<lparr>tailers := removeAll t (tailers v)\<rparr>"
  assume ok: "vars_ok H c sd v"
  show ?thesis
    using ok tails_ok_end [OF vars_okD(3) [OF ok], of t] by (simp add: vars_ok_def pools_ok_def tails_held_def held_def)
qed

lemma vars_ok_tail: "watch_step t i v = Ok v' \<Longrightarrow> vars_ok H c sd v \<Longrightarrow> vars_ok H c sd v'"
  by (cases i) (auto simp: watch_step_def vars_ok_end writeToAggLog_def agg_print_def split: if_splits)

lemma tail_step_watches:
  "tail_step t i S = Some r \<Longrightarrow> \<exists>q. watchConsoleLogFile t (vars S) q \<and> r = on_vars q (\<lambda>v. S\<lparr>vars := v\<rparr>)"
  by (auto simp: tail_step_def watchConsoleLogFile_iff split: if_splits)

lemma vars_ok_cancel: "vars_ok H c sd v \<Longrightarrow> vars_ok H c sd (cancel n x v)"
  using tails_ok_cancel [of v n x] by (simp add: vars_ok_def cancel_def pools_ok_def tails_held_def held_def)

lemma vars_ok_kill: "vars_ok H c sd v \<Longrightarrow> vars_ok H c sd (snd (killTails_pass E v))"
proof -
  assume ok: "vars_ok H c sd v"
  have "vars_ok H c sd (fold (\<lambda>k s. cancel (the (map_of (tailThreads s) k)) k s) ks v)" for ks
    using ok by (induction ks arbitrary: v) (simp_all add: vars_ok_cancel)
  with ok show ?thesis by (simp add: killTails_pass_def)
qed

lemma test_step_cases:
  assumes "test_step E i S = Some (Ok S')"
  shows "\<exists>v ts. S' = S\<lparr>vars := v, testers := ts\<rparr> \<and> log_frame (vars S) v"
proof (cases "testers S ! i")
  case (TestNew x)
  then show ?thesis
    using assms log_frame_test(1) [of "vars S" E x True]
    by (auto simp: test_step_def split: if_splits prod.splits option.splits)
next
  case (TestRun w)
  then show ?thesis
    using assms log_frame_test(2) [of "vars S" w] by (auto simp: test_step_def split: if_splits prod.splits)
qed

lemma new_reapers_simps [simp]:
  "new_reapers [] = []" "new_reapers (StartReaper pid # es) = pid # new_reapers es"
  "new_reapers (Sleep n # es) = new_reapers es" "new_reapers (OsCall op x # es) = new_reapers es"
  "new_reapers (xs @ ys) = new_reapers xs @ new_reapers ys" "new_reapers (map StartReaper zs) = zs"
proof -
  show "new_reapers (xs @ ys) = new_reapers xs @ new_reapers ys"
    by (induction xs) (simp_all add: new_reapers_def map_filter_simps split: option.split)
  show "new_reapers (map StartReaper zs) = zs" by (induction zs) (simp_all add: new_reapers_def map_filter_simps)
qed (simp_all add: new_reapers_def map_filter_simps)

lemma spawn_simps [simp]:
  "vars (spawn v S) = v" "wpc (spawn v S) = wpc S" "cpc (spawn v S) = cpc S" "mpc (spawn v S) = mpc S"
  "main_at (spawn v S) = main_at S" "stuck (spawn v S) = stuck S" "crashed (spawn v S) = crashed S"
  by (simp_all add: spawn_def Let_def)

lemma releaseAllNodes_ints: "ints_ok v \<Longrightarrow> ints_ok (releaseAllNodes E v)"
proof -
  have "targetRvrNodes (fold stopTailing ks x) = targetRvrNodes x \<and> targetMtnNodes (fold stopTailing ks x) = targetMtnNodes x"
    for ks and x :: "'a node_vars_scheme"
    by (induction ks arbitrary: x) (simp_all add: stopTailing_def cancel_def emit_def split: option.split)
  then show "ints_ok v \<Longrightarrow> ints_ok (releaseAllNodes E v)"
    unfolding releaseAllNodes_def Let_def ints_ok_frame by (simp add: ints_ok_def)
qed

lemma vars_ok_release_all:
  assumes "vars_ok H c sd v"
  shows "vars_ok H c sd (releaseAllNodes E v)" and "held (releaseAllNodes E v) = {}"
proof -
  have "command (fold stopTailing ks x) = command x" "inShutdown (fold stopTailing ks x) = inShutdown x" for ks and x :: cred_vars
    by (induction ks arbitrary: x) simp_all
  then have "command (releaseAllNodes E v) = c \<and> inShutdown (releaseAllNodes E v) = sd"
    using vars_okD(4,5) [OF assms] by (simp add: releaseAllNodes_def Let_def)
  moreover have keys: "held (releaseAllNodes E v) = {}" "gm_keys (tailThreads (releaseAllNodes E v)) = gm_keys (tailThreads v) - held v"
    using releaseAllNodes_spec [OF vars_okD(1) [OF assms], of E] by auto
  moreover have "tails_held (releaseAllNodes E v)" using keys vars_okD(2) [OF assms] by (simp add: tails_held_def)
  moreover have "ints_ok (releaseAllNodes E v)" by (rule releaseAllNodes_ints [OF vars_okD(6) [OF assms]])
  ultimately show "vars_ok H c sd (releaseAllNodes E v)" and "held (releaseAllNodes E v) = {}"
    using vars_okD(3) [OF assms] by (simp_all add: vars_ok_def releaseAllNodes_ok)
qed

text \<open>The invariant of the whole system.\<close>

lemma system_ok_iff:
  "system_ok S \<longleftrightarrow> vars_ok UNIV (command_at (cpc S)) (Stopping \<le> main_at S) (vars S)"
  by (auto simp: system_ok_def vars_ok_def)

lemma on_vars_Ok: "on_vars r f = Ok S' \<Longrightarrow> \<exists>v. r = Ok v \<and> S' = f v"
  by (cases r) (simp_all add: on_vars_def)

lemma conman_step_ok:
  assumes "conman_step E S = Some (Ok S')" and ok: "vars_ok H (command_at (cpc S)) sd (vars S)"
  shows "vars_ok H (command_at (cpc S')) sd (vars S')" and "main_at S' = main_at S" and "wpc S' = wpc S"
proof -
  have "vars_ok H (command_at (cpc S')) sd (vars S') \<and> main_at S' = main_at S \<and> wpc S' = wpc S"
  proof (cases "cpc S")
    case (CConfig force)
    then obtain h v where c: "configConman E force (vars S) = Some (Ok (h, v))" "S' = after_config S h v"
      using assms(1) by (auto simp: conman_step_def split: option.splits outcome.splits)
    have "vars_ok H NoCommand sd v" using vars_ok_config [OF c(1)] ok CConfig by (simp add: command_at_def)
    then show ?thesis using c(2) by (simp add: after_config_def command_at_def)
  next
    case CCreate
    then have "S' = S\<lparr>vars := conman_create (vars S), cpc := CStart\<rparr>" using assms(1) by (simp add: conman_step_def)
    then show ?thesis using ok vars_okD(4) [OF ok] CCreate by (simp add: command_at_def conman_create_def)
  next
    case CStart
    then obtain v where "conman_start E (vars S) = Ok v" "S' = S\<lparr>vars := v, cpc := CWait\<rparr>"
      using assms(1) by (auto simp: conman_step_def dest!: on_vars_Ok)
    then show ?thesis using ok vars_okD(4) [OF ok] CStart
      by (auto simp: command_at_def conman_start_def split: if_splits)
  next
    case CWait
    then have "S' = S\<lparr>vars := conman_wait E (vars S), cpc := CClear\<rparr>" using assms(1) by (simp add: conman_step_def)
    then show ?thesis using ok vars_okD(4) [OF ok] CWait
      by (simp add: command_at_def conman_wait_def Let_def)
  next
    case CClear
    then have "S' = S\<lparr>vars := emit (Sleep 10) (conman_clear (vars S)), cpc := CConfig False\<rparr>"
      using assms(1) by (simp add: conman_step_def)
    then show ?thesis using ok vars_okD(4) [OF ok] CClear
      by (simp add: command_at_def conman_clear_def)
  qed
  then show "vars_ok H (command_at (cpc S')) sd (vars S')" and "main_at S' = main_at S" and "wpc S' = wpc S" by simp_all
qed

lemma monitor_step_ok:
  assumes "monitor_step E S = Some (Ok S')" and ok: "vars_ok H c sd (vars S)"
  shows "vars_ok H c sd (vars S')" and "cpc S' = cpc S" and "main_at S' = main_at S" and "wpc S' = wpc S"
proof -
  have "vars_ok H c sd (vars S') \<and> cpc S' = cpc S \<and> main_at S' = main_at S \<and> wpc S' = wpc S"
  proof (cases "mpc S")
    case MKeys
    then obtain b v where e: "ensureMountainConsoleKeysPresent E (vars S) = Some (b, v)" "S' = S\<lparr>vars := v, mpc := MPasswords b\<rparr>"
      using assms(1) by (auto simp: monitor_step_def checkIfMountainConsoleKeysChanged_def)
    then show ?thesis using ok vars_ok_key [OF ensure_frame [OF e(1)]] by simp
  next
    case (MPasswords b)
    then obtain d v where v: "checkIfRiverPasswordsChanged E (vars S) = Ok (d, v)" "S' = S\<lparr>vars := v, mpc := MFiles (b \<or> d)\<rparr>"
      using assms(1) by (auto simp: monitor_step_def split: outcome.splits)
    then have "v = vars S \<or> (\<exists>t. v = (vars S)\<lparr>trace := trace (vars S) @ t\<rparr>)"
      using getPasswords_state by (fastforce simp: checkIfRiverPasswordsChanged_def Let_def split: if_splits outcome.splits)
    then show ?thesis using ok v(2) by auto
  next
    case (MFiles b)
    then show ?thesis using assms(1) ok by (auto simp: monitor_step_def vars_ok_chmod [OF checkLogFiles_frame])
  next
    case (MSignal b)
    then show ?thesis using assms(1) ok
      by (auto simp: monitor_step_def vars_ok_log [OF log_frame_signal] split: if_splits dest!: on_vars_Ok)
  qed
  then show "vars_ok H c sd (vars S')" and "cpc S' = cpc S" and "main_at S' = main_at S" and "wpc S' = wpc S" by simp_all
qed

lemmas step_defs = watch_check_def watch_round_def beat_def rotate_step_def tail_step_def kill_step_def zombie_step_def
  reap_step_def listen_def deliver_def stop_flag_def stop_release_def exit_main_def

lemmas phase_defs = less_eq_main_pc_def less_main_pc_def

text \<open>A step that does not end in a panic, goroutine by goroutine.\<close>

lemma act_keeps:
  assumes "act E a S = Some (Ok S')" and ok: "vars_ok H (command_at (cpc S)) (Stopping \<le> main_at S) (vars S)"
    and "a = WatchRound \<Longrightarrow> H = UNIV"
  shows "vars_ok H (command_at (cpc S')) (Stopping \<le> main_at S') (vars S')"
proof (cases a)
  case WatchCheck
  then show ?thesis using assms(1) ok by (auto simp: watch_check_def split: if_splits)
next
  case WatchRound
  then show ?thesis using assms(1,3) ok
    by (auto simp: watch_round_def vars_ok_round split: if_splits dest!: on_vars_Ok)
next
  case Beat
  then show ?thesis using assms(1) ok by (auto simp: beat_def vars_ok_beat dest!: on_vars_Ok)
next
  case ConmanStep
  then show ?thesis using assms(1) conman_step_ok [of E S S', OF _ ok] by simp
next
  case MonitorStep
  then show ?thesis using assms(1) monitor_step_ok [of E S S', OF _ ok] by simp
next
  case Rotate
  then show ?thesis using assms(1) ok
    by (auto simp: rotate_step_def vars_ok_log [OF log_frame_rotate] vars_ok_log [OF log_frame_rotate_init] split: outcome.splits option.splits)
next
  case (Tail t i)
  then show ?thesis using assms(1) ok by (auto simp: tail_step_def vars_ok_tail split: if_splits dest!: on_vars_Ok)
next
  case Zombie
  then show ?thesis using assms(1) ok by (auto simp: zombie_step_def vars_ok_log [OF log_frame_zombie])
next
  case (Reap pid)
  then show ?thesis using assms(1) ok by (auto simp: reap_step_def vars_ok_log [OF log_frame_reap] split: if_splits)
next
  case (Test i)
  then show ?thesis using assms(1) ok test_step_cases [of E i S S'] by (auto simp: vars_ok_log)
next
  case Kill
  then show ?thesis using assms(1) ok by (auto simp: kill_step_def vars_ok_kill split: if_splits)
next
  case Listen
  then show ?thesis using assms(1) ok by (auto simp: listen_def phase_defs split: if_splits)
next
  case (Signal sig)
  then show ?thesis using assms(1) ok by (auto simp: deliver_def)
next
  case StopFlag
  then show ?thesis using assms(1) ok vars_okD(5) [OF ok] by (auto simp: stop_flag_def phase_defs split: if_splits)
next
  case StopRelease
  then show ?thesis using assms(1) ok by (auto simp: stop_release_def vars_ok_release_all phase_defs split: if_splits)
next
  case Exit
  then show ?thesis using assms(1) ok by (auto simp: exit_main_def phase_defs split: if_splits)
qed

lemma wait_forever_ok:
  assumes "wait_forever E a S = Some S'" and "vars_ok H (command_at (cpc S)) sd (vars S)"
  shows "vars_ok H (command_at (cpc S')) sd (vars S')"
  using assms
  by (auto simp: wait_forever_def vars_ok_updateConfig split: action.splits conman_pc.splits outcome.splits if_splits)

lemma wait_forever_frame:
  assumes "wait_forever E a S = Some S'"
  shows "main_at S' = main_at S" and "wpc S' = wpc S" and "stuck S'"
  using assms by (auto simp: wait_forever_def split: action.splits conman_pc.splits outcome.splits if_splits)

lemma act_ok: "act E a S = Some (Ok S') \<Longrightarrow> system_ok S \<Longrightarrow> system_ok S'"
  by (simp add: system_ok_iff act_keeps)

lemma started_ok: "started S \<Longrightarrow> system_ok S"
  by (simp add: started_def fresh_vars_def system_ok_def pools_ok_def tails_held_def tails_ok_def
      ints_ok_def int64_def command_at_def phase_defs)

interpretation sys: step_invariant "step E" system_ok for E
proof
  fix x y
  assume "system_ok x" and "step E x y"
  from this(2) show "system_ok y"
  proof (rule stepE)
    fix a
    assume "wait_forever E a x = Some y"
    from wait_forever_ok [OF this] wait_forever_frame [OF this] show ?thesis using \<open>system_ok x\<close> by (simp add: system_ok_iff)
  qed (use \<open>system_ok x\<close> act_ok in \<open>auto simp: system_ok_def\<close>)
qed

lemma launched: "main_start E dbg (initial_vars fs) = Some v \<Longrightarrow> started (launch v)"
  using main_start_fresh [of E dbg "initial_vars fs" v]
  by (simp add: started_def launch_def fresh_vars_def initial_vars_def)

lemma reachable_ok: "reachable E S \<Longrightarrow> system_ok S"
  using sys.along started_ok by (auto simp: reachable_def)

section \<open>Shutting down\<close>

text \<open>
  Once the flag is set, no round of the watcher is under way and nothing is held, nothing is
  ever held again.
\<close>

definition drained :: "system \<Rightarrow> bool" where
  "drained S \<longleftrightarrow>
     vars_ok {} (command_at (cpc S)) True (vars S) \<and> Stopping \<le> main_at S \<and> wpc S = WIdle"

lemma act_wpc:
  "act E a S = Some (Ok S') \<Longrightarrow> a \<noteq> WatchCheck \<Longrightarrow> a \<noteq> WatchRound \<Longrightarrow> wpc S' = wpc S"
  by (cases a)
    (auto simp: step_defs conman_step_def after_config_def monitor_step_def dest!: on_vars_Ok test_step_cases
      split: conman_pc.splits monitor_pc.splits option.splits outcome.splits if_splits)

lemma act_main_at:
  "act E a S = Some (Ok S') \<Longrightarrow> a \<notin> {Listen, StopFlag, StopRelease, Exit} \<Longrightarrow> main_at S' = main_at S"
  by (cases a)
    (auto simp: step_defs conman_step_def after_config_def monitor_step_def dest!: on_vars_Ok test_step_cases
      split: conman_pc.splits monitor_pc.splits option.splits outcome.splits if_splits)

text \<open>\<^verbatim>\<open>main\<close> only goes forward.\<close>

lemma act_main_mono: "act E a S = Some (Ok S') \<Longrightarrow> main_at S \<le> main_at S'"
proof (cases "a \<in> {Listen, StopFlag, StopRelease, Exit}")
  case True
  assume "act E a S = Some (Ok S')"
  with True show ?thesis by (auto simp: step_defs phase_defs split: if_splits)
next
  case False
  assume "act E a S = Some (Ok S')"
  from act_main_at [OF this False] show ?thesis by simp
qed

lemma drained_act:
  assumes "act E a S = Some (Ok S')" and "drained S"
  shows "drained S'"
proof -
  have d: "vars_ok {} (command_at (cpc S)) (Stopping \<le> main_at S) (vars S)" "Stopping \<le> main_at S" "wpc S = WIdle"
    using assms(2) by (simp_all add: drained_def)
  have sd: "inShutdown (vars S)" using vars_okD(5) [OF d(1)] d(2) by simp
  have "a \<noteq> WatchRound" using assms(1) d(3) by (auto simp: watch_round_def)
  then have "vars_ok {} (command_at (cpc S')) (Stopping \<le> main_at S') (vars S')" using act_keeps [OF assms(1) d(1)] by blast
  moreover have "Stopping \<le> main_at S'" using act_main_mono [OF assms(1)] d(2) by order
  moreover have "wpc S' = WIdle"
  proof (cases "a = WatchCheck")
    case True
    then show ?thesis using assms(1) sd d(3) by (auto simp: watch_check_def)
  next
    case False
    then show ?thesis using act_wpc [OF assms(1)] \<open>a \<noteq> WatchRound\<close> d(3) by simp
  qed
  ultimately show ?thesis by (simp add: drained_def)
qed

interpretation drain: step_invariant "step E" drained for E
proof
  fix x y
  assume "drained x" and "step E x y"
  from this(2) show "drained y"
  proof (rule stepE)
    fix a
    assume "wait_forever E a x = Some y"
    from wait_forever_ok [OF this] wait_forever_frame [OF this] show ?thesis using \<open>drained x\<close> by (simp add: drained_def)
  qed (use \<open>drained x\<close> drained_act in \<open>auto simp: drained_def\<close>)
qed

lemma drained_held: "drained S \<Longrightarrow> held (vars S) = {}"
  by (simp add: drained_def vars_ok_def)

text \<open>Releasing everything drains the pod, unless a round of the watcher had begun.\<close>

lemma stop_release_drains:
  assumes "system_ok S" and "act E StopRelease S = Some (Ok S')" and "wpc S = WIdle"
  shows "drained S'"
proof -
  have S': "S' = S\<lparr>vars := releaseAllNodes E (vars S), main_at := Stopped\<rparr>" "main_at S = Stopping"
    using assms(2) by (auto simp: stop_release_def split: if_splits)
  then have "Stopping \<le> main_at S'" by (simp add: phase_defs)
  moreover have ok: "vars_ok UNIV (command_at (cpc S)) True (vars S)" using assms(1) S'(2) by (simp add: system_ok_iff)
  moreover have "vars_ok UNIV (command_at (cpc S)) True (releaseAllNodes E (vars S))" and "held (releaseAllNodes E (vars S)) = {}"
    using vars_ok_release_all [OF ok] by auto
  ultimately show ?thesis using S' assms(3) by (simp add: drained_def vars_ok_def)
qed

section \<open>Panics\<close>

text \<open>A signal finds a process that was created and not started only between the two steps.\<close>

lemma signal_safe: "system_ok S \<Longrightarrow> cpc S \<noteq> CStart \<Longrightarrow> \<exists>v. signalConmanTERM (vars S) = Ok v"
  by (cases "cpc S") (auto simp: system_ok_def command_at_def signalConmanTERM_def)

section \<open>A mutex held for good\<close>

text \<open>
  Once a goroutine waits forever with the mutex, the nodes and the time of the last heartbeat
  stay as they are, and \<^verbatim>\<open>main\<close> does not get to release the nodes.
\<close>

type_synonym node_state = "nodeConsoleInfo gomap \<times> nodeConsoleInfo gomap \<times> nodeConsoleInfo gomap \<times> string"

definition node_view :: "cred_vars \<Rightarrow> node_state" where
  "node_view v = (currentRvrNodes v, currentMtnNodes v, currentPdsNodes v, lastHeartbeatTime v)"

definition frozen :: "node_state \<Rightarrow> system \<Rightarrow> bool" where
  "frozen w S \<longleftrightarrow> stuck S \<and> node_view (vars S) = w \<and> main_at S \<le> Stopping"

lemma node_view_log: "log_frame v v' \<Longrightarrow> node_view v' = node_view v"
  by (auto simp: log_frame_def node_view_def)

lemma node_view_updates [simp]:
  "node_view (emit e v) = node_view v" "node_view (v\<lparr>inShutdown := b\<rparr>) = node_view v"
  "node_view (v\<lparr>command := c\<rparr>) = node_view v" "node_view (v\<lparr>aggLines := a\<rparr>) = node_view v"
  "node_view (v\<lparr>tailers := ts\<rparr>) = node_view v" "node_view (v\<lparr>tailing := cs\<rparr>) = node_view v"
  "node_view (cancel n x v) = node_view v"
  by (simp_all add: node_view_def emit_def cancel_def)

lemma node_view_tail: "watch_step x i v = Ok v' \<Longrightarrow> node_view v' = node_view v"
  by (cases i) (auto simp: watch_step_def writeToAggLog_def agg_print_def split: if_splits)

lemma node_view_kill: "node_view (snd (killTails_pass E v)) = node_view v"
proof -
  have "node_view (fold (\<lambda>k s. cancel (the (map_of (tailThreads s) k)) k s) ks x) = node_view x" for ks x
    by (induction ks arbitrary: x) simp_all
  then show ?thesis by (simp add: killTails_pass_def)
qed

lemmas node_view_steps = node_view_log [OF log_frame_rotate] node_view_log [OF log_frame_rotate_init]
  node_view_log [OF log_frame_zombie] node_view_log [OF log_frame_reap] node_view_log [OF log_frame_signal]
  node_view_log node_view_tail node_view_kill

lemma conman_unlocked:
  assumes "conman_step E S = Some (Ok S')" and "\<not> needs_lock ConmanStep S"
  shows "node_view (vars S') = node_view (vars S)"
  using assms
  by (cases "cpc S")
    (auto simp: conman_step_def needs_lock_def conman_create_def conman_start_def conman_wait_def conman_clear_def Let_def
      split: if_splits dest!: on_vars_Ok)

lemma monitor_unlocked:
  assumes "monitor_step E S = Some (Ok S')" and "\<not> needs_lock MonitorStep S"
  shows "node_view (vars S') = node_view (vars S)"
  using assms
  by (cases "mpc S")
    (auto simp: monitor_step_def needs_lock_def checkIfRiverPasswordsChanged_def node_view_steps
      split: if_splits outcome.splits dest!: on_vars_Ok)

lemma act_unlocked:
  assumes "act E a S = Some (Ok S')" and "\<not> needs_lock a S"
  shows "node_view (vars S') = node_view (vars S)"
  using assms conman_unlocked [of E S S'] monitor_unlocked [of E S S']
  by (cases a)
    (auto simp: step_defs needs_lock_def node_view_steps dest!: on_vars_Ok test_step_cases
      split: option.splits outcome.splits if_splits)

lemma act_stuck: "act E a S = Some (Ok S') \<Longrightarrow> stuck S' = stuck S"
  by (cases a)
    (auto simp: step_defs conman_step_def after_config_def monitor_step_def dest!: on_vars_Ok test_step_cases
      split: conman_pc.splits monitor_pc.splits option.splits outcome.splits if_splits)

lemma act_not_released:
  assumes "act E a S = Some (Ok S')" and "a \<noteq> StopRelease" and "main_at S \<le> Stopping"
  shows "main_at S' \<le> Stopping"
proof (cases "a \<in> {Listen, StopFlag, Exit}")
  case True
  with assms(1,3) show ?thesis by (auto simp: step_defs phase_defs split: if_splits)
next
  case False
  with act_main_at [OF assms(1)] assms(2,3) show ?thesis by simp
qed

interpretation freeze: step_invariant "step E" "frozen w" for E w
proof
  fix x y
  assume f: "frozen w x" and "step E x y"
  from this(2) show "frozen w y"
  proof (rule stepE)
    fix a
    assume "may_run a x" and a: "act E a x = Some (Ok y)"
    then have n: "\<not> needs_lock a x" using f by (simp add: may_run_def frozen_def)
    then have "a \<noteq> StopRelease" by (auto simp: needs_lock_def)
    with f show ?thesis using act_unlocked [OF a n] act_stuck [OF a] act_not_released [OF a] by (simp add: frozen_def)
  next
    fix a
    assume "may_run a x" and "wait_forever E a x = Some y"
    then show ?thesis using f
      by (auto simp: may_run_def frozen_def wait_forever_def needs_lock_def split: action.splits conman_pc.splits if_splits)
  next
    assume "y = x\<lparr>crashed := True\<rparr>"
    then show ?thesis using f by (simp add: frozen_def)
  qed
qed

end
