(* ===== verification/Ownership_Spec.thy ===== *)
theory Ownership_Spec
  imports Thread_Invariant
begin

text \<open>
  What the pod promises about the nodes it holds, without maps, goroutines or services: the
  set of nodes, whether a round of the watcher is under way, and how far \<^verbatim>\<open>main\<close> has got.
  Nodes are gained only when a round ends, and a round begins only before the shutdown; in
  between nodes are only given up; the shutdown gives up all of them.  The goroutines refine
  this machine step by step.
\<close>

record ownership =
  owned :: "string set"
  round_open :: bool
  phase :: main_pc

inductive own_step :: "ownership \<Rightarrow> ownership \<Rightarrow> bool" where
  open_round: "phase a \<le> Serving \<Longrightarrow> \<not> round_open a \<Longrightarrow> own_step a (a\<lparr>round_open := True\<rparr>)"
| close_round: "round_open a \<Longrightarrow> own_step a (a\<lparr>owned := N, round_open := False\<rparr>)"
| give_up: "N \<subseteq> owned a \<Longrightarrow> own_step a (a\<lparr>owned := N\<rparr>)"
| listen_own: "phase a = Starting \<Longrightarrow> own_step a (a\<lparr>phase := Serving\<rparr>)"
| begin_stop: "phase a = Serving \<Longrightarrow> own_step a (a\<lparr>phase := Stopping\<rparr>)"
| release_all: "phase a = Stopping \<Longrightarrow> own_step a (a\<lparr>owned := {}, phase := Stopped\<rparr>)"
| end_own: "phase a = Stopped \<Longrightarrow> own_step a (a\<lparr>phase := Ended\<rparr>)"

inductive_cases own_stepE: "own_step a b"

definition ownership_of :: "system \<Rightarrow> ownership" where
  "ownership_of S = \<lparr>owned = held (vars S), round_open = (wpc S = WChecked), phase = main_at S\<rparr>"

section \<open>Simulations\<close>

text \<open>A concrete relation with an invariant, every step of which is one of an abstract relation.\<close>

locale simulation = step_invariant R I
  for R :: "'c \<Rightarrow> 'c \<Rightarrow> bool" and I :: "'c \<Rightarrow> bool" +
  fixes A :: "'a \<Rightarrow> 'a \<Rightarrow> bool" and abs_of :: "'c \<Rightarrow> 'a"
  assumes simulates: "I x \<Longrightarrow> R x y \<Longrightarrow> A (abs_of x) (abs_of y)"
begin

lemma runs_refine: "R\<^sup>*\<^sup>* x y \<Longrightarrow> I x \<Longrightarrow> A\<^sup>*\<^sup>* (abs_of x) (abs_of y)"
proof (induction rule: rtranclp_induct)
  case (step y z)
  then have "I y" using along by blast
  with step show ?case using simulates by (meson rtranclp.rtrancl_into_rtrancl)
qed simp

end

section \<open>The abstract machine\<close>

text \<open>Once the shutdown has begun and no round is under way, nodes are only given up.\<close>

definition closing :: "string set \<Rightarrow> ownership \<Rightarrow> bool" where
  "closing N a \<longleftrightarrow> owned a \<subseteq> N \<and> \<not> round_open a \<and> Stopping \<le> phase a"

interpretation own_closing: step_invariant own_step "closing N" for N
  by unfold_locales (auto simp: closing_def phase_defs elim!: own_stepE)

section \<open>The goroutines refine it\<close>

lemma act_gives_up:
  assumes "act E a S = Some (Ok S')" and "system_ok S" and "a \<noteq> WatchRound"
  shows "held (vars S') \<subseteq> held (vars S)"
proof -
  have "vars_ok (held (vars S)) (command_at (cpc S)) (Stopping \<le> main_at S) (vars S)"
    using assms(2) by (simp add: system_ok_def vars_ok_def)
  from act_keeps [OF assms(1) this] assms(3) show ?thesis by (simp add: vars_ok_def)
qed

lemma own_stay: "owned b \<subseteq> owned a \<Longrightarrow> round_open b = round_open a \<Longrightarrow> phase b = phase a \<Longrightarrow> own_step a b"
proof -
  assume sub: "owned b \<subseteq> owned a" and "round_open b = round_open a" "phase b = phase a"
  then have b: "b = a\<lparr>owned := owned b\<rparr>" by simp
  show "own_step a b" by (subst b) (rule give_up [OF sub])
qed

lemma act_refines:
  assumes "act E a S = Some (Ok S')" and "system_ok S"
  shows "own_step (ownership_of S) (ownership_of S')"
proof -
  have open_iff: "inShutdown (vars S) \<longleftrightarrow> Stopping \<le> main_at S" using assms(2) by (simp add: system_ok_def)
  consider "a = WatchCheck" | "a = WatchRound" | "a = StopFlag" | "a = StopRelease" | "a = Listen" | "a = Exit"
    | "a \<notin> {WatchCheck, WatchRound, StopFlag, StopRelease, Listen, Exit}" by blast
  then show ?thesis
  proof cases
    case 1
    show ?thesis
    proof (cases "inShutdown (vars S)")
      case True
      then show ?thesis using assms(1) 1 by (intro own_stay) (auto simp: watch_check_def ownership_of_def emit_def split: if_splits)
    next
      case False
      then have "S' = S\<lparr>wpc := WChecked\<rparr>" "wpc S = WIdle" using assms(1) 1 by (auto simp: watch_check_def split: if_splits)
      then show ?thesis using open_round [of "ownership_of S"] False open_iff
        by (cases "main_at S") (simp_all add: ownership_of_def phase_defs)
    qed
  next
    case 2
    then have "wpc S = WChecked" "wpc S' = WIdle" "main_at S' = main_at S"
      using assms(1) by (auto simp: watch_round_def split: if_splits dest!: on_vars_Ok)
    then show ?thesis using close_round [of "ownership_of S" "held (vars S')"] by (simp add: ownership_of_def)
  next
    case 3
    then have "S' = S\<lparr>vars := (vars S)\<lparr>inShutdown := True\<rparr>, main_at := Stopping, sigs := tl (sigs S)\<rparr>" "main_at S = Serving"
      using assms(1) by (auto simp: stop_flag_def split: if_splits)
    then show ?thesis using begin_stop [of "ownership_of S"] by (simp add: ownership_of_def held_def)
  next
    case 4
    then have S': "S' = S\<lparr>vars := releaseAllNodes E (vars S), main_at := Stopped\<rparr>" "main_at S = Stopping"
      using assms(1) by (auto simp: stop_release_def split: if_splits)
    have "vars_ok UNIV (command_at (cpc S)) True (vars S)" using assms(2) S'(2) by (simp add: system_ok_iff phase_defs)
    then have "held (releaseAllNodes E (vars S)) = {}" using vars_ok_release_all by blast
    then show ?thesis using release_all [of "ownership_of S"] S' by (simp add: ownership_of_def)
  next
    case 5
    then have "S' = S\<lparr>main_at := Serving\<rparr>" "main_at S = Starting"
      using assms(1) by (auto simp: listen_def split: if_splits)
    then show ?thesis using listen_own [of "ownership_of S"] by (simp add: ownership_of_def)
  next
    case 6
    then have "S' = S\<lparr>main_at := Ended\<rparr>" "main_at S = Stopped"
      using assms(1) by (auto simp: exit_main_def split: if_splits)
    then show ?thesis using end_own [of "ownership_of S"] by (simp add: ownership_of_def)
  next
    case 7
    then show ?thesis using act_gives_up [OF assms] act_main_at [OF assms(1)] act_wpc [OF assms(1)]
      by (intro own_stay) (simp_all add: ownership_of_def)
  qed
qed

interpretation own: simulation "step E" system_ok own_step ownership_of for E
proof
  fix x y
  assume ok: "system_ok x" and "step E x y"
  from this(2) show "own_step (ownership_of x) (ownership_of y)"
  proof (rule stepE)
    fix a
    assume "act E a x = Some (Ok y)"
    then show ?thesis using act_refines ok by blast
  next
    fix a
    assume w: "wait_forever E a x = Some y"
    have "vars_ok (held (vars x)) (command_at (cpc x)) (Stopping \<le> main_at x) (vars x)"
      using ok by (simp add: system_ok_def vars_ok_def)
    from wait_forever_ok [OF w this] wait_forever_frame [OF w] show ?thesis
      by (intro own_stay) (simp_all add: ownership_of_def vars_ok_def)
  next
    assume "y = x\<lparr>crashed := True\<rparr>"
    then show ?thesis by (intro own_stay) (simp_all add: ownership_of_def)
  qed
qed

end
