(* ===== verification/Sample_World.thy ===== *)
theory Sample_World
  imports Ownership_Spec
begin

text \<open>
  Concrete surroundings and concrete states, small enough to be evaluated, on which the
  hypotheses of the properties hold and the races happen.
\<close>

definition sample_loc :: PodLocationDataResponse where
  "sample_loc = \<lparr>PodName = ''cray-console-node-0'', Alias = ''ncn-w001'', Xname = ''x3000c0s7b0n0''\<rparr>"

definition sample_node :: "string \<Rightarrow> string \<Rightarrow> nodeConsoleInfo" where
  "sample_node xname cls =
     \<lparr>NodeName = xname, BmcName = xname @ ''b0'', BmcFqdn = xname @ ''.local'', Class = cls, NID = 7,
      Role = ''Compute''\<rparr>"

definition sample_map :: "string \<Rightarrow> string list \<Rightarrow> nodeConsoleInfo gomap" where
  "sample_map cls xs = map (\<lambda>x. (x, sample_node x cls)) xs"

text \<open>Surroundings that answer every request by a fixed function and in which nothing fails.\<close>

definition sample_env :: "(http_request \<Rightarrow> http_outcome) \<Rightarrow> rot_env" where
  "sample_env n =
     \<lparr>net = (\<lambda>_. n), range_order = (\<lambda>_ _ ks. rev ks), getenv = (\<lambda>_. []), os_fails = (\<lambda>_ _ _. False),
      now = (\<lambda>_. ''2024-01-01T00:00:00Z''), umask = 0x12, ps_output = (\<lambda>_. []), rand_Intn = (\<lambda>_. 234),
      NewVaultAdapter_fails = (\<lambda>_. False), GetCompCreds = (\<lambda>_ _. Some []), io_copied = (\<lambda>_. 0),
      gjson_Get = (\<lambda>_ _. ''KEY''), zone_lookup = (\<lambda>_. (0, 0, 0)), logrotate = (\<lambda>_ f. f)\<rparr>"

text \<open>console-data grants one River node to every request, nobody else answers.\<close>

definition grant_one :: "http_request \<Rightarrow> http_outcome" where
  "grant_one req =
     (if rq_method req = ''POST'' then Response 200 (Json (json_nodes [sample_node ''x9'' ''River''])) else DoError)"

definition sample_pod :: "string list \<Rightarrow> string list \<Rightarrow> string list \<Rightarrow> cmd_state \<Rightarrow> cred_vars" where
  "sample_pod rv mt pd cmd =
     \<lparr>trace = [], files = (\<lambda>_. None), debugOnly = False, podName = ''cray-console-node-0'', podID = ''0'',
      podLocData = Some sample_loc, inShutdown = False,
      conAggLogger = None, aggLines = [], conAggLogFile = ''/tmp/consoleAgg/consoleAgg-0.log'',
      tailThreads = [], tailers = [], tailing = [], cancelled = [], nextCtx = 0,
      currentMtnNodes = sample_map ''Mountain'' mt, currentRvrNodes = sample_map ''River'' rv,
      currentPdsNodes = sample_map ''Paradise'' pd,
      targetRvrNodes = -1, targetMtnNodes = -1, maxAcquireRvr = 500, maxAcquireMtn = 200, newNodeLookupSec = 30,
      command = cmd,
      logRotEnabled = True, logRotCheckFreqSec = 600, logRotConFileSize = ''5M'', logRotConNumRotate = 2,
      logRotAggFileSize = ''20M'', logRotAggNumRotate = 1,
      lastHeartbeatTime = ''None'', heartbeatIntervalSecs = 30,
      previousPasswords = None, previousPrivateKeyHash = None\<rparr>"

text \<open>Vault knows the credentials of one controller; the base configuration file is there.\<close>

definition creds_env :: rot_env where
  "creds_env =
     (sample_env grant_one)\<lparr>GetCompCreds := \<lambda>_ _. Some [(''x1b0'', zero_creds\<lparr>Username := ''root'', Password := ''pw''\<rparr>)]\<rparr>"

definition conf_pod :: "string \<Rightarrow> string list \<Rightarrow> cmd_state \<Rightarrow> cred_vars" where
  "conf_pod base rv cmd = (sample_pod rv [] [] cmd)\<lparr>files := [baseConfFile \<mapsto> RegFile 0x1A4 base]\<rparr>"

text \<open>Vault lets the pod log in and gives a key; the pod holds a Mountain node and has a token.\<close>

definition vault_env :: rot_env where
  "vault_env = sample_env (\<lambda>_. Response 200 (Json JNull))"

definition key_pod :: "int list option \<Rightarrow> cred_vars" where
  "key_pod h = (sample_pod [] [''x1''] [] Running)\<lparr>files := [svcAcctTokenFile \<mapsto> RegFile 0x1A4 ''token''], previousPrivateKeyHash := h\<rparr>"

text \<open>A pod whose state file has one entry.\<close>

definition rotated_pod :: cred_vars where
  "rotated_pod = (sample_pod [''x1''] [] [] Running)\<lparr>files := [logRotStateFile \<mapsto> RegFile 0x1A4 (state_line ''x1'' [2024, 2, 29, 12, 30, 59])]\<rparr>"

text \<open>Running a list of actions.\<close>

fun run :: "'e rot_env_scheme \<Rightarrow> action list \<Rightarrow> system \<Rightarrow> system option" where
  "run E [] S = Some S"
| "run E (a # as) S = (case act E a S of Some (Ok S') \<Rightarrow> if may_run a S then run E as S' else None | _ \<Rightarrow> None)"

lemmas sample_defs = sample_loc_def sample_node_def sample_map_def sample_env_def sample_pod_def

lemma sample_pools_ok:
  "distinct rv \<Longrightarrow> distinct mt \<Longrightarrow> distinct pd \<Longrightarrow> pools_ok (sample_pod rv mt pd cmd)"
  by (auto simp: pools_ok_def pool_ok_def sample_defs isRiver_def isMountain_def isParadise_def comp_def)

lemma sample_held: "held (sample_pod rv mt pd cmd) = set rv \<union> set mt \<union> set pd"
  by (auto simp: held_def sample_pod_def sample_map_def image_image)

lemma conf_pools_ok: "distinct rv \<Longrightarrow> pools_ok (conf_pod base rv cmd)"
  using sample_pools_ok [of rv "[]" "[]" cmd] by (simp add: conf_pod_def)

lemma map_outcome_Ok: "map_outcome f r = Ok y \<Longrightarrow> \<exists>x. r = Ok x \<and> f x = y"
  by (cases r) simp_all

lemma map_option_Some: "map_option f r = Some y \<Longrightarrow> \<exists>x. r = Some x \<and> f x = y"
  by (cases r) simp_all

lemma run_steps: "run E as S = Some S' \<Longrightarrow> (step E)\<^sup>*\<^sup>* S S'"
proof (induction as arbitrary: S)
  case (Cons a as)
  then obtain S1 where "act E a S = Some (Ok S1)" "may_run a S" "run E as S1 = Some S'"
    by (auto split: option.splits outcome.splits if_splits)
  then show ?case using Cons.IH by (meson converse_rtranclp_into_rtranclp step_ok)
qed simp

text \<open>Surroundings in which two pods are active and there are ten River nodes.\<close>

definition two_pods :: "http_request \<Rightarrow> http_outcome" where
  "two_pods req =
     (if rq_url req = ''http://cray-console-data/v1/activepods'' then Response 200 (Json (JObj [(''numactivepods'', JNum ''2'')]))
      else if rq_method req = ''GET'' then Response 200 (Json (JObj [(''totalrvrnodes'', JNum ''10'')]))
      else Response 200 (Json JNull))"

text \<open>The same, with six River nodes granted to the pod.\<close>

definition grant_six :: "http_request \<Rightarrow> http_outcome" where
  "grant_six req =
     (if rq_method req = ''POST'' then Response 200 (Json (json_nodes (map (\<lambda>x. sample_node x ''River'') [''x1'', ''x2'', ''x3'', ''x4'', ''x5'', ''x6''])))
      else two_pods req)"

text \<open>Surroundings in which the operator answers \<^verbatim>\<open>null\<close>.\<close>

definition null_targets :: "http_request \<Rightarrow> http_outcome" where
  "null_targets req =
     (if rq_url req = ''http://cray-console-data/v1/activepods'' then Response 200 (Json (JObj [(''numactivepods'', JNum ''2'')]))
      else Response 200 (Json JNull))"

lemma two_pods_grants: "grants_as_asked (sample_env two_pods)"
  by (auto simp: grants_as_asked_def sample_env_def two_pods_def unmarshal_nodes_def dec_slice_def
      dec_struct_def split: if_splits)

end
