(* ===== verification/Node_Properties.thy ===== *)
theory Node_Properties
  imports Sample_World
begin

text \<open>
  The properties of node management: the maps of monitored nodes, the rounds of the watcher,
  the heartbeat, and the exchange of data with console-data and console-operator.  Each
  property with a hypothesis is followed by its application to a concrete state.
\<close>

section \<open>Shared lemmas\<close>

lemma podID_frame [simp]:
  "podID (stopTailing k s) = podID s" "podID (drop_rvr k s) = podID s" "podID (drop_mtn k s) = podID s"
  "podID (drop_pds k s) = podID s" "podID (releaseNodes E ns s) = podID s"
  by (simp_all add: stopTailing_frame drop_rvr_def drop_mtn_def drop_pds_def releaseNodes_eq)

lemma rebalanceNodes_podID [simp]: "podID (snd (rebalanceNodes E dr dm s)) = podID s"
  by (rule rebalanceNodes_keeps [where I = "\<lambda>x. podID x = podID s"]) simp_all

lemma release_request_cong: "podID s = podID s' \<Longrightarrow> release_request ns s = release_request ns s'"
  by (simp add: release_request_def consolepod_url_def)

text \<open>A release is the last thing in the trace.\<close>

lemma releaseNodes_trace:
  "podID s = podID s' \<Longrightarrow>
     \<exists>h. trace (releaseNodes E ns s) = h @ http_events E (release_request ns s') h"
  using release_request_cong [of s s' ns] by (auto simp: releaseNodes_eq)

lemma held_nodes_releaseNodes [simp]:
  "held_nodes (releaseNodes E ns s) = held_nodes s" "num_rvr (releaseNodes E ns s) = num_rvr s"
  "num_mtn_pds (releaseNodes E ns s) = num_mtn_pds s"
  by (simp_all add: held_nodes_def mtn_pds_nodes_def num_rvr_def num_mtn_pds_def)

text \<open>A round panics only for want of a location, of targets or of a started process.\<close>

lemma operator_reply_nil:
  "operator_reply (dec_struct fs) z (http_result r) = (None, None) \<Longrightarrow> r = Response 200 (Json JNull)"
  by (cases r)
    (auto simp: operator_reply_def http_result_def dec_pointer_def split: if_splits body.splits json.splits prod.splits)

lemma getCurrentTargets_nil:
  assumes "fst (getCurrentTargets om E s) = (None, None)"
  shows "net E (trace s) (Request ''GET'' (operatorAddrBase om @ ''/currentTargets'') [] None) = Response 200 (Json JNull)"
  using assms by (intro operator_reply_nil) (simp add: getCurrentTargets_def client_eqs)

lemma calc_no_panic:
  assumes "\<forall>h. net E h (Request ''GET'' (operatorAddrBase om @ ''/currentTargets'') [] None) \<noteq> Response 200 (Json JNull)"
  shows "\<exists>d s1. calcChangeInNodes E (manager_service om E) s = Ok (d, s1)"
proof -
  obtain r m where u: "updateNodesPerPod E s = Ok (s\<lparr>targetRvrNodes := r, targetMtnNodes := m\<rparr>)"
    using updateNodesPerPod_Ok by blast
  obtain n e s2 where 2: "getNumActiveNodePods E (s\<lparr>targetRvrNodes := r, targetMtnNodes := m\<rparr>) = ((n, e), s2)"
    by (metis surj_pair)
  obtain t f s3 where 3: "getCurrentTargets om E s2 = ((t, f), s3)" by (metis surj_pair)
  have "\<not> (t = None \<and> f = None)" using getCurrentTargets_nil [of om E s2] 3 assms by (metis fst_conv)
  then show ?thesis
    by (cases t) (auto simp: calcChangeInNodes_def u 2 manager_service_def 3 Let_def)
qed

lemma acquire_phase_no_panic:
  "podLocData s \<noteq> None \<Longrightarrow> \<exists>c s'. acquire_phase E m r s = Ok (c, s')"
  by (auto simp: acquire_phase_def acquireNewNodes_def split: prod.split)

lemma round_no_panic:
  assumes "podLocData s \<noteq> None" and "command s \<noteq> Created"
    and "\<forall>h. net E h (Request ''GET'' (operatorAddrBase om @ ''/currentTargets'') [] None) \<noteq> Response 200 (Json JNull)"
  shows "\<exists>s'. doGetNewNodes E (manager_service om E) s = Ok s'"
proof (cases "inShutdown s")
  case False
  obtain dm dr s1 where calc: "calcChangeInNodes E (manager_service om E) s = Ok ((dm, dr), s1)"
    using calc_no_panic [OF assms(3), of s] by auto
  define d where "d = (if dr = 0 then 1 else dr)"
  have f1: "podLocData s1 = podLocData s" "command s1 = command s"
    using manager_watch.calc_frame [OF calc] by auto
  obtain c s2 where a: "acquire_phase E (pinNumNodes dm (maxAcquireMtn s1)) (pinNumNodes d (maxAcquireRvr s1)) s1 = Ok (c, s2)"
    using acquire_phase_no_panic [of s1 E] f1(1) assms(1) by metis
  obtain b s3 where r: "rebalanceNodes E d dm s2 = (b, s3)" by fastforce
  have "command s3 = command s"
    using acquire_phase_command [OF a] rebalanceNodes_command [of E d dm s2] r f1 by simp
  then obtain s4 where "signalConmanTERM s3 = Ok s4"
    using assms(2) signalConmanTERM_panics [of s3] by (cases "signalConmanTERM s3") auto
  then have "\<exists>s'. changed_phase E (b \<or> c) s3 = Ok s'" by (simp add: changed_phase_def)
  then show ?thesis
    using False calc a r by (simp add: doGetNewNodes_def doGetNewNodes_locked_def Let_def d_def)
qed (simp add: doGetNewNodes_def)

text \<open>The target file.\<close>

lemma digit_char_neq: "d < 10 \<Longrightarrow> digit_char d \<notin> {newline, CHR ''M'', CHR ''R''}"
  using digit_cases [of d] by (auto simp: digit_char_def)

lemma itoa_chars: "c \<in> set (itoa n) \<Longrightarrow> c \<notin> {newline, CHR ''M'', CHR ''R''}"
  using digit_char_neq by (auto simp: itoa_def split: if_splits dest!: nat_digits_digit)

lemma target_value_head: "keyTxt \<noteq> [] \<Longrightarrow> target_value keyTxt (keyTxt @ num @ [newline]) old = Ok (fst (atoi num))"
proof -
  assume "keyTxt \<noteq> []"
  then have "strings_Index (keyTxt @ num @ [newline]) keyTxt = Some 0"
    using strings_Index_append [of keyTxt "[]" "num @ [newline]"] by auto
  then show ?thesis by (simp add: target_value_def str_slice_def)
qed

lemma target_value_absent: "c \<in> set keyTxt \<Longrightarrow> c \<notin> set line \<Longrightarrow> target_value keyTxt line old = Ok old"
proof -
  assume "c \<in> set keyTxt" and "c \<notin> set line"
  then have "strings_Index line keyTxt = None" by (auto simp: strings_Index_None_iff)
  then show ?thesis by (simp add: target_value_def)
qed

section \<open>Giving nodes back\<close>

text \<open>
  C2: a rebalance gives back exactly as many River nodes and as many Mountain and Paradise
  nodes as asked, as far as there are any; no node is lost: what was held is what is still
  held plus what was released; and the released nodes, if any, are reported to console-data
  in one request, which is the last thing that happens.
\<close>

theorem rebalance_spec:
  assumes "pools_ok s"
  shows "\<exists>rn. rebalanceNodes E dr dm s = (rn \<noteq> [], snd (rebalanceNodes E dr dm s)) \<and>
    held_nodes s = mset rn + held_nodes (snd (rebalanceNodes E dr dm s)) \<and>
    num_rvr (snd (rebalanceNodes E dr dm s)) = (if dr < 0 then max 0 (num_rvr s + dr) else num_rvr s) \<and>
    num_mtn_pds (snd (rebalanceNodes E dr dm s)) = (if dm < 0 then max 0 (num_mtn_pds s + dm) else num_mtn_pds s) \<and>
    (rn \<noteq> [] \<longrightarrow> (\<exists>h. trace (snd (rebalanceNodes E dr dm s)) = h @ http_events E (release_request rn s) h))"
proof -
  obtain rn s2 where eq: "rebalanceNodes E dr dm s = (rn \<noteq> [], if rn \<noteq> [] then releaseNodes E rn s2 else s2)"
    and spec: "held_nodes s = mset rn + held_nodes s2"
      "num_rvr s2 = (if dr < 0 then max 0 (num_rvr s + dr) else num_rvr s)"
      "num_mtn_pds s2 = (if dm < 0 then max 0 (num_mtn_pds s + dm) else num_mtn_pds s)"
    using rebalanceNodes_spec [OF assms, of E dr dm] by blast
  have "podID s2 = podID s" using rebalanceNodes_podID [of E dr dm s] by (auto simp: eq split: if_splits)
  then have "\<exists>h. trace (releaseNodes E rn s2) = h @ http_events E (release_request rn s) h"
    by (rule releaseNodes_trace)
  then show ?thesis using spec by (intro exI [of _ rn]) (simp add: eq)
qed

theorem rebalance_spec_witness:
  "num_rvr (snd (rebalanceNodes (sample_env grant_one) (-2) 0 (sample_pod [''x1'', ''x2'', ''x3''] [] [] Running))) = 1"
proof -
  have "pools_ok (sample_pod [''x1'', ''x2'', ''x3''] [] [] Running)" by (rule sample_pools_ok) simp_all
  from rebalance_spec [OF this, of "sample_env grant_one" "-2" 0] show ?thesis
    by (auto simp: num_rvr_def sample_pod_def sample_map_def)
qed

text \<open>
  At shutdown every node is given back: the request names all held nodes, and
  afterwards nothing is held and no console of theirs is tailed.
\<close>

lemma release_all_spec:
  assumes "pools_ok s"
  shows "\<exists>rn h. mset rn = held_nodes s \<and>
    trace (main_stop E s) = h @ http_events E (release_request rn s) h \<and>
    held (main_stop E s) = {} \<and> gm_keys (tailThreads (main_stop E s)) = gm_keys (tailThreads s) - held s \<and>
    inShutdown (main_stop E s)"
proof -
  let ?s = "s\<lparr>inShutdown := True\<rparr>"
  have same: "held_nodes ?s = held_nodes s" "held ?s = held s" "podID ?s = podID s"
    by (simp_all add: held_nodes_def mtn_pds_nodes_def held_def)
  have ok: "pools_ok ?s" using assms by (simp add: pools_ok_def)
  obtain rn s3 where eq: "releaseAllNodes E ?s = releaseNodes E rn s3" and "mset rn = held_nodes s"
    and h: "held (releaseAllNodes E ?s) = {}" "gm_keys (tailThreads (releaseAllNodes E ?s)) = gm_keys (tailThreads s) - held s"
    using releaseAllNodes_spec [OF ok, of E] same by auto
  have f: "podID (fold stopTailing ks x) = podID x" "inShutdown (fold stopTailing ks x) = inShutdown x" for ks and x :: "'a node_vars_scheme"
    by (induction ks arbitrary: x) (simp_all add: stopTailing_frame)
  have "podID (releaseAllNodes E ?s) = podID s" by (simp add: releaseAllNodes_def Let_def f)
  then have "podID s3 = podID s" by (simp add: eq)
  then obtain h' where "trace (releaseNodes E rn s3) = h' @ http_events E (release_request rn s) h'"
    using releaseNodes_trace by blast
  moreover have "inShutdown (releaseAllNodes E ?s)" by (simp add: releaseAllNodes_def Let_def f releaseNodes_eq)
  ultimately show ?thesis using \<open>mset rn = _\<close> h by (auto simp: main_stop_def eq)
qed

section \<open>Rounds of the watcher\<close>

text \<open>
  A round of the watcher keeps the maps consistent (distinct keys, each the name of a
  node of the map's class), tails no console it does not hold, and keeps the bookkeeping of
  the tailing goroutines, whatever console-data, the operator and the file system answer.
\<close>

lemma round_keeps_invariants:
  assumes "doGetNewNodes E (manager_service om E) s = Ok s'" and "pools_ok s" and "tails_held s" and "tails_ok s"
  shows "pools_ok s' \<and> tails_held s' \<and> tails_ok s'"
  using manager_watch.round_ok [OF assms(1)] assms(2-4) by blast

text \<open>
  C6: no pod runs away with River nodes.  If both services answer and console-data grants no
  more than asked, then after a round the pod holds at most ten percent more than its even
  share of the River nodes, plus the one node it may always take.
\<close>

theorem river_no_runaway:
  assumes "doGetNewNodes E (manager_service om E) s = Ok s'" and "\<not> inShutdown s" and "pools_ok s"
    and pods: "fst (getNumActiveNodePods E s) = (numPods, None)"
    and targets: "fst (getCurrentTargets om E (snd (getNumActiveNodePods E s))) = (Some t, None)"
    and "grants_as_asked E" and "0 \<le> TotalRvrNodes t" and "TotalRvrNodes t < 2 ^ 40" and "num_rvr s < 2 ^ 53"
  shows "10 * (num_rvr s' - 1) \<le> 11 * (TotalRvrNodes t div max numPods 1 + 1)"
proof -
  have r: "doGetNewNodes_locked E (manager_service om E) s = Ok s'"
    using assms(1,2) by (simp add: doGetNewNodes_def)
  define ideal where "ideal = ideal_num (TotalRvrNodes t) numPods"
  obtain dm s1 where calc: "calcChangeInNodes E (manager_service om E) s = Ok ((dm, ideal_delta (num_rvr s) ideal), s1)"
    using calc_answered [OF pods targets] ideal_def by blast
  have ideal: "ideal = TotalRvrNodes t div max numPods 1 + 1" "0 < ideal" "ideal \<le> 2 ^ 40"
    unfolding ideal_def using ideal_num_eq [OF assms(7,8)] by blast+
  have d: "ideal_delta (num_rvr s) ideal = (if num_rvr s < ideal \<or> 11 * ideal < 10 * num_rvr s then ideal - num_rvr s else 0)"
    using ideal assms(9) by (intro ideal_delta_eq) (simp_all add: num_rvr_def)
  from manager_watch.round_num_rvr [OF r calc assms(3,6)]
  have "10 * (num_rvr s' - 1) \<le> 11 * ideal"
    using d ideal(2) by (auto split: if_splits)
  then show ?thesis by (simp only: ideal(1))
qed

theorem river_no_runaway_witness:
  "\<exists>s'. doGetNewNodes (sample_env two_pods) (manager_service NewOperatorService (sample_env two_pods))
      (sample_pod [''x1'', ''x2'', ''x3'', ''x4'', ''x5'', ''x6'', ''x7'', ''x8''] [] [] Running) = Ok s' \<and>
    10 * (num_rvr s' - 1) \<le> 11 * (10 div max 2 1 + 1)"
proof -
  let ?E = "sample_env two_pods"
  let ?s = "sample_pod [''x1'', ''x2'', ''x3'', ''x4'', ''x5'', ''x6'', ''x7'', ''x8''] [] [] Running"
  let ?t = "zero_CurrentTargets\<lparr>TotalRvrNodes := 10\<rparr>"
  obtain s' where s': "doGetNewNodes ?E (manager_service NewOperatorService ?E) ?s = Ok s'"
    using round_no_panic [of ?s ?E NewOperatorService] by (auto simp: sample_pod_def sample_env_def two_pods_def)
  have "fst (getNumActiveNodePods ?E ?s) = (2, None)" by code_simp
  moreover have "fst (getCurrentTargets NewOperatorService ?E (snd (getNumActiveNodePods ?E ?s))) = (Some ?t, None)" by code_simp
  moreover have "pools_ok ?s" by (rule sample_pools_ok) simp_all
  ultimately have "10 * (num_rvr s' - 1) \<le> 11 * (TotalRvrNodes ?t div max 2 1 + 1)"
    using river_no_runaway [OF s', of 2 ?t] two_pods_grants by (simp add: sample_pod_def num_rvr_def sample_map_def)
  then show ?thesis using s' by auto
qed

text \<open>
  C12: when a round changes the set of nodes, a running conman is told to terminate (so that
  it is configured anew) and the rotation file is rewritten: it lists exactly the console
  logs of the nodes now held, and the aggregation log.
\<close>

theorem round_reconfigures:
  assumes "doGetNewNodes E (manager_service om E) s = Ok s'" and "pools_ok s" and "held s' \<noteq> held s"
    and "\<forall>h. \<not> os_fails E h ''Create'' logRotConfFile" and "\<not> is_directory (files s logRotConfFile)"
  shows "(command s = Running \<longrightarrow> SignalConman SIGTERM \<in> set (drop (length (trace s)) (trace s'))) \<and>
    (\<exists>m es. files s' logRotConfFile = Some (RegFile m (conf_text es)) \<and>
      ce_file ` set es = (if conAggLogFile s' = [] then {} else {conAggLogFile s'}) \<union> console_log ` held s')"
proof -
  have "doGetNewNodes_locked E (manager_service om E) s = Ok s'"
    using assms(1,3) by (auto simp: doGetNewNodes_def split: if_splits)
  then obtain s4 where s4: "later s s4" "held s4 = held s'" "s' = updateLogRotateConf E s4" "files s4 = files s"
    and sig: "command s = Running \<longrightarrow> last (trace s4) = SignalConman SIGTERM \<and> length (trace s) < length (trace s4)"
    using manager_watch.round_changed [OF _ assms(2,3)] by blast
  define m where "m = (case files s4 logRotConfFile of Some i \<Rightarrow> inode_mode i | None \<Rightarrow> mkdir_mode E 0x1B6)"
  have s': "s' = s4\<lparr>files := (files s4)(logRotConfFile \<mapsto> RegFile m (conf_text (conf_entries E s4))),
      trace := trace s4 @ [OsCall ''Write'' logRotConfFile]\<rparr>"
    using assms(4,5) by (simp add: s4(3,4) updateLogRotateConf_def write_file_def emit_def m_def s4(4))
  have "SignalConman SIGTERM \<in> set (drop (length (trace s)) (trace s'))" if "command s = Running"
  proof -
    obtain t where t: "trace s4 = trace s @ t" using s4(1) by (auto simp: later_def)
    with sig that have "t \<noteq> []" "last t = SignalConman SIGTERM" by auto
    then have "SignalConman SIGTERM \<in> set t" by (metis last_in_set)
    moreover have "trace s' = trace s @ t @ [OsCall ''Write'' logRotConfFile]" by (simp add: s' t)
    ultimately show ?thesis by simp
  qed
  moreover have "files s' logRotConfFile = Some (RegFile m (conf_text (conf_entries E s4)))"
    and "conAggLogFile s' = conAggLogFile s4" by (simp_all add: s')
  ultimately show ?thesis using conf_entries_files [of E s4] s4(2) by metis
qed

theorem round_reconfigures_witness:
  "\<exists>s'. doGetNewNodes (sample_env grant_one) (manager_service NewOperatorService (sample_env grant_one))
      (sample_pod [] [] [] Running) = Ok s' \<and> SignalConman SIGTERM \<in> set (trace s')"
proof -
  let ?E = "sample_env grant_one" and ?s = "sample_pod [] [] [] Running"
  have "map_outcome (\<lambda>x. map fst (currentRvrNodes x)) (doGetNewNodes ?E (manager_service NewOperatorService ?E) ?s) = Ok [''x9'']"
    by code_simp
  from map_outcome_Ok [OF this] obtain s' where s': "doGetNewNodes ?E (manager_service NewOperatorService ?E) ?s = Ok s'"
    and x9: "map fst (currentRvrNodes s') = [''x9'']" by (elim exE conjE)
  have "''x9'' \<in> held s'" using arg_cong [OF x9, of set] by (simp add: held_def)
  moreover have "held ?s = {}" by (simp add: sample_held)
  ultimately have "held s' \<noteq> held ?s" by (metis empty_iff)
  moreover have "pools_ok ?s" by (rule sample_pools_ok) simp_all
  ultimately have "SignalConman SIGTERM \<in> set (trace s')"
    using round_reconfigures [OF s'] by (simp add: sample_env_def sample_pod_def)
  with s' show ?thesis by (intro exI conjI)
qed





text \<open>
  C13: a pod gets its share.  If both services answer with the same numbers round after round,
  console-data grants what is asked for, and no River node is taken away between two rounds,
  then the pod holds its even share of the River nodes after at most as many rounds as the
  limit per round makes necessary.
\<close>

theorem river_reaches_share:
  assumes "\<forall>i < k. river_served E om numPods t (\<sigma> i) \<and> maxAcquireRvr (\<sigma> i) = a \<and>
      (\<exists>s'. doGetNewNodes E (manager_service om E) (\<sigma> i) = Ok s' \<and> num_rvr s' \<le> num_rvr (\<sigma> (Suc i)))"
    and "0 \<le> TotalRvrNodes t" and "TotalRvrNodes t < 2 ^ 40" and "0 < a"
    and "TotalRvrNodes t div max numPods 1 + 1 \<le> num_rvr (\<sigma> 0) + int k * a"
  shows "\<exists>i \<le> k. TotalRvrNodes t div max numPods 1 + 1 \<le> num_rvr (\<sigma> i)"
proof (rule ccontr)
  let ?share = "TotalRvrNodes t div max numPods 1 + 1"
  assume "\<not> ?thesis"
  then have below: "num_rvr (\<sigma> i) < ?share" if "i \<le> k" for i using that by (meson not_le)
  have "i \<le> k \<Longrightarrow> num_rvr (\<sigma> 0) + int i * a \<le> num_rvr (\<sigma> i)" for i
  proof (induction i)
    case (Suc i)
    then have "i < k" by simp
    from assms(1) [rule_format, OF this] obtain s'
      where i: "river_served E om numPods t (\<sigma> i)" "maxAcquireRvr (\<sigma> i) = a"
        and s': "doGetNewNodes E (manager_service om E) (\<sigma> i) = Ok s'" "num_rvr s' \<le> num_rvr (\<sigma> (Suc i))"
      by (elim conjE exE)
    have "num_rvr s' = min ?share (num_rvr (\<sigma> i) + a)"
      using served_round_progress [OF i(1) s'(1) assms(2,3)] below [of i] Suc.prems i(2) assms(4) by simp
    then show ?case using Suc s'(2) below [of "Suc i"] by (simp add: algebra_simps)
  qed simp
  from this [of k] below [of k] assms(5) show False by simp
qed

lemma river_served_six:
  "river_served (sample_env grant_six) NewOperatorService 2 (zero_CurrentTargets\<lparr>TotalRvrNodes := 10\<rparr>) (sample_pod [] [] [] Running)"
proof -
  let ?E = "sample_env grant_six" and ?s = "sample_pod [] [] [] Running" and ?t = "zero_CurrentTargets\<lparr>TotalRvrNodes := 10\<rparr>"
  let ?ns = "map (\<lambda>x. sample_node x ''River'') [''x1'', ''x2'', ''x3'', ''x4'', ''x5'', ''x6'']"
  have 1: "fst (getNumActiveNodePods ?E ?s) = (2, None)" by code_simp
  have 2: "fst (getCurrentTargets NewOperatorService ?E (snd (getNumActiveNodePods ?E ?s))) = (Some ?t, None)" by code_simp
  have ok: "pools_ok ?s" by (rule sample_pools_ok) simp_all
  have "num_rvr ?s = 0" by (simp add: num_rvr_def sample_pod_def sample_map_def)
  then obtain d s2 where calc: "calcChangeInNodes ?E (manager_service NewOperatorService ?E) ?s = Ok ((d, 6), s2)"
    using calc_share [OF 1 2] by (auto simp: Let_def)
  have "unmarshal_nodes (Json (json_nodes ?ns)) = (?ns, False)"
    by (rule unmarshal_json_nodes) (simp add: sample_node_def int64_def)
  then have acq: "acquireNewNodes ?E m r loc s = Ok (ns, s') \<Longrightarrow> ns = ?ns" for m r loc s ns s'
    by (auto simp: acquireNewNodes_def client_eqs http_result_def sample_env_def grant_six_def split: option.splits)
  have "isRiver (sample_node x ''River'')" "NodeName (sample_node x ''River'') = x" for x
    by (simp_all add: isRiver_def sample_node_def)
  then have ns: "filter isRiver ?ns = ?ns" "map NodeName ?ns = [''x1'', ''x2'', ''x3'', ''x4'', ''x5'', ''x6'']" by simp_all
  have "currentRvrNodes s2 = [] \<and> maxAcquireRvr ?s = 500"
    using manager_watch.calc_frame [OF calc] by (auto simp: sample_pod_def sample_map_def)
  then have "river_granted ?E (pinNumNodes d (maxAcquireMtn s2)) (min 6 (maxAcquireRvr ?s)) s2"
    unfolding river_granted_def using ns by (auto dest!: acq)
  with 1 2 ok calc show ?thesis by (simp add: river_served_def sample_pod_def)
qed

theorem river_reaches_share_witness:
  "\<exists>s'. doGetNewNodes (sample_env grant_six) (manager_service NewOperatorService (sample_env grant_six)) (sample_pod [] [] [] Running) = Ok s' \<and>
     6 \<le> num_rvr s'"
proof -
  let ?E = "sample_env grant_six" and ?s = "sample_pod [] [] [] Running" and ?t = "zero_CurrentTargets\<lparr>TotalRvrNodes := 10\<rparr>"
  obtain s' where s': "doGetNewNodes ?E (manager_service NewOperatorService ?E) ?s = Ok s'"
    using round_no_panic [of ?s ?E NewOperatorService] by (auto simp: sample_pod_def sample_env_def grant_six_def two_pods_def)
  have "num_rvr ?s = 0" "maxAcquireRvr ?s = 500" by (simp_all add: num_rvr_def sample_pod_def sample_map_def)
  then have "\<exists>i \<le> (1::nat). TotalRvrNodes ?t div max 2 1 + 1 \<le> num_rvr (if i = 0 then ?s else s')"
    using river_served_six s'
    by (intro river_reaches_share [of 1 ?E NewOperatorService 2 ?t "\<lambda>i. if i = 0 then ?s else s'" 500]) auto
  then have "6 \<le> num_rvr s'" using \<open>num_rvr ?s = 0\<close> by (auto split: if_splits)
  with s' show ?thesis by blast
qed

text \<open>
  C28: the decision whether to give nodes back is made in floating point; with a share of at
  most 2 to the 40th it is the exact one, more than ten percent above the share.
\<close>

theorem float_share_exact:
  assumes "0 \<le> cur" and "cur < 2 ^ 53" and "0 \<le> ideal" and "ideal \<le> 2 ^ 40"
  shows "ideal_delta cur ideal = (if cur < ideal \<or> 11 * ideal < 10 * cur then ideal - cur else 0)"
  using assms by (intro ideal_delta_eq)

theorem float_share_exact_witness: "ideal_delta 12 10 = -2 \<and> ideal_delta 11 10 = 0"
  using float_share_exact [of 12 10] float_share_exact [of 11 10] by simp

text \<open>
  The deprecated target file is read back as it was written: after the lines
  \<^verbatim>\<open>River:r\<close> and \<^verbatim>\<open>Mountain:m\<close> the two targets are \<open>r\<close> and \<open>m\<close>.
\<close>

lemma target_file_roundtrip:
  assumes "0 \<le> r" and "0 \<le> m" and "int64 r" and "int64 m"
    and "files s targetNodeFile = Some (RegFile md (''River:'' @ itoa r @ newline # ''Mountain:'' @ itoa m @ [newline]))"
    and "\<not> os_fails E (trace s) ''Open'' targetNodeFile"
  shows "updateNodesPerPod E s = Ok (s\<lparr>targetRvrNodes := r, targetMtnNodes := m\<rparr>)"
proof -
  let ?l1 = "''River:'' @ itoa r @ [newline]" and ?l2 = "''Mountain:'' @ itoa m @ [newline]"
  have no: "newline \<notin> set (itoa n)" "CHR ''M'' \<notin> set (itoa n)" "CHR ''R'' \<notin> set (itoa n)" for n
    using itoa_chars [of _ n] by auto
  have "read_lines (''River:'' @ itoa r @ newline # ''Mountain:'' @ itoa m @ [newline]) = [?l1, ?l2]"
    using read_lines_Cons [of "''River:'' @ itoa r"] read_lines_Cons [of "''Mountain:'' @ itoa m" "[]"] no by simp
  moreover have "target_value ''River:'' ?l1 x = Ok r" "target_value ''Mountain:'' ?l2 x = Ok m" for x
    using assms(3,4) target_value_head [of "''River:''" "itoa r" x] target_value_head [of "''Mountain:''" "itoa m" x]
    by (simp_all add: atoi_itoa)
  moreover have "target_value ''Mountain:'' ?l1 x = Ok x" "target_value ''River:'' ?l2 x = Ok x" for x
    using no by (auto intro: target_value_absent)
  ultimately show ?thesis using assms(1,2,5,6) by (simp add: updateNodesPerPod_def)
qed

section \<open>The heartbeat\<close>

text \<open>What console-data reads from the body of a heartbeat.\<close>

lemma heartbeat_body:
  assumes "sendSingleHeartbeat E s = Ok s'" and "pools_ok s" and "ints_ok s"
    and "\<forall>h req. net E h req \<noteq> NewRequestError"
  shows "\<exists>payload ns. trace s' ! length (trace s) = HttpCall (Request ''POST'' (consolepod_url ''heartbeat'' s)
      [(''Content-Type'', ''application/json'')] (Some (Json (JObj payload)))) \<and>
    Option.bind (map_of payload ''CurrNodes'') (\<lambda>j. Some (unmarshal_nodes (Json j))) = Some (ns, False) \<and>
    mset ns = held_nodes s"
proof -
  define ns where "ns = all_values E ''sendSingleHeartbeat'' s"
  obtain loc where loc: "podLocData s = Some loc"
    using assms(1) by (auto simp: sendSingleHeartbeat_def split: option.splits)
  have ms: "mset ns = held_nodes s" unfolding ns_def by (rule all_values_mset [OF assms(2)])
  then have "set ns = set_mset (held_nodes s)" by (metis set_mset_mset)
  then have "\<forall>n \<in> set ns. int64 (NID n)" using ints_ok_held [OF assms(3)] by simp
  then have dec: "unmarshal_nodes (Json (JArr (map (json_NodeConsoleInfo \<circ> toNodeConsoleInfo) ns))) = (ns, False)"
    by (simp add: unmarshal_nodes_def dec_slice_def dec_heartbeat_node map_idI)
  have "trace s' ! length (trace s) = HttpCall (heartbeat_request E loc s)"
    using heartbeat_trace [OF assms(1) loc] assms(4) by (auto simp: http_events_def nth_append)
  moreover have "json_heartbeat (heartBeatPayload E loc s) =
      JObj [(''CurrNodes'', JArr (map (json_NodeConsoleInfo \<circ> toNodeConsoleInfo) ns)), (''PodLocation'', JStr (Xname loc))]"
    by (simp add: json_heartbeat_def heartBeatPayload_def ns_def)
  ultimately show ?thesis using dec ms by (simp add: heartbeat_request_def)
qed



section \<open>Data exchanged\<close>

text \<open>
  What is sent to console-data on a release decodes to the nodes that were released.
\<close>

lemma release_payload_roundtrip:
  assumes "\<forall>n \<in> set ns. int64 (NID n)"
  shows "map_option unmarshal_nodes (rq_body (release_request ns s)) = Some (ns, False)"
  using unmarshal_json_nodes [OF assms] by (simp add: release_request_def)

text \<open>
  C30: waiting for the pod's location ends with the first answer without error, and takes
  exactly that answer; nothing else of the state changes.
\<close>

theorem setPodLocation_first_answer:
  assumes "snd (location_answer (manager_service om E) (location_attempt (manager_service om E) n s)) = None"
    and "\<forall>m < n. snd (location_answer (manager_service om E) (location_attempt (manager_service om E) m s)) \<noteq> None"
  shows "\<exists>t. setPodLocation (manager_service om E) s =
    Some (s\<lparr>trace := trace s @ t,
      podLocData := fst (location_answer (manager_service om E) (location_attempt (manager_service om E) n s))\<rparr>)"
  by (rule manager.setPodLocation_returns [OF assms])

theorem setPodLocation_first_answer_witness:
  "\<exists>t. setPodLocation (manager_service NewOperatorService (sample_env two_pods)) (sample_pod [] [] [] Running) =
     Some ((sample_pod [] [] [] Running)\<lparr>trace := t, podLocData := Some zero_PodLocation\<rparr>)"
proof -
  let ?svc = "manager_service NewOperatorService (sample_env two_pods)" and ?s = "sample_pod [] [] [] Running"
  have "location_answer ?svc (location_attempt ?svc 0 ?s) = (Some zero_PodLocation, None)" by code_simp
  then show ?thesis using setPodLocation_first_answer [of NewOperatorService "sample_env two_pods" 0 ?s] by auto
qed

section \<open>Findings\<close>

text \<open>
  C38: a \<^verbatim>\<open>null\<close> answer of the operator is taken for success and crashes the watcher.
\<close>

theorem null_targets_panic:
  assumes "fst (getNumActiveNodePods E s) = (numPods, None)"
    and "net E (trace (snd (getNumActiveNodePods E s)))
      (Request ''GET'' (operatorAddrBase om @ ''/currentTargets'') [] None) = Response 200 (Json JNull)"
  shows "calcChangeInNodes E (manager_service om E) s = Panic NilDeref"
proof -
  have "fst (getCurrentTargets om E (snd (getNumActiveNodePods E s))) = (None, None)"
    using assms(2) by (simp add: getCurrentTargets_def client_eqs http_result_def operator_reply_def dec_pointer_def)
  from calc_null [OF assms(1) this] show ?thesis .
qed

theorem null_targets_panic_witness:
  "calcChangeInNodes (sample_env null_targets) (manager_service NewOperatorService (sample_env null_targets))
     (sample_pod [] [] [] Running) = Panic NilDeref"
proof -
  have "fst (getNumActiveNodePods (sample_env null_targets) (sample_pod [] [] [] Running)) = (2, None)" by code_simp
  then show ?thesis
    by (rule null_targets_panic) (simp add: sample_env_def null_targets_def NewOperatorService_def)
qed

text \<open>
  C39: the Mountain change is computed from the Mountain map alone.  A pod that holds any
  number of Paradise nodes, which count as Mountain nodes everywhere else, still asks for its
  full share.
\<close>

theorem paradise_nodes_ignored:
  assumes "fst (getNumActiveNodePods E s) = (numPods, None)"
    and "fst (getCurrentTargets om E (snd (getNumActiveNodePods E s))) = (Some t, None)"
    and "0 \<le> TotalMtnNodes t" and "TotalMtnNodes t < 2 ^ 40" and "currentMtnNodes s = []"
  shows "\<exists>dr s1. calcChangeInNodes E (manager_service om E) s =
    Ok ((TotalMtnNodes t div max numPods 1 + 1, dr), s1)"
proof -
  have ideal: "ideal_num (TotalMtnNodes t) numPods = TotalMtnNodes t div max numPods 1 + 1"
    "0 < TotalMtnNodes t div max numPods 1 + 1" "TotalMtnNodes t div max numPods 1 + 1 \<le> 2 ^ 40"
    using ideal_num_eq [OF assms(3,4), of numPods] by simp_all
  show ?thesis
    using calc_answered [OF assms(1,2)] ideal_delta_eq [of 0, OF _ _ _ ideal(3)] ideal(1,2) assms(5) by auto
qed

theorem paradise_nodes_ignored_witness:
  "\<exists>dr s1. calcChangeInNodes (sample_env two_pods) (manager_service NewOperatorService (sample_env two_pods))
     (sample_pod [] [] [''x1'', ''x2'', ''x3''] Running) = Ok ((1, dr), s1)"
proof -
  let ?E = "sample_env two_pods" and ?s = "sample_pod [] [] [''x1'', ''x2'', ''x3''] Running"
  let ?t = "zero_CurrentTargets\<lparr>TotalRvrNodes := 10\<rparr>"
  have 1: "fst (getNumActiveNodePods ?E ?s) = (2, None)" by code_simp
  have 2: "fst (getCurrentTargets NewOperatorService ?E (snd (getNumActiveNodePods ?E ?s))) = (Some ?t, None)" by code_simp
  show ?thesis
    using paradise_nodes_ignored [OF 1 2] by (simp add: zero_CurrentTargets_def sample_pod_def sample_map_def)
qed

end
