(* ===== verification/Conman_Properties.thy ===== *)
theory Conman_Properties
  imports Sample_World
begin

text \<open>
  The properties of the configuration of conman: what is written to its file and to the log,
  when the file is left alone, the credentials and the key that are fetched for it, and the
  monitor that watches over them.
\<close>

section \<open>Shared lemmas\<close>


text \<open>A word that begins with a byte not seen before is found where it stands.\<close>

lemma strings_Index_first: "c \<notin> set pre \<Longrightarrow> strings_Index (pre @ (c # cs) @ post) (c # cs) = Some (length pre)"
  by (induction pre) auto

lemma strings_Index_take:
  assumes "sub = c # cs" and "c \<notin> set pre" and "length pre + length sub \<le> n"
  shows "strings_Index (take n (pre @ sub @ post)) sub = Some (length pre)"
proof -
  have "take n (pre @ sub @ post) = pre @ sub @ take (n - length pre - length sub) post"
    using assms(3) by simp
  then show ?thesis using strings_Index_first [OF assms(2)] assms(1) by simp
qed

lemma flag_length: "length ''UPDATE_CONFIG='' = 14"
  by simp

lemma willUpdateConfig_flag:
  assumes "read_data E baseConfFile s = Some (pre @ ''UPDATE_CONFIG='' @ rest)"
    and "pre \<noteq> []" and "CHR ''U'' \<notin> set pre" and "length pre \<le> 36" and "36 \<le> length pre + length rest"
  shows "willUpdateConfig E s =
    (if length pre < 36 then Ok (hd rest \<noteq> CHR ''F'' \<and> hd rest \<noteq> CHR ''f'',
       if os_fails E (trace s) ''Seek'' baseConfFile then 50 else 0)
     else Panic IndexRange)"
proof -
  define ss where "ss = ''UPDATE_CONFIG=''"
  let ?c = "pre @ ss @ rest"
  have ss: "length ss = 14" "ss = CHR ''U'' # tl ss" by (simp_all add: ss_def)
  have pos: "strings_Index (take 50 ?c) ss = Some (length pre)"
    using assms(3,4) ss by (intro strings_Index_take) auto
  have val: "byte_at (length pre + 14) (take 50 ?c) = (if length pre < 36 then Ok (hd rest) else Panic IndexRange)"
    using ss(1) assms(4,5) by (cases rest) (auto simp: byte_at_def nth_append)
  have "\<not> length ?c < 50" using ss(1) assms(4,5) by simp
  moreover have "read_data E baseConfFile s = Some ?c" using assms(1) by (simp only: ss_def)
  ultimately show ?thesis
    unfolding willUpdateConfig_def Let_def ss_def [symmetric] using pos val assms(2) by (simp add: ss(1))
qed

section \<open>The configuration file\<close>






text \<open>
  C26: the first flag within the first fifty bytes of the base file decides: with \<^verbatim>\<open>F\<close> or
  \<^verbatim>\<open>f\<close> an unforced update changes nothing at all, with any other value the file is
  rewritten from the start.
\<close>

theorem update_flag_decides:
  assumes "files s baseConfFile = Some (RegFile m (pre @ ''UPDATE_CONFIG='' @ v # rest))"
    and "pre \<noteq> []" and "CHR ''U'' \<notin> set pre" and "length pre < 36" and "35 \<le> length pre + length rest"
    and "\<forall>op. \<not> os_fails E (trace s) op baseConfFile"
  shows "updateConfigFile E False s = (if v \<in> {CHR ''F'', CHR ''f''} then Ok s else write_config E 0 s)"
proof -
  have "read_data E baseConfFile s = Some (pre @ ''UPDATE_CONFIG='' @ v # rest)"
    using assms(1,6) unfolding read_data_def by simp
  from willUpdateConfig_flag [OF this assms(2,3)]
  have "willUpdateConfig E s = Ok (v \<noteq> CHR ''F'' \<and> v \<noteq> CHR ''f'', 0)"
    using assms(4-6) by simp
  then show ?thesis using assms(1,6) unfolding updateConfigFile_def by simp
qed

theorem update_flag_decides_witness:
  "updateConfigFile creds_env False (conf_pod (''# '' @ ''UPDATE_CONFIG='' @ CHR ''F'' # replicate 40 CHR ''x'') [''x1''] NoCommand) =
     Ok (conf_pod (''# '' @ ''UPDATE_CONFIG='' @ CHR ''F'' # replicate 40 CHR ''x'') [''x1''] NoCommand)"
  using update_flag_decides [of "conf_pod (''# '' @ ''UPDATE_CONFIG='' @ CHR ''F'' # replicate 40 CHR ''x'') [''x1''] NoCommand"
      "0x1A4" "''# ''" "CHR ''F''" "replicate 40 CHR ''x''" creds_env]
  by (simp add: conf_pod_def creds_env_def sample_env_def)

text \<open>
  A flag that ends with the fiftieth byte makes the update read past the buffer and crash.
\<close>

lemma update_flag_at_end_panics:
  assumes "files s baseConfFile = Some (RegFile m (pre @ ''UPDATE_CONFIG='' @ rest))"
    and "length pre = 36" and "CHR ''U'' \<notin> set pre" and "\<forall>op. \<not> os_fails E (trace s) op baseConfFile"
  shows "updateConfigFile E False s = Panic IndexRange"
proof -
  have "read_data E baseConfFile s = Some (pre @ ''UPDATE_CONFIG='' @ rest)"
    using assms(1,4) unfolding read_data_def by simp
  from willUpdateConfig_flag [OF this _ assms(3)]
  have "willUpdateConfig E s = Panic IndexRange" using assms(2) by fastforce
  then show ?thesis using assms(1,4) unfolding updateConfigFile_def by simp
qed

section \<open>Credentials\<close>

text \<open>
  Looking up the passwords always comes to an end, and it comes back without the
  credentials of some controller only after all tries were used, each followed by a wait.
\<close>

lemma password_retries_exhausted:
  assumes "getPasswordsWithRetries E xs tries w s = Ok (pw, s')" and "\<not> found_all pw xs" and "0 < tries"
  shows "\<exists>t. trace s' = trace s @ t \<and> int (length (filter ((=) (Sleep w)) t)) = tries"
  using password_tries_found [of E xs w "nat tries" None s pw s'] assms
  by (force simp: getPasswordsWithRetries_def)









section \<open>The Mountain console key\<close>

lemma key_pod_ready:
  "\<not> debugOnly (key_pod h)" "currentMtnNodes (key_pod h) \<noteq> []" "\<not> os_fails vault_env h' op p"
  "files (key_pod h) svcAcctTokenFile = Some (RegFile 0x1A4 ''token'')"
  by (simp_all add: key_pod_def sample_pod_def sample_map_def vault_env_def sample_env_def)

lemma vault_login:
  "\<exists>t. login_turn vault_env ''token'' (key_pod h) = Inl (''KEY'', (key_pod h)\<lparr>trace := t\<rparr>)"
  by (simp add: login_turn_def client_eqs http_result_def gjson_string_def vault_env_def sample_env_def) blast

lemma vault_export: "\<exists>r t. vaultExportPrivateKey vault_env tok s = ((''KEY'', r, 200, None), s\<lparr>trace := t\<rparr>)"
  by (simp add: vaultExportPrivateKey_def client_eqs http_result_def gjson_string_def vault_env_def sample_env_def Let_def) blast

lemma vault_new_key: "\<exists>s'. key_turn vault_env ''KEY'' (False, (key_pod None)\<lparr>trace := t\<rparr>) = Inl (True, s')"
  using vault_export [of "''KEY''" "(key_pod None)\<lparr>trace := t\<rparr>"]
  by (auto simp: key_turn_def key_pod_def sample_pod_def vault_env_def sample_env_def)

lemma vault_returns:
  assumes "login_turn vault_env ''token'' (key_pod h) = Inl (''KEY'', s1)" and "key_turn vault_env ''KEY'' (False, s1) = Inl (b, s')"
  shows "ensureMountainConsoleKeysPresent vault_env (key_pod h) = Some (b, s')"
  by (rule ensure_returns [of "key_pod h" vault_env "0x1A4" "''token''" 0 "key_pod h" "''KEY''" s1 0 "(False, s1)"])
    (simp_all add: assms key_pod_ready)

text \<open>
  C24: as long as the key file can be written, the hash that is remembered stays the hash of
  what is in the file.
\<close>

theorem key_file_synced:
  assumes "ensureMountainConsoleKeysPresent E s = Some (b, s')" and "key_synced s"
    and "\<forall>h. \<not> os_fails E h ''WriteFile'' mountainConsoleKey" and "\<not> is_directory (files s mountainConsoleKey)"
  shows "key_synced s'"
  using ensure_synced [OF assms(1,2) _ assms(4)] assms(3) by blast

theorem key_file_synced_witness:
  "\<exists>s'. ensureMountainConsoleKeysPresent vault_env (key_pod None) = Some (True, s') \<and> key_synced s'"
proof -
  obtain s1 s' where "login_turn vault_env ''token'' (key_pod None) = Inl (''KEY'', s1)"
    and "key_turn vault_env ''KEY'' (False, s1) = Inl (True, s')"
    using vault_login vault_new_key by blast
  then have r: "ensureMountainConsoleKeysPresent vault_env (key_pod None) = Some (True, s')" by (rule vault_returns)
  moreover have "key_synced s'"
    by (rule key_file_synced [OF r]) (simp_all add: key_synced_def key_pod_def sample_pod_def vault_env_def sample_env_def
        mountainConsoleKey_def svcAcctTokenFile_def)
  ultimately show ?thesis by (intro exI conjI)
qed

text \<open>
  When the check reports no new key, neither the key file nor the remembered hash has
  changed.
\<close>

lemma key_unchanged_no_write:
  assumes "checkIfMountainConsoleKeysChanged E s = Some (False, s')"
  shows "files s' = files s \<and> previousPrivateKeyHash s' = previousPrivateKeyHash s"
  using ensure_false [of E s s'] assms by (simp add: checkIfMountainConsoleKeysChanged_def)



text \<open>While Vault answers no login with status 200, the wait for the key does not end.\<close>

lemma vault_down_waits:
  assumes "\<not> debugOnly s" and "currentMtnNodes s \<noteq> []"
    and "\<not> os_fails E (trace s) ''ReadFile'' svcAcctTokenFile" and "files s svcAcctTokenFile = Some (RegFile m tok)"
    and "\<forall>h. fst (snd (http_result (net E h (vault_login E tok)))) \<noteq> 200"
  shows "checkIfMountainConsoleKeysChanged E s = None" and "checkForChanges E s = None"
proof -
  have "retry (login_turn E tok) s = None"
    by (rule retry_never [where I = "\<lambda>_. True"]) (simp_all add: login_refused assms(5))
  then show "checkIfMountainConsoleKeysChanged E s = None"
    using assms(1-4) by (simp add: checkIfMountainConsoleKeysChanged_def ensureMountainConsoleKeysPresent_def fetch_key_def)
  then show "checkForChanges E s = None" by (simp add: checkForChanges_def)
qed

text \<open>
  C40: a key that could not be written is remembered as written.  If Vault gives the same key
  again, the function returns without a key file.
\<close>

theorem failed_key_write_forgotten:
  assumes "vaultExportPrivateKey E tok s = ((k, r, 200, e), s1)" and "previousPrivateKeyHash s \<noteq> Some (hashString k)"
    and "os_fails E (trace s1) ''WriteFile'' mountainConsoleKey"
    and "vaultExportPrivateKey E tok (emit (OsCall ''WriteFile'' mountainConsoleKey) (s1\<lparr>previousPrivateKeyHash := Some (hashString k)\<rparr>)) =
      ((k, r', 200, e'), s2)"
  shows "retry (key_turn E tok) (False, s) = Some (True, s2) \<and> files s2 = files s"
proof -
  let ?s = "emit (OsCall ''WriteFile'' mountainConsoleKey) (s1\<lparr>previousPrivateKeyHash := Some (hashString k)\<rparr>)"
  obtain t where s1: "s1 = s\<lparr>trace := trace s @ t\<rparr>" using vaultExportPrivateKey_state [of E tok s] assms(1) by auto
  obtain u where s2: "s2 = ?s\<lparr>trace := trace ?s @ u\<rparr>" using vaultExportPrivateKey_state [of E tok ?s] assms(4) by auto
  have 1: "key_turn E tok (False, s) = Inr (True, ?s)" using assms(1-3) s1 by (simp add: key_turn_def)
  have "previousPrivateKeyHash s2 = Some (hashString k)" by (simp add: s2 emit_def)
  then have 2: "key_turn E tok (True, ?s) = Inl (True, s2)" using assms(4) by (simp add: key_turn_def)
  have "retry (key_turn E tok) (True, ?s) = Some (True, s2)" by (subst retry_unfold) (simp add: 2)
  then have "retry (key_turn E tok) (False, s) = Some (True, s2)" by (subst retry_unfold) (simp add: 1)
  moreover have "files s2 = files s" by (simp add: s2 s1)
  ultimately show ?thesis by blast
qed

theorem failed_key_write_forgotten_witness:
  "\<exists>s2. retry (key_turn (vault_env\<lparr>os_fails := \<lambda>_ _ _. True\<rparr>) ''KEY'') (False, key_pod None) = Some (True, s2) \<and>
     files s2 mountainConsoleKey = None"
proof -
  let ?E = "vault_env\<lparr>os_fails := \<lambda>_ _ _. True\<rparr>"
  have v: "\<exists>r e s1. vaultExportPrivateKey ?E tok s = ((''KEY'', r, 200, e), s1)" for tok s
    by (simp add: vaultExportPrivateKey_def client_eqs http_result_def gjson_string_def vault_env_def sample_env_def Let_def)
  then obtain r e s1 where 1: "vaultExportPrivateKey ?E ''KEY'' (key_pod None) = ((''KEY'', r, 200, e), s1)" by blast
  obtain r' e' s2 where 2: "vaultExportPrivateKey ?E ''KEY''
      (emit (OsCall ''WriteFile'' mountainConsoleKey) (s1\<lparr>previousPrivateKeyHash := Some (hashString ''KEY'')\<rparr>)) = ((''KEY'', r', 200, e'), s2)"
    using v by blast
  have "retry (key_turn ?E ''KEY'') (False, key_pod None) = Some (True, s2) \<and> files s2 = files (key_pod None)"
    by (rule failed_key_write_forgotten [OF 1 _ _ 2]) (simp_all add: key_pod_def sample_pod_def)
  then show ?thesis by (intro exI [of _ s2]) (simp add: key_pod_def mountainConsoleKey_def svcAcctTokenFile_def)
qed

text \<open>
  An answer with status 200 that has no key in it is an error of the export, but the
  caller looks at the status only and writes an empty key file.
\<close>

lemma empty_key_written:
  assumes "net E (trace s) (Request ''GET'' (vault_base E @ ''/transit/export/signing-key/'' @ vaultBmcKeyName E)
      [(''X-Vault-Token'', tok)] None) = Response 200 b"
    and "gjson_Get E b ''data.keys.1'' = []" and "previousPrivateKeyHash s \<noteq> Some (hashString [])"
    and "\<forall>h. \<not> os_fails E h ''WriteFile'' mountainConsoleKey" and "\<not> is_directory (files s mountainConsoleKey)"
  shows "\<exists>s' m. key_turn E tok (False, s) = Inl (True, s') \<and> files s' mountainConsoleKey = Some (RegFile m [])"
proof -
  obtain t where "vaultExportPrivateKey E tok s = (([], Some b, 200, Some (ErrMissing ''data.keys.1'')), s\<lparr>trace := trace s @ t\<rparr>)"
    using assms(1,2) by (simp add: vaultExportPrivateKey_def client_eqs http_result_def gjson_string_def Let_def)
  then show ?thesis using assms(3-5) by (simp add: key_turn_def Let_def write_file_def)
qed

section \<open>Permissions\<close>



end
