(* ===== verification/Log_Properties.thy ===== *)
theory Log_Properties
  imports Sample_World
begin

text \<open>
  The properties of the logs (rotation, its configuration and its state file, the copies into
  the aggregation log), of the zombie reaper, of the health endpoints and of the settings.
\<close>

section \<open>The configuration of logrotate\<close>



section \<open>The state file of logrotate\<close>



text \<open>
  C22: a rotation is acted upon once.  When the state file names each log once, reading it
  again reports no change, so neither conman is signalled nor the aggregation log restarted.
\<close>

theorem reread_reports_nothing:
  assumes "readLogRotTimestamps E st s = Ok (st', con, agg)"
    and "files s logRotStateFile = Some (RegFile m c)" and "\<not> os_fails E (trace s) ''Open'' logRotStateFile"
    and "distinct (map fst (List.map_filter (line_stamp E (conAggLogFile s)) (read_lines c)))"
  shows "readLogRotTimestamps E st' s = Ok (st', False, False)"
proof -
  have r: "stamp_lines E (conAggLogFile s) (read_lines c) (st, False, False) = Ok (st', con, agg)"
    using assms(1-3) by (simp add: readLogRotTimestamps_def)
  from settled_again [OF stamp_lines_settles [OF r assms(4)] stamp_lines_no_panic [OF r]]
  show ?thesis using assms(2,3) by (simp add: readLogRotTimestamps_def)
qed

theorem reread_reports_nothing_witness:
  "readLogRotTimestamps vault_env [] rotated_pod = Ok ([(''x1'', 1709209859)], True, False) \<and>
   readLogRotTimestamps vault_env [(''x1'', 1709209859)] rotated_pod = Ok ([(''x1'', 1709209859)], False, False)"
proof -
  let ?l = "state_line ''x1'' [2024, 2, 29, 12, 30, 59]" and ?a = "conAggLogFile rotated_pod"
  have t: "time_Date vault_env [2024, 2, 29, 12, 30, 59] = 1709209859" by code_simp
  have p: "parseTimestamp vault_env ?a ?l = Ok (''x1'', 1709209859, True, False)"
    using parse_state_line [of "''x1''" "[2024, 2, 29, 12, 30, 59]" vault_env ?a] by (simp add: int64_def t)
  have lines: "read_lines ?l = [?l]" by code_simp
  have env: "\<not> os_fails vault_env (trace rotated_pod) ''Open'' logRotStateFile" "files rotated_pod logRotStateFile = Some (RegFile 0x1A4 ?l)"
    by (simp_all add: rotated_pod_def vault_env_def sample_env_def)
  have r: "readLogRotTimestamps vault_env [] rotated_pod = Ok ([(''x1'', 1709209859)], True, False)"
    using env by (simp add: readLogRotTimestamps_def lines stamp_line_def p)
  have "map fst (List.map_filter (line_stamp vault_env ?a) (read_lines ?l)) = [''x1'']"
    by (simp add: lines line_stamp_def p map_filter_simps)
  then have "readLogRotTimestamps vault_env [(''x1'', 1709209859)] rotated_pod = Ok ([(''x1'', 1709209859)], False, False)"
    by (intro reread_reports_nothing [OF r env(2,1)]) simp
  with r show ?thesis by (rule conjI)
qed

text \<open>
  A line that ends with the name of the aggregation log, with nothing behind it but the
  end of the line, crashes the pod.
\<close>

lemma agg_state_line_panics:
  assumes "strings_Index (pre @ agg @ [newline]) filePrefix = None"
    and "strings_Index (pre @ agg @ [newline]) agg = Some (length pre)"
  shows "parseTimestamp E agg (pre @ agg @ [newline]) = Panic SliceBounds"
  using assms by (simp add: parseTimestamp_def slice_from_def)

section \<open>Health\<close>

text \<open>
  C33: a GET of the health path is answered with status 200 and the true numbers: its texts
  read back as the numbers of nodes held, Paradise nodes counted with the Mountain nodes.
\<close>

theorem health_reports_counts:
  assumes "int64 (num_mtn_pds s)" and "int64 (num_rvr s)"
  shows "\<exists>w fields m r. serve s ''/console-node/health'' ''GET'' = Some w \<and> rw_body w = [JObj fields] \<and>
    map_option fst (rw_sent w) = Some 200 \<and>
    map_of fields ''num_mtn'' = Some (JStr m) \<and> atoi m = (num_mtn_pds s, None) \<and>
    map_of fields ''num_rvr'' = Some (JStr r) \<and> atoi r = (num_rvr s, None)"
  using doHealth_get [of s] atoi_itoa [OF assms(1)] atoi_itoa [OF assms(2)]
  by (simp add: serve_def json_HealthResponse_def health_stats_def num_mtn_pds_def num_rvr_def)

theorem health_reports_counts_witness:
  "\<exists>w fields r. serve (sample_pod [''x1''] [] [] Running) ''/console-node/health'' ''GET'' = Some w \<and>
     rw_body w = [JObj fields] \<and> map_of fields ''num_rvr'' = Some (JStr r) \<and> atoi r = (1, None)"
proof -
  let ?s = "sample_pod [''x1''] [] [] Running"
  have n: "num_mtn_pds ?s = 0" "num_rvr ?s = 1" by (simp_all add: num_mtn_pds_def num_rvr_def sample_pod_def sample_map_def)
  have "int64 (num_mtn_pds ?s)" "int64 (num_rvr ?s)" by (simp_all add: n int64_def)
  from health_reports_counts [OF this] show ?thesis unfolding n by blast
qed

text \<open>A request reaches a handler exactly on the three paths; only the health path looks at the state.\<close>

lemma serve_paths:
  "serve s path meth = None \<longleftrightarrow>
     path \<notin> {''/console-node/liveness'', ''/console-node/readiness'', ''/console-node/health''}"
  "path \<noteq> ''/console-node/health'' \<Longrightarrow> serve s path meth = serve s' path meth"
  by (auto simp: serve_def)

text \<open>
  Every endpoint refuses any other method with status 405, names GET as the method
  allowed, and sends the error as JSON.
\<close>

lemma other_methods_refused:
  assumes "meth \<noteq> ''GET''"
  shows "doHealth s meth new_writer = doLiveness meth new_writer \<and> doReadiness meth new_writer = doLiveness meth new_writer \<and>
    rw_sent (doLiveness meth new_writer) = Some (405, [(''Allow'', ''GET''), (''Content-Type'', ''application/json'')]) \<and>
    rw_body (doLiveness meth new_writer) = [json_ErrResponse \<lparr>err_E = 405, ErrMsg = ''('' @ meth @ '') Not Allowed''\<rparr>]"
  using assms by (simp add: doHealth_def doLiveness_def doReadiness_def method_not_allowed_def sendJSONError_def
      SendResponseJSON_def Encode_def WriteHeader_def Header_Set_def new_writer_def)

text \<open>
  The health answer goes out without the header that says it is JSON, because the status
  is written first.
\<close>

lemma health_content_type_lost:
  "rw_sent (doHealth s ''GET'' new_writer) = Some (200, []) \<and>
   map_of (rw_header (doHealth s ''GET'' new_writer)) ''Content-Type'' = Some ''application/json''"
  by (simp add: doHealth_def Encode_def Header_Set_def WriteHeader_def new_writer_def Let_def)

section \<open>Settings\<close>

lemma readSingleEnvVarInt_range:
  "lo \<le> cur \<Longrightarrow> cur \<le> hi \<Longrightarrow> readSingleEnvVarInt E v cur lo hi \<in> {lo..hi}"
  unfolding readSingleEnvVarInt_cases by auto

text \<open>
  C32: whatever the environment says, the intervals and the limits with which the pod starts
  are in their ranges.
\<close>

theorem settings_in_range:
  "let s = read_settings E dbg (initial_vars fs) in
     heartbeatIntervalSecs s \<in> {5..300} \<and> newNodeLookupSec s \<in> {10..600} \<and>
     maxAcquireMtn s \<in> {5..2000} \<and> maxAcquireRvr s \<in> {5..4000}"
  unfolding Let_def read_settings_def initial_vars_def
  by (intro conjI) (simp_all add: readSingleEnvVarInt_range del: atLeastAtMost_iff)

lemma and_masks: "p AND k = 0 \<Longrightarrow> (p AND q AND r) AND k = (0 :: 32 word)"
  by (auto simp: bit_eq_iff bit_and_iff)

lemma mkdir_mode_masks: "perm AND k = 0 \<Longrightarrow> mkdir_mode E perm AND k = 0"
  unfolding mkdir_mode_def by (rule and_masks)

text \<open>
  The directory of the console logs is created with the decimal number 666 as its mode,
  octal 1232: whatever the umask, its owner can neither list nor enter it.
\<close>

lemma log_dir_unusable:
  assumes "ensureDirPresent E ''/var/log/conman'' 666 s = (True, s')" and "files s ''/var/log/conman'' = None"
  shows "\<exists>m. files s' ''/var/log/conman'' = Some (Directory m) \<and> \<not> owner_read m \<and> \<not> owner_exec m"
proof -
  have "''/var/log/conman'' \<in> set (dir_chain ''/var/log/conman'')" by (rule dir_chain_self) simp
  then have "files s' ''/var/log/conman'' = Some (Directory (mkdir_mode E 666))"
    using assms fold_add_dir_new [of "files s"] by (auto simp: ensureDirPresent_def MkdirAll_def split: if_splits)
  moreover have "\<not> owner_read (mkdir_mode E 666)" "\<not> owner_exec (mkdir_mode E 666)"
    by (simp_all add: owner_read_def owner_exec_def mkdir_mode_masks)
  ultimately show ?thesis by blast
qed

section \<open>Lines\<close>

text \<open>
  What conman prints is logged line by line, and what is logged is what it printed up to
  the last end of a line.
\<close>

lemma pipe_output_lines:
  "\<exists>rest. output = concat (logPipeOutput output) @ rest \<and> newline \<notin> set rest \<and>
     (\<forall>l \<in> set (logPipeOutput output). \<exists>u. l = u @ [newline] \<and> newline \<notin> set u)"
proof -
  have "newline \<notin> set acc \<Longrightarrow> \<exists>rest. rev acc @ cs = concat (read_lines_acc acc cs) @ rest \<and> newline \<notin> set rest \<and>
      (\<forall>l \<in> set (read_lines_acc acc cs). \<exists>u. l = u @ [newline] \<and> newline \<notin> set u)" for acc cs
  proof (induction acc cs rule: read_lines_acc.induct)
    case (2 acc c cs)
    show ?case
    proof (cases "c = newline")
      case True
      then obtain rest where "cs = concat (read_lines_acc [] cs) @ rest" "newline \<notin> set rest"
        "\<forall>l \<in> set (read_lines_acc [] cs). \<exists>u. l = u @ [newline] \<and> newline \<notin> set u"
        using 2(1) by auto
      then show ?thesis using True 2(3) by (intro exI [of _ rest] conjI) simp_all
    next
      case False
      then show ?thesis using 2(2,3) by simp
    qed
  qed simp
  from this [of "[]" "output"] show ?thesis by (simp add: logPipeOutput_def read_lines_def)
qed

section \<open>Consoles that are not tailed again\<close>

lemma killTails_pass_tails [simp]: "tailThreads (snd (killTails_pass E s)) = tailThreads s"
proof -
  have "tailThreads (fold (\<lambda>k s. cancel (the (map_of (tailThreads s) k)) k s) ks x) = tailThreads x" for ks and x :: "'a agg_vars_scheme"
    by (induction ks arbitrary: x) (simp_all add: cancel_def emit_def)
  then show ?thesis by (simp add: killTails_pass_def)
qed

text \<open>
  A pass of \<^verbatim>\<open>killTails\<close> that finds its file cancels every tail and keeps the entries, and a tail
  that could not be started keeps its entry too.  The next update of the configuration takes
  the consoles for tailed and does not start them again: they stay out of the aggregation log
  until their node is given up.
\<close>

lemma killed_tails_not_restarted:
  assumes "gm_has x (tailThreads s)"
  shows "aggregateFile x (snd (killTails_pass E s)) = (False, snd (killTails_pass E s))"
    and "watch_step (c, x) (TailFile False) s = Ok s' \<Longrightarrow> aggregateFile x s' = (False, s')"
  using assms by (auto simp: aggregateFile_def watch_step_def)

section \<open>Debug logs\<close>

text \<open>
  A respun test log: if the console log was rotated away it is created again, and after
  \<open>k\<close> turns it has \<open>k\<close> blocks of ten lines, numbered without a gap; otherwise the goroutine
  ends at once.
\<close>

lemma test_log_respun:
  assumes "\<not> os_fails E (trace s) ''Stat'' (console_log x)" and "\<not> os_fails E (trace s) ''OpenFile'' (console_log x)"
    and "10 * int k < 2 ^ 63"
  shows "if files s (console_log x) \<noteq> None then createTestLogFile_open E x True s = (None, s)
    else \<exists>w s1. createTestLogFile_open E x True s = (Some w, s1) \<and> files s1 (console_log x) \<noteq> None \<and>
      tl_lines (fst (test_turns k (w, s1))) = concat (map (test_block x) [0..<k])"
proof (cases "files s (console_log x) = None")
  case True
  let ?w = "\<lparr>tl_xname = x, tl_file = Some (console_log x), tl_cnt = 0, tl_lines = []\<rparr>"
  obtain s1 where 1: "open_trunc E (console_log x) 0x180 s = Some s1" "files s1 (console_log x) \<noteq> None"
    using True assms(2) by (simp add: open_trunc_def)
  then have "createTestLogFile_open E x True s = (Some ?w, s1)" using True by (simp add: createTestLogFile_open_def Let_def)
  moreover have "tl_lines (fst (test_turns k (?w, s1))) = concat (map (test_block x) [0..<k])"
    using test_turns_eq [of ?w "console_log x" k s1] assms(3) by auto
  ultimately show ?thesis using True 1(2) by auto
qed (use assms(1) in \<open>simp add: createTestLogFile_open_def Let_def\<close>)

end
