(* ===== verification/Spec2Isabelle.thy ===== *)
theory Spec2Isabelle
  imports Node_Properties Conman_Properties Log_Properties
begin

text \<open>
  A verification of console-node, the service that connects the serial consoles of a system
  to log files (\<^verbatim>\<open>src/src/console_node\<close>).  Every pod of the service holds a share of the
  nodes: River nodes reached by IPMI, Mountain nodes reached by ssh with a key, and Paradise
  nodes reached by ssh with a password.  It asks console-data for nodes, gives back what
  exceeds its share, reports what it holds in a heartbeat, writes the configuration of
  conman, runs conman, copies the console logs into an aggregation log, rotates the logs and
  watches the credentials.

  \<^bold>\<open>The world.\<close>  \<open>Go_Prelude\<close> and \<open>Go_Json\<close> hold what is used of Go and of its
  library: 64-bit arithmetic, the floating-point comparison, strings, \<^verbatim>\<open>Atoi\<close>,
  decoding of JSON, panics as values of the type \<open>outcome\<close>, maps as association lists,
  loops that need not end as partial functions.  \<open>Pod_State\<close> holds the surroundings: the
  record \<open>env\<close> has what the network, the operating system, the clock, the environment and
  the order of a \<^verbatim>\<open>range\<close> statement answer, as functions of the trace of all that happened
  before, so every theorem holds for surroundings that behave in any way over time.  The
  globals of the program are one record that each theory extends by those of its source file.

  \<^bold>\<open>The components\<close>, in the order in which they build on each other:
  \<^item> \<open>Main_Utils\<close>: \<^verbatim>\<open>ensureDirPresent\<close> and \<^verbatim>\<open>readSingleEnvVarInt\<close> of \<^verbatim>\<open>consoleNodeMain.go\<close>;
  \<^item> \<open>Http_Utils\<close>: \<^verbatim>\<open>httpUtils.go\<close>, with the response writer of \<^verbatim>\<open>net/http\<close>;
  \<^item> \<open>Log_Aggregation\<close>: \<^verbatim>\<open>logAggregation.go\<close>, with the goroutines that tail the consoles
    and their contexts;
  \<^item> \<open>Node_Info\<close>, \<open>Node_Pools\<close>, \<open>Node_Watch\<close>: \<^verbatim>\<open>nodes.go\<close>, the node record and its JSON
    forms, the three maps and giving nodes back, and a round of the watcher;
  \<^item> \<open>Console_Data\<close> and \<open>Heartbeat\<close>: \<^verbatim>\<open>data.go\<close>;
  \<^item> \<open>Operator_Service\<close>: \<^verbatim>\<open>operator.go\<close> and \<^verbatim>\<open>setPodLocation\<close>;
  \<^item> \<open>Conman_Process\<close> and \<open>Conman_Config\<close>: \<^verbatim>\<open>conman.go\<close>, the process and its signals,
    and the configuration file;
  \<^item> \<open>Sha256\<close> and \<open>Creds\<close>: \<^verbatim>\<open>creds.go\<close>, the passwords and the Mountain key;
  \<^item> \<open>Monitor\<close>: \<^verbatim>\<open>monitor.go\<close>;
  \<^item> \<open>Log_Rotate_Conf\<close> and \<open>Log_Rotation\<close>: \<^verbatim>\<open>logRotation.go\<close>;
  \<^item> \<open>Zombies\<close>: \<^verbatim>\<open>zombies.go\<close>; \<open>Health\<close>: \<^verbatim>\<open>health.go\<close> and the paths its handlers are
    registered for; \<open>Debug_Logs\<close>: \<^verbatim>\<open>createTestLogFile\<close> of \<^verbatim>\<open>data.go\<close>;
  \<^item> \<open>Pod_Main\<close>: \<^verbatim>\<open>setPodName\<close>, the start and the end of \<^verbatim>\<open>main\<close>.

  \<^bold>\<open>The interfaces.\<close>  \<open>operator_service\<close> states what a user of the console-operator client
  relies on; \<open>node_watcher\<close> extends it with what a round of the watcher does for any such
  service; both are interpreted on \<open>manager_service\<close>, the client of the source.
  \<open>node_pool\<close> is what giving nodes back relies on, interpreted on each of the three maps.
  \<open>step_invariant\<close> and \<open>simulation\<close> are what an invariant and a refinement of the
  interleaved system are, interpreted on the step relation.

  \<^bold>\<open>The whole.\<close>  \<open>Threads\<close> interleaves the goroutines that \<^verbatim>\<open>main\<close> starts, with those that
  they start in turn (a tail per console, a reaper per zombie, a writer per test log).  A step
  is what one of them does while it holds \<^verbatim>\<open>currNodesMutex\<close>, or one access to the globals
  without it, so that the races the mutex does not prevent are there: reading the shutdown
  flag before the lock, and the time between the creation of the conman command and its
  start.  \<^verbatim>\<open>main\<close> itself goes through the phases of the linear order \<open>main_pc\<close>; signals arrive
  at any time and find it registered for them or not.  A goroutine that waits for Vault
  without end keeps the mutex.  \<open>Thread_Invariant\<close> has what every interleaving keeps.
  \<open>Ownership_Spec\<close> is the abstract machine of the nodes a pod holds, which the goroutines
  refine.  \<open>Sample_World\<close> has concrete surroundings and states for the witnesses.

  \<^bold>\<open>What is shown.\<close>  \<open>Node_Properties\<close>: giving back is exact and loses nothing, no pod runs
  away with nodes and every pod gets its share, a change of the nodes reconfigures conman and
  logrotate, a heartbeat gives up exactly what it is told to.
  \<open>Conman_Properties\<close>: the file has one line per held node, no password reaches the log, the
  credentials and the key are fetched, compared and kept as they should be, permissions are
  repaired.  \<open>Log_Properties\<close>: the configuration and the state file of logrotate, the health
  endpoints, the ranges of the settings, the test logs.  This theory: the invariant of the
  interleaved system, the width of its numbers, the refinement, that a heartbeat reports
  exactly what is held, that a shutdown completes and what holds after it, the reaper, and
  what goes wrong between the goroutines.  Among the properties are some that show where the
  code does not do what it means to: the Paradise nodes missing from a count, a null answer
  that crashes the watcher, a key file that is missing, two races, a signal that comes before
  it is registered, and a pod that stands still while Vault is down; further such lemmas stand
  beside them.

  \<^bold>\<open>Bounds.\<close>  No loop of the model has fuel.  Loops over data are structural; the release of
  Mountain and Paradise nodes has a termination proof; the waits for the operator and for
  Vault are partial functions, and it is shown under which answers they end.  Numbers of
  nodes are assumed below 2 to the 40th where the floating-point comparison is concerned.

  \<^bold>\<open>Not modelled.\<close>  The server of \<^verbatim>\<open>net/http\<close> that calls the handlers, the text of log
  messages other than those written beside the configuration file, code that is commented out
  (\<^verbatim>\<open>debugNewNodes\<close>, \<^verbatim>\<open>createTestNI\<close>, \<^verbatim>\<open>hashFile\<close>), and everything outside
  \<^verbatim>\<open>src/src/console_node\<close>, which has no Go code of the service.  Vault, the credential store, gjson, the
  tail library, ps, logrotate and conmand are third-party code: their answers are parameters.
\<close>

section \<open>The goroutines together\<close>

lemma sample_started: "fresh_vars v \<Longrightarrow> started (launch v)"
  by (simp add: started_def launch_def)

lemma fresh_sample [simp]: "fresh_vars (sample_pod [] [] [] NoCommand)"
  by (simp add: fresh_vars_def sample_pod_def sample_map_def)

lemma run_reachable: "fresh_vars v \<Longrightarrow> run E as (launch v) = Some S \<Longrightarrow> reachable E S"
  unfolding reachable_def using sample_started run_steps by blast

text \<open>A run of the goroutines, and what a projection of its final state is.\<close>

lemma run_projection:
  assumes "map_option f (run E as (launch v)) = Some y" and "fresh_vars v"
  shows "\<exists>S. reachable E S \<and> f S = y"
  using map_option_Some [OF assms(1)] run_reachable [OF assms(2)] by blast

text \<open>
  C1: however the goroutines are interleaved after \<^verbatim>\<open>main\<close> has started them, and whatever
  the services, the operating system and Vault answer: the three maps have distinct keys, each
  the name of a node of the right class, only nodes that are held are tailed, by one live
  goroutine each, and \<^verbatim>\<open>command\<close> is what the position of \<^verbatim>\<open>runConman\<close> says.
\<close>

theorem system_invariant:
  assumes "main_start E dbg (initial_vars fs) = Some v" and "(step E)\<^sup>*\<^sup>* (launch v) S"
  shows "pools_ok (vars S) \<and> gm_keys (tailThreads (vars S)) \<subseteq> held (vars S) \<and> tails_ok (vars S) \<and>
    command (vars S) = command_at (cpc S) \<and> (inShutdown (vars S) \<longleftrightarrow> Stopping \<le> main_at S)"
proof -
  have "reachable E S" using launched [OF assms(1)] assms(2) by (auto simp: reachable_def)
  then show ?thesis using reachable_ok by (auto simp: system_ok_def tails_held_def)
qed

theorem system_invariant_witness:
  "\<exists>v. main_start (sample_env two_pods) False (initial_vars (\<lambda>_. None)) = Some v \<and> podID v = ''1234'' \<and>
     command (vars (launch v)) = NoCommand"
proof -
  have "map_option podID (main_start (sample_env two_pods) False (initial_vars (\<lambda>_. None))) = Some ''1234''" by code_simp
  from map_option_Some [OF this] obtain v
    where v: "main_start (sample_env two_pods) False (initial_vars (\<lambda>_. None)) = Some v" "podID v = ''1234''"
    by (elim exE conjE)
  have "command (vars (launch v)) = command_at (cpc (launch v))"
    using system_invariant [OF v(1) rtranclp.rtrancl_refl] by (elim conjE)
  then have "command (vars (launch v)) = NoCommand" by (simp add: launch_def command_at_def)
  with v show ?thesis by (intro exI conjI)
qed

text \<open>
  C4: when all nodes are released at shutdown while no round of the watcher is under way,
  then whatever the goroutines do afterwards, no node is ever held and no console tailed
  again.
\<close>

theorem shutdown_drains:
  assumes "reachable E S" and "wpc S = WIdle" and "act E StopRelease S = Some (Ok S1)" and "(step E)\<^sup>*\<^sup>* S1 S2"
  shows "held (vars S2) = {} \<and> tailThreads (vars S2) = []"
proof -
  have "drained S2"
    using drain.along [OF assms(4) stop_release_drains [OF reachable_ok [OF assms(1)] assms(3,2)]] .
  moreover from this have "tails_held (vars S2)" by (simp add: drained_def vars_ok_def)
  ultimately show ?thesis using drained_held by (auto simp: tails_held_def)
qed

theorem shutdown_drains_witness:
  "\<exists>S S1. run (sample_env grant_one) [WatchCheck, WatchRound, Listen, Signal SigTerm, StopFlag] (launch (sample_pod [] [] [] NoCommand)) = Some S \<and>
     map fst (currentRvrNodes (vars S)) = [''x9''] \<and> act (sample_env grant_one) StopRelease S = Some (Ok S1) \<and> held (vars S1) = {}"
proof -
  let ?E = "sample_env grant_one" and ?r = "launch (sample_pod [] [] [] NoCommand)"
  have "map_option (\<lambda>S. (map fst (currentRvrNodes (vars S)), wpc S, main_at S)) (run ?E [WatchCheck, WatchRound, Listen, Signal SigTerm, StopFlag] ?r) =
      Some ([''x9''], WIdle, Stopping)"
    by code_simp
  from map_option_Some [OF this] obtain S where r: "run ?E [WatchCheck, WatchRound, Listen, Signal SigTerm, StopFlag] ?r = Some S"
    and S: "(map fst (currentRvrNodes (vars S)), wpc S, main_at S) = ([''x9''], WIdle, Stopping)"
    by (elim exE conjE)
  from S have S': "map fst (currentRvrNodes (vars S)) = [''x9'']" "wpc S = WIdle" "main_at S = Stopping" by simp_all
  obtain S1 where a: "act ?E StopRelease S = Some (Ok S1)" using S'(3) by (simp add: stop_release_def)
  have "reachable ?E S" by (rule run_reachable [OF fresh_sample r])
  then have "held (vars S1) = {}"
    using shutdown_drains [OF _ S'(2) a rtranclp.rtrancl_refl] by simp
  with r S'(1) a show ?thesis by (intro exI conjI)
qed

text \<open>
  C5: the pod refines the ownership machine: however the goroutines are interleaved, what is
  held, whether a round is under way and how far the shutdown is, is a run of that machine
  from its initial state.
\<close>

theorem refines_ownership:
  assumes "main_start E dbg (initial_vars fs) = Some v" and "(step E)\<^sup>*\<^sup>* (launch v) S"
  shows "own_step\<^sup>*\<^sup>* \<lparr>owned = {}, round_open = False, phase = Starting\<rparr> (ownership_of S)"
proof -
  have st: "started (launch v)" by (rule launched [OF assms(1)])
  then have "ownership_of (launch v) = \<lparr>owned = {}, round_open = False, phase = Starting\<rparr>"
    by (simp add: ownership_of_def started_def fresh_vars_def held_def)
  then show ?thesis using own.runs_refine [OF assms(2) started_ok [OF st]] by simp
qed

theorem refines_ownership_witness:
  "\<exists>v. main_start (sample_env two_pods) False (initial_vars (\<lambda>_. None)) = Some v \<and>
     own_step\<^sup>*\<^sup>* \<lparr>owned = {}, round_open = False, phase = Starting\<rparr> (ownership_of ((launch v)\<lparr>wpc := WChecked\<rparr>))"
proof -
  have "map_option podID (main_start (sample_env two_pods) False (initial_vars (\<lambda>_. None))) = Some ''1234''" by code_simp
  from map_option_Some [OF this] obtain v
    where v: "main_start (sample_env two_pods) False (initial_vars (\<lambda>_. None)) = Some v" by (elim exE conjE)
  have "\<not> inShutdown (vars (launch v))" using launched [OF v] by (simp add: started_def fresh_vars_def)
  then have "run (sample_env two_pods) [WatchCheck] (launch v) = Some ((launch v)\<lparr>wpc := WChecked\<rparr>)"
    by (simp add: watch_check_def launch_def alive_def may_run_def needs_lock_def)
  from refines_ownership [OF v run_steps [OF this]] v show ?thesis by (intro exI conjI)
qed



text \<open>
  C7: in every reachable state a heartbeat tells console-data exactly the nodes the pod holds:
  decoding the node list of its body as console-data does gives the held nodes, each once.
\<close>

theorem heartbeat_reports_held:
  assumes "reachable E S" and "sendSingleHeartbeat E (vars S) = Ok v" and "\<forall>h req. net E h req \<noteq> NewRequestError"
  shows "\<exists>payload ns. trace v ! length (trace (vars S)) = HttpCall (Request ''POST'' (consolepod_url ''heartbeat'' (vars S))
      [(''Content-Type'', ''application/json'')] (Some (Json (JObj payload)))) \<and>
    Option.bind (map_of payload ''CurrNodes'') (\<lambda>j. Some (unmarshal_nodes (Json j))) = Some (ns, False) \<and>
    mset ns = held_nodes (vars S)"
proof -
  have "pools_ok (vars S)" "ints_ok (vars S)" using reachable_ok [OF assms(1)] by (simp_all add: system_ok_def)
  from heartbeat_body [OF assms(2) this assms(3)] show ?thesis .
qed

theorem heartbeat_reports_held_witness:
  "\<exists>S v payload ns. reachable (sample_env grant_one) S \<and> num_rvr (vars S) = 1 \<and> sendSingleHeartbeat (sample_env grant_one) (vars S) = Ok v \<and>
     trace v ! length (trace (vars S)) = HttpCall (Request ''POST'' (consolepod_url ''heartbeat'' (vars S))
       [(''Content-Type'', ''application/json'')] (Some (Json (JObj payload)))) \<and>
     mset ns = held_nodes (vars S)"
proof -
  let ?E = "sample_env grant_one"
  let ?f = "\<lambda>S. (num_rvr (vars S), map_outcome (\<lambda>_. ()) (sendSingleHeartbeat ?E (vars S)))"
  have "map_option ?f (run ?E [WatchCheck, WatchRound] (launch (sample_pod [] [] [] NoCommand))) = Some (1, Ok ())"
    by code_simp
  from run_projection [OF this fresh_sample] obtain S where S: "reachable ?E S" and f: "?f S = (1, Ok ())" by (elim exE conjE)
  from f have n: "num_rvr (vars S) = 1" and o: "map_outcome (\<lambda>_. ()) (sendSingleHeartbeat ?E (vars S)) = Ok ()" by simp_all
  from map_outcome_Ok [OF o] obtain v where v: "sendSingleHeartbeat ?E (vars S) = Ok v" by (elim exE conjE)
  have "\<forall>h req. net ?E h req \<noteq> NewRequestError" by (simp add: sample_env_def grant_one_def)
  from heartbeat_reports_held [OF S v this] obtain payload ns
    where "trace v ! length (trace (vars S)) = HttpCall (Request ''POST'' (consolepod_url ''heartbeat'' (vars S))
      [(''Content-Type'', ''application/json'')] (Some (Json (JObj payload))))" and "mset ns = held_nodes (vars S)"
    by (elim exE conjE)
  with S n v show ?thesis by (intro exI conjI)
qed

text \<open>
  C10: a termination signal leads to a clean end.  Whatever the goroutines have done, a pod
  that serves, with nobody waiting for Vault forever, can take the signal, release its nodes
  and return from \<^verbatim>\<open>main\<close>; the last request it makes gives back every node it held, and it
  ends with no node and no tail of one.
\<close>

theorem shutdown_completes:
  assumes "reachable E S" and "alive S" and "main_at S = Serving" and "\<not> stuck S"
  shows "\<exists>S' rn h. run E [Signal SigTerm, StopFlag, StopRelease, Exit] S = Some S' \<and> main_at S' = Ended \<and>
    held (vars S') = {} \<and> tailThreads (vars S') = [] \<and>
    trace (vars S') = h @ http_events E (release_request rn (vars S)) h \<and> mset rn = held_nodes (vars S)"
proof -
  let ?S' = "S\<lparr>vars := main_stop E (vars S), main_at := Ended, sigs := tl (if sigs S = [] then [SigTerm] else sigs S)\<rparr>"
  have ok: "pools_ok (vars S)" "tails_held (vars S)" using reachable_ok [OF assms(1)] by (simp_all add: system_ok_def)
  obtain rn h where m: "mset rn = held_nodes (vars S)"
    "trace (main_stop E (vars S)) = h @ http_events E (release_request rn (vars S)) h" "held (main_stop E (vars S)) = {}"
    "gm_keys (tailThreads (main_stop E (vars S))) = gm_keys (tailThreads (vars S)) - held (vars S)"
    using release_all_spec [OF ok(1), of E] by blast
  have "run E [Signal SigTerm, StopFlag, StopRelease, Exit] S = Some ?S'"
    using assms(2-4) by (simp add: deliver_def stop_flag_def stop_release_def exit_main_def alive_def may_run_def main_stop_def)
  moreover have "gm_keys (tailThreads (main_stop E (vars S))) = {}" using m(4) ok(2) by (simp add: tails_held_def)
  then have "tailThreads (main_stop E (vars S)) = []" by simp
  ultimately show ?thesis using m by (intro exI [of _ ?S'] exI [of _ rn] exI [of _ h]) simp
qed

theorem shutdown_completes_witness:
  "\<exists>S S'. reachable (sample_env grant_one) S \<and> num_rvr (vars S) = 1 \<and>
     run (sample_env grant_one) [Signal SigTerm, StopFlag, StopRelease, Exit] S = Some S' \<and> held (vars S') = {}"
proof -
  let ?E = "sample_env grant_one" and ?f = "\<lambda>S. (num_rvr (vars S), alive S, main_at S, stuck S)"
  have "map_option ?f (run ?E [WatchCheck, WatchRound, Listen] (launch (sample_pod [] [] [] NoCommand))) = Some (1, True, Serving, False)"
    by code_simp
  from run_projection [OF this fresh_sample] obtain S where S: "reachable ?E S" and f: "?f S = (1, True, Serving, False)"
    by (elim exE conjE)
  from f have p: "num_rvr (vars S) = 1" "alive S" "main_at S = Serving" "\<not> stuck S" by simp_all
  from shutdown_completes [OF S p(2-4)] S p(1) show ?thesis by blast
qed

text \<open>
  Once the shutdown has begun and no round of the watcher is under way, the set of held
  nodes only shrinks, even before all of them are released.
\<close>

lemma shutdown_only_shrinks:
  assumes "reachable E S" and "inShutdown (vars S)" and "wpc S = WIdle" and "(step E)\<^sup>*\<^sup>* S S'"
  shows "held (vars S') \<subseteq> held (vars S)"
proof -
  have ok: "system_ok S" by (rule reachable_ok [OF assms(1)])
  then have "Stopping \<le> main_at S" using assms(2) by (simp add: system_ok_def)
  then have "closing (held (vars S)) (ownership_of S)" using assms(3) by (simp add: closing_def ownership_of_def)
  from own_closing.along [OF own.runs_refine [OF assms(4) ok] this] show ?thesis by (simp add: closing_def ownership_of_def)
qed

text \<open>
  C11: in every reachable state each console is copied to the aggregation log by at most one
  goroutine that has not been told to stop, and then its node is held.
\<close>

theorem one_live_tail:
  assumes "reachable E S" and "(c, x) \<in> set (tailers (vars S))" and "c \<notin> set (cancelled (vars S))"
  shows "x \<in> held (vars S) \<and> (\<forall>d. (d, x) \<in> set (tailers (vars S)) \<longrightarrow> d \<notin> set (cancelled (vars S)) \<longrightarrow> d = c)"
proof -
  have ok: "tails_ok (vars S)" "tails_held (vars S)" using reachable_ok [OF assms(1)] by (simp_all add: system_ok_def)
  have c: "map_of (tailThreads (vars S)) x = Some c" using tails_okD(5) [OF ok(1) assms(2)] assms(3) by simp
  then have "x \<in> gm_keys (tailThreads (vars S))" by (metis map_of_SomeD fst_conv image_eqI)
  moreover have "d = c" if "(d, x) \<in> set (tailers (vars S))" "d \<notin> set (cancelled (vars S))" for d
    using tails_okD(5) [OF ok(1) that(1)] that(2) c by simp
  ultimately show ?thesis using ok(2) by (auto simp: tails_held_def)
qed

theorem one_live_tail_witness:
  "\<exists>S. reachable (sample_env grant_one) S \<and> tailers (vars S) = [(0, ''x9'')] \<and> ''x9'' \<in> held (vars S)"
proof -
  let ?E = "sample_env grant_one"
  let ?v = "(sample_pod [] [] [] NoCommand)\<lparr>files := [baseConfFile \<mapsto> RegFile 0 ''SERVER keepalive=ON'']\<rparr>"
  have r: "map_option (\<lambda>S. (tailers (vars S), cancelled (vars S))) (run ?E [WatchCheck, WatchRound, ConmanStep] (launch ?v)) =
      Some ([(0, ''x9'')], [])"
    by code_simp
  have "fresh_vars ?v" by simp
  from run_projection [OF r this] obtain S where S: "reachable ?E S" "tailers (vars S) = [(0, ''x9'')]" "cancelled (vars S) = []"
    by auto
  then have "''x9'' \<in> held (vars S)" using one_live_tail [OF S(1), of 0 "''x9''"] by simp
  with S(1,2) show ?thesis by (intro exI conjI)
qed



text \<open>
  A turn of \<^verbatim>\<open>doMonitor\<close> is what its goroutine does in four steps with nobody else in
  between.
\<close>

lemma monitor_turn_is_run:
  assumes "doMonitor_turn E (vars S) = Some (Ok v)" and "mpc S = MKeys" and "alive S" and "\<not> stuck S"
  shows "run E [MonitorStep, MonitorStep, MonitorStep, MonitorStep] S = Some (S\<lparr>vars := v, mpc := MKeys\<rparr>)"
proof -
  obtain v4 where 4: "checkForChanges E (vars S) = Some (Ok v4)" and v: "v = emit (Sleep monitorIntervalSecs) v4"
    using assms(1) by (auto simp: doMonitor_turn_def split: option.splits outcome.splits)
  obtain b v1 where 1: "checkIfMountainConsoleKeysChanged E (vars S) = Some (b, v1)"
    using 4 by (auto simp: checkForChanges_def split: option.splits)
  obtain c v2 where 2: "checkIfRiverPasswordsChanged E v1 = Ok (c, v2)"
    using 4 1 by (auto simp: checkForChanges_def split: outcome.splits)
  have 3: "(if b \<or> c then signalConmanTERM (checkLogFiles E v2) else Ok (checkLogFiles E v2)) = Ok v4"
    using 4 1 2 by (simp add: checkForChanges_def Let_def)
  show ?thesis using assms(2-4) 1 2 3 v by (cases "b \<or> c") (auto simp: monitor_step_def on_vars_def alive_def may_run_def)
qed





text \<open>
  C34: that state occurs: a heartbeat whose answer drops a node, coming between the creation
  of the command and its start, finds no process and crashes the pod.
\<close>

theorem signal_race_crashes:
  "\<exists>S. reachable (sample_env grant_one) S \<and> map fst (currentRvrNodes (vars S)) = [''x9''] \<and> cpc S = CStart \<and>
     act (sample_env grant_one) Beat S = Some (Panic NilDeref) \<and> step (sample_env grant_one) S (S\<lparr>crashed := True\<rparr>)"
proof -
  let ?E = "sample_env grant_one"
  let ?v = "(sample_pod [] [] [] NoCommand)\<lparr>files := [baseConfFile \<mapsto> RegFile 0 ''SERVER keepalive=ON'']\<rparr>"
  let ?f = "\<lambda>S. (map fst (currentRvrNodes (vars S)), cpc S, may_run Beat S, map_option (map_outcome (\<lambda>_. ())) (act ?E Beat S))"
  have r: "map_option ?f (run ?E [WatchCheck, WatchRound, ConmanStep, ConmanStep] (launch ?v)) =
      Some ([''x9''], CStart, True, Some (Panic NilDeref))"
    by code_simp
  have "fresh_vars ?v" by simp
  from run_projection [OF r this] obtain S where S: "reachable ?E S" and f: "?f S = ([''x9''], CStart, True, Some (Panic NilDeref))"
    by (elim exE conjE)
  from f have p: "map fst (currentRvrNodes (vars S)) = [''x9'']" "cpc S = CStart" "may_run Beat S"
    "map_option (map_outcome (\<lambda>_. ())) (act ?E Beat S) = Some (Panic NilDeref)" by simp_all
  from p(4) have b: "act ?E Beat S = Some (Panic NilDeref)"
    by (cases "act ?E Beat S"; cases "the (act ?E Beat S)") simp_all
  then have "step ?E S (S\<lparr>crashed := True\<rparr>)" using p(3) by (rule step_panic [rotated])
  with S p(1,2) b show ?thesis by (intro exI conjI)
qed

text \<open>
  C35: \<^verbatim>\<open>doGetNewNodes\<close> reads the shutdown flag before it takes the lock.  A round that has read
  it may acquire nodes after all nodes were released, and the pod exits holding them.
\<close>

theorem shutdown_race_keeps_node:
  "\<exists>S. reachable (sample_env grant_one) S \<and> main_at S = Ended \<and> map fst (currentRvrNodes (vars S)) = [''x9'']"
proof -
  let ?f = "\<lambda>S. (main_at S, map fst (currentRvrNodes (vars S)))"
  have "map_option ?f (run (sample_env grant_one)
      [Listen, WatchCheck, Signal SigTerm, StopFlag, StopRelease, WatchRound, Exit] (launch (sample_pod [] [] [] NoCommand))) =
      Some (Ended, [''x9''])"
    by code_simp
  from run_projection [OF this fresh_sample] show ?thesis by simp
qed

text \<open>
  C37: while Vault answers no login with status 200, the monitor of a pod with Mountain nodes can
  enter its check of the key and then stays there, with \<^verbatim>\<open>currNodesMutex\<close> held.  Whatever the
  goroutines do from then on, the nodes held and the time of the last heartbeat stay as they
  are, and \<^verbatim>\<open>main\<close> never gets beyond the release of the nodes.
\<close>

theorem vault_down_freezes:
  assumes "may_run MonitorStep S" and "mpc S = MKeys" and "main_at S \<le> Stopping"
    and "\<not> debugOnly (vars S)" and "currentMtnNodes (vars S) \<noteq> []"
    and "\<not> os_fails E (trace (vars S)) ''ReadFile'' svcAcctTokenFile" and "files (vars S) svcAcctTokenFile = Some (RegFile m tok)"
    and "\<forall>h. fst (snd (http_result (net E h (vault_login E tok)))) \<noteq> 200"
  shows "\<exists>S'. step E S S' \<and> (\<forall>S''. (step E)\<^sup>*\<^sup>* S' S'' \<longrightarrow>
    held (vars S'') = held (vars S) \<and> lastHeartbeatTime (vars S'') = lastHeartbeatTime (vars S) \<and> main_at S'' \<le> Stopping)"
proof -
  let ?S' = "S\<lparr>stuck := True\<rparr>" and ?w = "node_view (vars S)"
  have "wait_forever E MonitorStep S = Some ?S'"
    using assms(2) vault_down_waits(1) [OF assms(4-8)] by (simp add: wait_forever_def)
  then have "step E S ?S'" by (rule step_wait [OF assms(1)])
  moreover have "held (vars S'') = held (vars S) \<and> lastHeartbeatTime (vars S'') = lastHeartbeatTime (vars S) \<and> main_at S'' \<le> Stopping"
    if "(step E)\<^sup>*\<^sup>* ?S' S''" for S''
  proof -
    have "frozen ?w ?S'" using assms(3) by (simp add: frozen_def)
    from freeze.along [OF that this] show ?thesis by (simp add: frozen_def node_view_def held_def)
  qed
  ultimately show ?thesis by blast
qed

theorem vault_down_freezes_witness:
  "\<exists>S'. step (sample_env (\<lambda>_. DoError)) (launch (key_pod None)) S' \<and>
     (\<forall>S''. (step (sample_env (\<lambda>_. DoError)))\<^sup>*\<^sup>* S' S'' \<longrightarrow> main_at S'' \<le> Stopping)"
proof -
  let ?E = "sample_env (\<lambda>_. DoError)" and ?S = "launch (key_pod None)"
  have S: "may_run MonitorStep ?S" "mpc ?S = MKeys" "main_at ?S \<le> Stopping" "vars ?S = key_pod None"
    by (simp_all add: may_run_def alive_def launch_def phase_defs)
  have v: "\<not> debugOnly (vars ?S)" "currentMtnNodes (vars ?S) \<noteq> []"
    "\<not> os_fails ?E (trace (vars ?S)) ''ReadFile'' svcAcctTokenFile" "files (vars ?S) svcAcctTokenFile = Some (RegFile 0x1A4 ''token'')"
    "\<forall>h. fst (snd (http_result (net ?E h (vault_login ?E ''token'')))) \<noteq> 200"
    unfolding S(4) by (simp_all add: key_pod_def sample_env_def sample_pod_def sample_map_def http_result_def)
  from vault_down_freezes [OF S(1-3) v] show ?thesis by blast
qed

text \<open>
  C36: \<^verbatim>\<open>main\<close> registers the signals after it has started the goroutines.  A termination signal
  that comes in between ends the process at once, with the nodes that a first round of the
  watcher has acquired still held and the shutdown not even begun.
\<close>

theorem early_signal_keeps_node:
  "\<exists>S S'. reachable (sample_env grant_one) S \<and> map fst (currentRvrNodes (vars S)) = [''x9''] \<and>
     act (sample_env grant_one) (Signal SigTerm) S = Some (Ok S') \<and> \<not> alive S' \<and> \<not> inShutdown (vars S') \<and>
     map fst (currentRvrNodes (vars S')) = [''x9'']"
proof -
  let ?E = "sample_env grant_one" and ?f = "\<lambda>S. (main_at S, inShutdown (vars S), map fst (currentRvrNodes (vars S)))"
  have "map_option ?f (run ?E [WatchCheck, WatchRound] (launch (sample_pod [] [] [] NoCommand))) = Some (Starting, False, [''x9''])"
    by code_simp
  from run_projection [OF this fresh_sample] obtain S where S: "reachable ?E S" and f: "?f S = (Starting, False, [''x9''])"
    by (elim exE conjE)
  from f have p: "main_at S = Starting" "\<not> inShutdown (vars S)" "map fst (currentRvrNodes (vars S)) = [''x9'']" by simp_all
  then have "act ?E (Signal SigTerm) S = Some (Ok (S\<lparr>crashed := True\<rparr>))" by (simp add: deliver_def)
  moreover have "\<not> alive (S\<lparr>crashed := True\<rparr>)" by (simp add: alive_def)
  ultimately show ?thesis using S p by (intro exI [of _ S] exI [of _ "S\<lparr>crashed := True\<rparr>"]) simp
qed

end
